(* ===== verification/Prelude.thy ===== *)
theory Prelude
  imports Main "HOL-Library.Sublist"
begin

text \<open>
  The vocabulary every other theory shares: results of fallible Rust calls, the \<open>?\<close> operator
  over a threaded world, and the \<open>str\<close> operations of the standard library that the module uses.

  A Rust \<open>String\<close> is the list of its UTF-8 bytes (an Isabelle \<open>char\<close> is one byte), so \<open>len()\<close> is
  \<^const>\<open>length\<close> and the ASCII-only operations work byte by byte; the two operations that look at
  Unicode scalar values (\<open>trim\<close> and \<open>is_whitespace\<close>, \<open>is_control\<close>) match the UTF-8 encodings of
  the code points they test for.  A \<open>format!\<close> message is kept as its template and its arguments.
\<close>

named_theorems str_ops \<open>definitions of the string operations\<close>

subsection \<open>Results\<close>

text \<open>What a Rust call can end in: a value, an error value, or a panic.\<close>

datatype ('e, 'a) res = Ok 'a | Err 'e | Panic

type_synonym msg = "string \<times> string list"

fun is_ok :: "('e, 'a) res \<Rightarrow> bool" where
  "is_ok (Ok _) = True"
| "is_ok _ = False"

fun map_err :: "('e \<Rightarrow> 'f) \<Rightarrow> ('e, 'a) res \<Rightarrow> ('f, 'a) res" where
  "map_err f (Ok x) = Ok x"
| "map_err f (Err e) = Err (f e)"
| "map_err f Panic = Panic"

text \<open>\<open>Option::ok_or_else\<close>.\<close>

definition ok_or :: "'e \<Rightarrow> 'a option \<Rightarrow> ('e, 'a) res" where
  "ok_or e x = (case x of None \<Rightarrow> Err e | Some y \<Rightarrow> Ok y)"

lemma ok_or_simps [simp]:
  "ok_or e None = Err e"
  "ok_or e (Some y) = Ok y"
  by (simp_all add: ok_or_def)

lemma ok_or_eq_Ok [simp]: "(ok_or e x = Ok y) = (x = Some y)"
  by (cases x) simp_all

text \<open>The \<open>?\<close> operator on a pure result, and on a call that threads a world.\<close>

fun and_then :: "('e, 'a) res \<Rightarrow> ('a \<Rightarrow> ('e, 'b) res) \<Rightarrow> ('e, 'b) res" where
  "and_then (Ok x) k = k x"
| "and_then (Err e) k = Err e"
| "and_then Panic k = Panic"

lemma and_then_eq_Ok:
  "(and_then m k = Ok y) = (\<exists>x. m = Ok x \<and> k x = Ok y)"
  by (cases m) simp_all

lemma and_then_split:
  "P (and_then m k) =
    ((\<forall>x. m = Ok x \<longrightarrow> P (k x)) \<and> (\<forall>e. m = Err e \<longrightarrow> P (Err e)) \<and> (m = Panic \<longrightarrow> P Panic))"
  by (cases m) auto

fun attempt :: "('e, 'a) res \<times> 'w \<Rightarrow> ('a \<Rightarrow> 'w \<Rightarrow> ('e, 'b) res \<times> 'w) \<Rightarrow> ('e, 'b) res \<times> 'w" where
  "attempt (Ok x, w) k = k x w"
| "attempt (Err e, w) k = (Err e, w)"
| "attempt (Panic, w) k = (Panic, w)"

definition on_err :: "('e \<Rightarrow> 'f) \<Rightarrow> ('e, 'a) res \<times> 'w \<Rightarrow> ('f, 'a) res \<times> 'w" where
  "on_err f r = (map_err f (fst r), snd r)"

lemma on_err_simps [simp]:
  "on_err f (Ok x, w) = (Ok x, w)"
  "on_err f (Err e, w) = (Err (f e), w)"
  "on_err f (Panic, w) = (Panic, w)"
  "snd (on_err f r) = snd r"
  by (simp_all add: on_err_def)

lemma on_err_eq_Ok: "(on_err f r = (Ok x, w)) = (r = (Ok x, w))"
  by (cases r; cases "fst r") (auto simp: on_err_def)

lemma attempt_eq_Ok:
  "(attempt m k = (Ok y, w')) = (\<exists>x w. m = (Ok x, w) \<and> k x w = (Ok y, w'))"
  by (cases m; cases "fst m") auto

lemma attempt_cases:
  assumes "attempt m k = r"
  obtains (Ok) x w where "m = (Ok x, w)" "r = k x w"
    | (Err) e w where "m = (Err e, w)" "r = (Err e, w)"
    | (Panic) w where "m = (Panic, w)" "r = (Panic, w)"
  using assms by (cases m; cases "fst m") auto

text \<open>A predicate on the world survives a chain when every link keeps it.\<close>

lemma attempt_keeps:
  assumes "I (snd m)" and "\<And>x w. m = (Ok x, w) \<Longrightarrow> I w \<Longrightarrow> I (snd (k x w))"
  shows "I (snd (attempt m k))"
  using assms by (cases m; cases "fst m") auto

subsection \<open>Strings as UTF-8 bytes\<close>

definition byte :: "char \<Rightarrow> nat" where
  [str_ops]: "byte c = of_char c"

lemma byte_less: "byte c < 256"
  by (simp add: byte_def)

lemma char_of_byte [simp]: "char_of (byte c) = c"
  by (simp add: byte_def)

lemma byte_char_of [simp]: "byte (char_of n) = n mod 256"
  by (simp add: byte_def)

text \<open>The code points with the Unicode property White_Space, UTF-8 encoded.\<close>

definition ws_chars :: "string list" where
  "ws_chars =
    [[CHR 0x09], [CHR 0x0A], [CHR 0x0B], [CHR 0x0C], [CHR 0x0D], [CHR 0x20],
     [CHR 0xC2, CHR 0x85], [CHR 0xC2, CHR 0xA0], [CHR 0xE1, CHR 0x9A, CHR 0x80],
     [CHR 0xE2, CHR 0x80, CHR 0x80], [CHR 0xE2, CHR 0x80, CHR 0x81], [CHR 0xE2, CHR 0x80, CHR 0x82],
     [CHR 0xE2, CHR 0x80, CHR 0x83], [CHR 0xE2, CHR 0x80, CHR 0x84], [CHR 0xE2, CHR 0x80, CHR 0x85],
     [CHR 0xE2, CHR 0x80, CHR 0x86], [CHR 0xE2, CHR 0x80, CHR 0x87], [CHR 0xE2, CHR 0x80, CHR 0x88],
     [CHR 0xE2, CHR 0x80, CHR 0x89], [CHR 0xE2, CHR 0x80, CHR 0x8A], [CHR 0xE2, CHR 0x80, CHR 0xA8],
     [CHR 0xE2, CHR 0x80, CHR 0xA9], [CHR 0xE2, CHR 0x80, CHR 0xAF], [CHR 0xE2, CHR 0x81, CHR 0x9F],
     [CHR 0xE3, CHR 0x80, CHR 0x80]]"

text \<open>The length in bytes of the whitespace character a string starts (ends) with, 0 if none.\<close>

definition ws_len :: "string \<Rightarrow> nat" where
  "ws_len s = (case find (\<lambda>p. prefix p s) ws_chars of None \<Rightarrow> 0 | Some p \<Rightarrow> length p)"

definition ws_tail :: "string \<Rightarrow> nat" where
  "ws_tail s = (case find (\<lambda>p. suffix p s) ws_chars of None \<Rightarrow> 0 | Some p \<Rightarrow> length p)"

lemma ws_len_le: "ws_len s \<le> length s"
  by (auto simp: ws_len_def find_Some_iff split: option.split dest: prefix_length_le)

lemma ws_tail_le: "ws_tail s \<le> length s"
  by (auto simp: ws_tail_def find_Some_iff split: option.split dest: suffix_length_le)

lemma ws_len_less: "0 < ws_len s \<Longrightarrow> length s - ws_len s < length s"
  using ws_len_le [of s] by linarith

lemma ws_tail_less: "0 < ws_tail s \<Longrightarrow> length s - ws_tail s < length s"
  using ws_tail_le [of s] by linarith

function trim_start :: "string \<Rightarrow> string" where
  "trim_start s = (if ws_len s = 0 then s else trim_start (drop (ws_len s) s))"
  by pat_completeness auto
termination
  by (relation "measure length") (auto simp: ws_len_less)

function trim_end :: "string \<Rightarrow> string" where
  "trim_end s = (if ws_tail s = 0 then s else trim_end (take (length s - ws_tail s) s))"
  by pat_completeness auto
termination
  by (relation "measure length") (auto simp: ws_tail_less)

declare trim_start.simps [simp del] trim_end.simps [simp del]

definition trim :: "string \<Rightarrow> string" where
  "trim s = trim_end (trim_start s)"

lemma trim_start_no_ws: "ws_len (trim_start s) = 0"
  by (induction s rule: trim_start.induct) (simp add: trim_start.simps)

lemma trim_end_no_ws: "ws_tail (trim_end s) = 0"
  by (induction s rule: trim_end.induct) (simp add: trim_end.simps)

lemma trim_start_suffix: "suffix (trim_start s) s"
proof (induction s rule: trim_start.induct)
  case (1 s)
  show ?case
  proof (cases "ws_len s = 0")
    case True
    then show ?thesis by (simp add: trim_start.simps)
  next
    case False
    with 1 have "suffix (trim_start (drop (ws_len s) s)) (drop (ws_len s) s)" by simp
    then have "suffix (trim_start (drop (ws_len s) s)) s"
      using suffix_drop suffix_order.trans by blast
    with False show ?thesis by (simp add: trim_start.simps [of s])
  qed
qed

lemma trim_end_prefix: "prefix (trim_end s) s"
proof (induction s rule: trim_end.induct)
  case (1 s)
  show ?case
  proof (cases "ws_tail s = 0")
    case True
    then show ?thesis by (simp add: trim_end.simps)
  next
    case False
    let ?t = "take (length s - ws_tail s) s"
    from 1 False have "prefix (trim_end ?t) ?t" by simp
    then have "prefix (trim_end ?t) s"
      using take_is_prefix prefix_order.trans by blast
    with False show ?thesis by (simp add: trim_end.simps [of s])
  qed
qed

lemma length_trim_le: "length (trim s) \<le> length s"
  unfolding trim_def
  using trim_end_prefix [of "trim_start s"] trim_start_suffix [of s]
  by (meson le_trans prefix_length_le suffix_length_le)

lemma trim_Nil [simp]: "trim [] = []"
  using length_trim_le [of "[]"] by simp

text \<open>A string of printable ASCII has nothing to trim.\<close>

definition printable :: "char \<Rightarrow> bool" where
  "printable c \<longleftrightarrow> 33 \<le> byte c \<and> byte c < 127"

lemma ws_chars_ends: "p \<in> set ws_chars \<Longrightarrow> p \<noteq> [] \<and> \<not> printable (hd p) \<and> \<not> printable (last p)"
  by (auto simp: ws_chars_def printable_def byte_def)

lemma printable_no_ws:
  assumes "list_all printable s"
  shows "ws_len s = 0" and "ws_tail s = 0"
proof -
  have "\<not> prefix p s" "\<not> suffix p s" if "p \<in> set ws_chars" for p
    using ws_chars_ends [OF that] assms
    by (auto simp: prefix_def suffix_def list_all_iff)
  then show "ws_len s = 0" "ws_tail s = 0"
    by (auto simp: ws_len_def ws_tail_def find_Some_iff split: option.split)
qed

lemma trim_printable: "list_all printable s \<Longrightarrow> trim s = s"
  by (simp add: trim_def trim_start.simps [of s] trim_end.simps [of s] printable_no_ws)

text \<open>\<open>chars().any(char::is_whitespace)\<close>: an encoded whitespace character starts at some byte.\<close>

fun any_ws :: "string \<Rightarrow> bool" where
  "any_ws [] = False"
| "any_ws (c # cs) = (ws_len (c # cs) \<noteq> 0 \<or> any_ws cs)"

text \<open>\<open>chars().any(char::is_control)\<close>: U+0000..U+001F, U+007F..U+009F.\<close>

fun any_control :: "string \<Rightarrow> bool" where
  "any_control [] = False"
| "any_control (c # cs) =
    (byte c < 0x20 \<or> byte c = 0x7F
     \<or> (byte c = 0xC2 \<and> (case cs of [] \<Rightarrow> False | d # _ \<Rightarrow> 0x80 \<le> byte d \<and> byte d \<le> 0x9F))
     \<or> any_control cs)"

definition ascii_lower :: "char \<Rightarrow> char" where
  "ascii_lower c = (if 65 \<le> byte c \<and> byte c \<le> 90 then char_of (byte c + 32) else c)"

definition to_ascii_lowercase :: "string \<Rightarrow> string" where
  "to_ascii_lowercase s = map ascii_lower s"

definition eq_ignore_ascii_case :: "string \<Rightarrow> string \<Rightarrow> bool" where
  "eq_ignore_ascii_case a b \<longleftrightarrow> to_ascii_lowercase a = to_ascii_lowercase b"

lemma eq_ignore_ascii_case_refl [simp]: "eq_ignore_ascii_case a a"
  by (simp add: eq_ignore_ascii_case_def)

lemma eq_ignore_ascii_case_length: "eq_ignore_ascii_case a b \<Longrightarrow> length a = length b"
  unfolding eq_ignore_ascii_case_def to_ascii_lowercase_def by (metis length_map)

definition starts_with :: "string \<Rightarrow> string \<Rightarrow> bool" where
  "starts_with s p \<longleftrightarrow> prefix p s"

definition ends_with :: "string \<Rightarrow> string \<Rightarrow> bool" where
  "ends_with s p \<longleftrightarrow> suffix p s"

definition strip_prefix :: "string \<Rightarrow> string \<Rightarrow> string option" where
  "strip_prefix p s = (if prefix p s then Some (drop (length p) s) else None)"

definition strip_suffix :: "string \<Rightarrow> string \<Rightarrow> string option" where
  "strip_suffix p s = (if suffix p s then Some (take (length s - length p) s) else None)"

definition trim_end_matches :: "char \<Rightarrow> string \<Rightarrow> string" where
  "trim_end_matches c s = rev (dropWhile (\<lambda>x. x = c) (rev s))"

text \<open>\<open>split_once\<close> at the first occurrence, \<open>split\<close> at every occurrence (never an empty list).\<close>

fun split_once :: "char \<Rightarrow> string \<Rightarrow> (string \<times> string) option" where
  "split_once c [] = None"
| "split_once c (x # xs) =
    (if x = c then Some ([], xs)
     else case split_once c xs of None \<Rightarrow> None | Some (a, b) \<Rightarrow> Some (x # a, b))"

fun split_on :: "char \<Rightarrow> string \<Rightarrow> string list" where
  "split_on c [] = [[]]"
| "split_on c (x # xs) =
    (if x = c then [] # split_on c xs
     else case split_on c xs of [] \<Rightarrow> [[x]] | p # ps \<Rightarrow> (x # p) # ps)"

definition replace_char :: "char \<Rightarrow> string \<Rightarrow> string \<Rightarrow> string" where
  "replace_char c r s = concat (map (\<lambda>x. if x = c then r else [x]) s)"

lemma split_once_append [simp]:
  "c \<notin> set a \<Longrightarrow> split_once c (a @ c # b) = Some (a, b)"
  by (induction a) auto

lemma split_once_Some:
  "split_once c s = Some (a, b) \<Longrightarrow> s = a @ c # b \<and> c \<notin> set a"
  by (induction s arbitrary: a) (auto split: if_splits option.splits)

lemma split_once_None [simp]: "split_once c s = None \<longleftrightarrow> c \<notin> set s"
  by (induction s) (auto split: option.splits)

lemma split_on_nonempty [simp]: "split_on c s \<noteq> []"
  by (induction s) (auto split: list.splits)

lemma split_on_no_sep: "c \<notin> set s \<Longrightarrow> split_on c s = [s]"
  by (induction s) auto

lemma split_on_append: "c \<notin> set a \<Longrightarrow> split_on c (a @ c # b) = a # split_on c b"
  by (induction a) auto

text \<open>The pieces of a split: two strings split alike only when equal, a tail of the pieces is a tail
  of the string cut at a separator.\<close>

fun join_with :: "char \<Rightarrow> string list \<Rightarrow> string" where
  "join_with c [] = []"
| "join_with c [x] = x"
| "join_with c (x # xs) = x @ c # join_with c xs"

lemma join_split_on [simp]: "join_with c (split_on c s) = s"
proof (induction s)
  case (Cons x xs)
  obtain p ps where ps: "split_on c xs = p # ps" by (cases "split_on c xs") auto
  with Cons show ?case by (cases ps) auto
qed simp

lemma split_on_inject [simp]: "split_on c s = split_on c t \<longleftrightarrow> s = t"
  by (metis join_split_on)

lemma join_with_append:
  "xs \<noteq> [] \<Longrightarrow> ys \<noteq> [] \<Longrightarrow> join_with c (xs @ ys) = join_with c xs @ c # join_with c ys"
proof (induction c xs rule: join_with.induct)
  case (2 c x)
  then show ?case by (cases ys) auto
qed simp_all

lemma split_on_append_sep: "split_on c (a @ c # b) = split_on c a @ split_on c b"
proof (induction a)
  case (Cons x xs)
  then show ?case by (cases "split_on c xs") auto
qed simp

lemma suffix_split_on:
  "suffix (split_on c t) (split_on c s) \<longleftrightarrow> s = t \<or> suffix (c # t) s"
proof
  assume "suffix (split_on c t) (split_on c s)"
  then obtain ps where ps: "split_on c s = ps @ split_on c t" by (auto simp: suffix_def)
  show "s = t \<or> suffix (c # t) s"
  proof (cases "ps = []")
    case True
    with ps show ?thesis by simp
  next
    case False
    then have "join_with c (split_on c s) = join_with c ps @ c # join_with c (split_on c t)"
      unfolding ps by (simp add: join_with_append)
    then show ?thesis by (simp add: suffix_def)
  qed
next
  assume "s = t \<or> suffix (c # t) s"
  then show "suffix (split_on c t) (split_on c s)"
    by (auto simp: suffix_def split_on_append_sep)
qed

lemma replace_char_Nil [simp]: "replace_char c r [] = []"
  by (simp add: replace_char_def)

lemma replace_char_Cons: "replace_char c r (x # xs) = (if x = c then r else [x]) @ replace_char c r xs"
  by (simp add: replace_char_def)

lemma replace_char_append: "replace_char c r (xs @ ys) = replace_char c r xs @ replace_char c r ys"
  by (simp add: replace_char_def)

subsection \<open>Printing numbers\<close>

definition digit_char :: "nat \<Rightarrow> char" where
  "digit_char d = (if d < 10 then char_of (48 + d) else char_of (87 + d))"

text \<open>Decimal and lower-case hexadecimal \<open>Display\<close>; the base is at least 2.\<close>

function show_radix :: "nat \<Rightarrow> nat \<Rightarrow> string" where
  "show_radix r n = (if n < r \<or> r < 2 then [digit_char n] else show_radix r (n div r) @ [digit_char (n mod r)])"
  by pat_completeness auto
termination
  by (relation "measure snd") (auto intro!: div_less_dividend)

declare show_radix.simps [simp del]

definition show_nat :: "nat \<Rightarrow> string" where
  "show_nat n = show_radix 10 n"

definition show_int :: "int \<Rightarrow> string" where
  "show_int i = (if i < 0 then ''-'' @ show_nat (nat (- i)) else show_nat (nat i))"

subsection \<open>Lists\<close>

text \<open>Rows of a table are updated in place; the rows that do not match are kept.\<close>

definition update_where :: "('a \<Rightarrow> bool) \<Rightarrow> ('a \<Rightarrow> 'a) \<Rightarrow> 'a list \<Rightarrow> 'a list" where
  "update_where p f rows = map (\<lambda>r. if p r then f r else r) rows"

definition rows_affected :: "('a \<Rightarrow> bool) \<Rightarrow> 'a list \<Rightarrow> nat" where
  "rows_affected p rows = length (filter p rows)"

lemma set_update_where: "set (update_where p f rows) = (\<lambda>r. if p r then f r else r) ` set rows"
  by (simp add: update_where_def)

lemma update_where_hit: "r \<in> set rows \<Longrightarrow> p r \<Longrightarrow> f r \<in> set (update_where p f rows)"
  by (auto simp: set_update_where)

lemma length_update_where [simp]: "length (update_where p f rows) = length rows"
  by (simp add: update_where_def)

lemma map_update_where:
  "(\<And>r. p r \<Longrightarrow> g (f r) = g r) \<Longrightarrow> map g (update_where p f rows) = map g rows"
  by (simp add: update_where_def)

lemma update_where_none: "rows_affected p rows = 0 \<Longrightarrow> update_where p f rows = rows"
  by (auto simp: rows_affected_def update_where_def filter_empty_conv intro!: map_idI)

lemma rows_affected_le1:
  assumes "distinct (map g rows)" and "\<And>r. p r \<Longrightarrow> g r = k"
  shows "rows_affected p rows \<le> 1"
proof -
  have "distinct (map g (filter p rows))"
    using assms(1) by (simp add: distinct_map_filter)
  moreover have "set (map g (filter p rows)) \<subseteq> {k}"
    using assms(2) by auto
  ultimately have "length (map g (filter p rows)) \<le> card {k}"
    by (metis card_mono distinct_card finite.emptyI finite.insertI)
  then show ?thesis by (simp add: rows_affected_def)
qed

end
