(* ===== verification/Enums.thy ===== *)
theory Enums
  imports Prelude
begin

text \<open>
  The six database enums of \<open>domain/entity\<close>: their constructors, the labels \<open>Display\<close> writes (the
  labels of the Postgres types too), the case-insensitive \<open>FromStr\<close> and the defaults.  The two
  lifecycle enums carry the order their state machine gives them: \<open>s \<le> t\<close> when a row in status \<open>s\<close>
  may end in status \<open>t\<close>.  (\<open>ConnectorStatus::Active\<close> is \<open>Enabled\<close> here and \<open>Inactive\<close> is \<open>Disabled\<close>,
  because \<open>Active\<close> is the account status.)
\<close>

text \<open>
  \<open>str::to_lowercase\<close> as far as a comparison with an ASCII label can see it: ASCII capitals, and the
  Kelvin sign U+212A, the only other character whose lower case is a lone ASCII letter.  Every other
  non-ASCII character lowercases to something non-ASCII and can match no label.
\<close>

function to_lowercase :: "string \<Rightarrow> string" where
  "to_lowercase [] = []"
| "to_lowercase (c # cs) =
    (if c = CHR 0xE2 \<and> take 2 cs = [CHR 0x84, CHR 0xAA] then CHR ''k'' # to_lowercase (drop 2 cs)
     else ascii_lower c # to_lowercase cs)"
  by pat_completeness auto
termination
  by (relation "measure length") auto

named_theorems enum_strings \<open>label functions and their inverses\<close>

subsection \<open>OAuthProvider\<close>

datatype oauth_provider = Gmail | Outlook | GoogleCalendar | MicrosoftCalendar

fun oauth_provider_str :: "oauth_provider \<Rightarrow> string" where
  "oauth_provider_str Gmail = ''gmail''"
| "oauth_provider_str Outlook = ''outlook''"
| "oauth_provider_str GoogleCalendar = ''google_calendar''"
| "oauth_provider_str MicrosoftCalendar = ''microsoft_calendar''"

definition oauth_provider_from_str :: "string \<Rightarrow> (msg, oauth_provider) res" where
  [enum_strings]: "oauth_provider_from_str s =
    (let l = to_lowercase s in
     if l = ''gmail'' then Ok Gmail else
     if l = ''outlook'' then Ok Outlook else
     if l = ''google_calendar'' then Ok GoogleCalendar else
     if l = ''microsoft_calendar'' then Ok MicrosoftCalendar else
     Err (''Unknown OAuthProvider variant: {}'', [s]))"

definition default_oauth_provider :: oauth_provider where
  "default_oauth_provider = Gmail"

lemma oauth_provider_str_inj [simp]: "(oauth_provider_str a = oauth_provider_str b) = (a = b)"
  by (cases a; cases b) simp_all

lemma oauth_provider_roundtrip [simp]: "oauth_provider_from_str (oauth_provider_str a) = Ok a"
  by (cases a) (simp_all add: enum_strings ascii_lower_def byte_def)

subsection \<open>IntegrationAccountStatus\<close>

datatype account_status = Pending | Active | Expired | Revoked

fun account_status_str :: "account_status \<Rightarrow> string" where
  "account_status_str Pending = ''pending''"
| "account_status_str Active = ''active''"
| "account_status_str Expired = ''expired''"
| "account_status_str Revoked = ''revoked''"

definition account_status_from_str :: "string \<Rightarrow> (msg, account_status) res" where
  [enum_strings]: "account_status_from_str s =
    (let l = to_lowercase s in
     if l = ''pending'' then Ok Pending else
     if l = ''active'' then Ok Active else
     if l = ''expired'' then Ok Expired else
     if l = ''revoked'' then Ok Revoked else
     Err (''Unknown IntegrationAccountStatus variant: {}'', [s]))"

definition default_account_status :: account_status where
  "default_account_status = Pending"

lemma account_status_str_inj [simp]: "(account_status_str a = account_status_str b) = (a = b)"
  by (cases a; cases b) simp_all

lemma account_status_roundtrip [simp]: "account_status_from_str (account_status_str a) = Ok a"
  by (cases a) (simp_all add: enum_strings ascii_lower_def byte_def)

subsection \<open>ConnectorKind\<close>

datatype connector_kind = PaymentGateway | Marketplace | BankFeed | Courier

fun connector_kind_str :: "connector_kind \<Rightarrow> string" where
  "connector_kind_str PaymentGateway = ''payment_gateway''"
| "connector_kind_str Marketplace = ''marketplace''"
| "connector_kind_str BankFeed = ''bank_feed''"
| "connector_kind_str Courier = ''courier''"

definition connector_kind_from_str :: "string \<Rightarrow> (msg, connector_kind) res" where
  [enum_strings]: "connector_kind_from_str s =
    (let l = to_lowercase s in
     if l = ''payment_gateway'' then Ok PaymentGateway else
     if l = ''marketplace'' then Ok Marketplace else
     if l = ''bank_feed'' then Ok BankFeed else
     if l = ''courier'' then Ok Courier else
     Err (''Unknown ConnectorKind variant: {}'', [s]))"

definition default_connector_kind :: connector_kind where
  "default_connector_kind = PaymentGateway"

lemma connector_kind_str_inj [simp]: "(connector_kind_str a = connector_kind_str b) = (a = b)"
  by (cases a; cases b) simp_all

lemma connector_kind_roundtrip [simp]: "connector_kind_from_str (connector_kind_str a) = Ok a"
  by (cases a) (simp_all add: enum_strings ascii_lower_def byte_def)

subsection \<open>ConnectorDirection\<close>

datatype connector_direction = Inbound | Outbound | Both

fun connector_direction_str :: "connector_direction \<Rightarrow> string" where
  "connector_direction_str Inbound = ''inbound''"
| "connector_direction_str Outbound = ''outbound''"
| "connector_direction_str Both = ''both''"

definition connector_direction_from_str :: "string \<Rightarrow> (msg, connector_direction) res" where
  [enum_strings]: "connector_direction_from_str s =
    (let l = to_lowercase s in
     if l = ''inbound'' then Ok Inbound else
     if l = ''outbound'' then Ok Outbound else
     if l = ''both'' then Ok Both else
     Err (''Unknown ConnectorDirection variant: {}'', [s]))"

definition default_connector_direction :: connector_direction where
  "default_connector_direction = Inbound"

lemma connector_direction_str_inj [simp]: "(connector_direction_str a = connector_direction_str b) = (a = b)"
  by (cases a; cases b) simp_all

lemma connector_direction_roundtrip [simp]: "connector_direction_from_str (connector_direction_str a) = Ok a"
  by (cases a) (simp_all add: enum_strings ascii_lower_def byte_def)

subsection \<open>ConnectorStatus\<close>

datatype connector_status = Enabled | Disabled

fun connector_status_str :: "connector_status \<Rightarrow> string" where
  "connector_status_str Enabled = ''active''"
| "connector_status_str Disabled = ''inactive''"

definition connector_status_from_str :: "string \<Rightarrow> (msg, connector_status) res" where
  [enum_strings]: "connector_status_from_str s =
    (let l = to_lowercase s in
     if l = ''active'' then Ok Enabled else
     if l = ''inactive'' then Ok Disabled else
     Err (''Unknown ConnectorStatus variant: {}'', [s]))"

definition default_connector_status :: connector_status where
  "default_connector_status = Enabled"

lemma connector_status_str_inj [simp]: "(connector_status_str a = connector_status_str b) = (a = b)"
  by (cases a; cases b) simp_all

lemma connector_status_roundtrip [simp]: "connector_status_from_str (connector_status_str a) = Ok a"
  by (cases a) (simp_all add: enum_strings ascii_lower_def byte_def)

subsection \<open>IntegrationStatus\<close>

datatype integration_status = Received | Mapped | Ignored | Failed

fun integration_status_str :: "integration_status \<Rightarrow> string" where
  "integration_status_str Received = ''received''"
| "integration_status_str Mapped = ''mapped''"
| "integration_status_str Ignored = ''ignored''"
| "integration_status_str Failed = ''failed''"

definition integration_status_from_str :: "string \<Rightarrow> (msg, integration_status) res" where
  [enum_strings]: "integration_status_from_str s =
    (let l = to_lowercase s in
     if l = ''received'' then Ok Received else
     if l = ''mapped'' then Ok Mapped else
     if l = ''ignored'' then Ok Ignored else
     if l = ''failed'' then Ok Failed else
     Err (''Unknown IntegrationStatus variant: {}'', [s]))"

definition default_integration_status :: integration_status where
  "default_integration_status = Received"

lemma integration_status_str_inj [simp]: "(integration_status_str a = integration_status_str b) = (a = b)"
  by (cases a; cases b) simp_all

lemma integration_status_roundtrip [simp]: "integration_status_from_str (integration_status_str a) = Ok a"
  by (cases a) (simp_all add: enum_strings ascii_lower_def byte_def)

subsection \<open>Labels as Postgres reads them\<close>

text \<open>
  A cast \<open>$n::o_auth_provider\<close> in the SQL accepts exactly the labels of the type; \<open>None\<close> is the
  database error for any other text.
\<close>

definition provider_of_label :: "string \<Rightarrow> oauth_provider option" where
  "provider_of_label s = find (\<lambda>p. oauth_provider_str p = s) [Gmail, Outlook, GoogleCalendar, MicrosoftCalendar]"

definition kind_of_label :: "string \<Rightarrow> connector_kind option" where
  "kind_of_label s = find (\<lambda>k. connector_kind_str k = s) [PaymentGateway, Marketplace, BankFeed, Courier]"

definition direction_of_label :: "string \<Rightarrow> connector_direction option" where
  "direction_of_label s = find (\<lambda>d. connector_direction_str d = s) [Inbound, Outbound, Both]"

lemma provider_of_label_Some [simp]: "provider_of_label s = Some p \<longleftrightarrow> s = oauth_provider_str p"
  by (cases p) (auto simp: provider_of_label_def)

lemma kind_of_label_Some [simp]: "kind_of_label s = Some k \<longleftrightarrow> s = connector_kind_str k"
  by (cases k) (auto simp: kind_of_label_def)

subsection \<open>The lifecycle orders\<close>

text \<open>
  An account is created pending; \<open>pending\<close> may become \<open>active\<close> or \<open>revoked\<close>, \<open>active\<close> may become
  \<open>expired\<close> or \<open>revoked\<close>, and those two are terminal.
\<close>

instantiation account_status :: order
begin

fun less_eq_account_status :: "account_status \<Rightarrow> account_status \<Rightarrow> bool" where
  "less_eq_account_status Pending t = True"
| "less_eq_account_status Active t = (t \<noteq> Pending)"
| "less_eq_account_status Expired t = (t = Expired)"
| "less_eq_account_status Revoked t = (t = Revoked)"

definition less_account_status :: "account_status \<Rightarrow> account_status \<Rightarrow> bool" where
  "less_account_status s t \<longleftrightarrow> s \<le> t \<and> \<not> t \<le> s"

instance
proof
  fix s t u :: account_status
  show "(s < t) = (s \<le> t \<and> \<not> t \<le> s)" by (simp add: less_account_status_def)
  show "s \<le> s" by (cases s) simp_all
  show "s \<le> t \<Longrightarrow> t \<le> u \<Longrightarrow> s \<le> u" by (cases s; cases t; cases u) simp_all
  show "s \<le> t \<Longrightarrow> t \<le> s \<Longrightarrow> s = t" by (cases s; cases t) simp_all
qed

end

text \<open>
  An event is received; it is mapped, ignored or failed; a failed one may be re-driven to mapped or
  ignored; mapped and ignored are terminal.
\<close>

instantiation integration_status :: order
begin

fun less_eq_integration_status :: "integration_status \<Rightarrow> integration_status \<Rightarrow> bool" where
  "less_eq_integration_status Received t = True"
| "less_eq_integration_status Failed t = (t \<noteq> Received)"
| "less_eq_integration_status Mapped t = (t = Mapped)"
| "less_eq_integration_status Ignored t = (t = Ignored)"

definition less_integration_status :: "integration_status \<Rightarrow> integration_status \<Rightarrow> bool" where
  "less_integration_status s t \<longleftrightarrow> s \<le> t \<and> \<not> t \<le> s"

instance
proof
  fix s t u :: integration_status
  show "(s < t) = (s \<le> t \<and> \<not> t \<le> s)" by (simp add: less_integration_status_def)
  show "s \<le> s" by (cases s) simp_all
  show "s \<le> t \<Longrightarrow> t \<le> u \<Longrightarrow> s \<le> u" by (cases s; cases t; cases u) simp_all
  show "s \<le> t \<Longrightarrow> t \<le> s \<Longrightarrow> s = t" by (cases s; cases t) simp_all
qed

end

end
