(* ===== verification/Entities.thy ===== *)
theory Entities
  imports Enums "HOL-Library.Word"
begin

text \<open>
  The three domain entities and their audit metadata (\<open>domain/entity\<close>).  The same records are the
  rows of the three tables of the database model.  A \<open>Uuid\<close> is a 128-bit word; an instant
  (\<open>DateTime<Utc>\<close>, Postgres \<open>timestamptz\<close>) counts microseconds since the epoch.
\<close>

type_synonym uuid = "128 word"
type_synonym datetime = int

definition micros :: "int \<Rightarrow> int" where
  "micros secs = secs * 1000000"

named_theorems entity_ops \<open>definitions of the entity operations\<close>

subsection \<open>Audit metadata\<close>

record audit_metadata =
  created_at :: "datetime option"
  updated_at :: "datetime option"
  deleted_at :: "datetime option"
  created_by :: "uuid option"
  updated_by :: "uuid option"
  deleted_by :: "uuid option"

definition default_audit :: audit_metadata where
  [entity_ops]: "default_audit = \<lparr>created_at = None, updated_at = None, deleted_at = None,
    created_by = None, updated_by = None, deleted_by = None\<rparr>"

definition audit_new :: "datetime \<Rightarrow> audit_metadata" where
  [entity_ops]: "audit_new now = default_audit\<lparr>created_at := Some now\<rparr>"

definition audit_with_creator :: "datetime \<Rightarrow> uuid \<Rightarrow> audit_metadata" where
  [entity_ops]: "audit_with_creator now creator =
    default_audit\<lparr>created_at := Some now, created_by := Some creator\<rparr>"

definition touch :: "datetime \<Rightarrow> audit_metadata \<Rightarrow> audit_metadata" where
  [entity_ops]: "touch now m = m\<lparr>updated_at := Some now\<rparr>"

definition touch_by :: "datetime \<Rightarrow> uuid \<Rightarrow> audit_metadata \<Rightarrow> audit_metadata" where
  [entity_ops]: "touch_by now u m = m\<lparr>updated_at := Some now, updated_by := Some u\<rparr>"

definition soft_delete :: "datetime \<Rightarrow> audit_metadata \<Rightarrow> audit_metadata" where
  [entity_ops]: "soft_delete now m = m\<lparr>deleted_at := Some now\<rparr>"

definition soft_delete_by :: "datetime \<Rightarrow> uuid \<Rightarrow> audit_metadata \<Rightarrow> audit_metadata" where
  [entity_ops]: "soft_delete_by now u m = m\<lparr>deleted_at := Some now, deleted_by := Some u\<rparr>"

definition restore :: "audit_metadata \<Rightarrow> audit_metadata" where
  [entity_ops]: "restore m = m\<lparr>deleted_at := None, deleted_by := None\<rparr>"

definition is_deleted :: "audit_metadata \<Rightarrow> bool" where
  [entity_ops]: "is_deleted m \<longleftrightarrow> deleted_at m \<noteq> None"

definition is_active :: "audit_metadata \<Rightarrow> bool" where
  [entity_ops]: "is_active m \<longleftrightarrow> deleted_at m = None"

lemma restore_soft_delete_by:
  "restore (soft_delete_by now u m) = m\<lparr>deleted_at := None, deleted_by := None\<rparr>"
  by (simp add: entity_ops)

subsection \<open>The entities\<close>

record connector =
  co_id :: uuid
  co_provider :: string
  co_kind :: connector_kind
  co_direction :: connector_direction
  co_status :: connector_status
  co_metadata :: audit_metadata

record account =
  ac_id :: uuid
  ac_provider :: oauth_provider
  ac_ref :: string
  ac_status :: account_status
  ac_scopes :: string
  ac_pkce :: "string option"
  ac_expires_at :: "datetime option"
  ac_last_refreshed :: "datetime option"
  ac_metadata :: audit_metadata

record event =
  ev_id :: uuid
  ev_connector :: uuid
  ev_type :: string
  ev_external_id :: string
  ev_business_key :: string
  ev_status :: integration_status
  ev_payload :: string
  ev_ref_type :: "string option"
  ev_ref_id :: "uuid option"
  ev_error :: "string option"
  ev_metadata :: audit_metadata

end
