(* ===== verification/Outside.thy ===== *)
theory Outside
  imports Entities
begin

text \<open>
  What the module uses of packages that are not in the repository: one record of functions per
  package, an argument of the definitions that use it.  The \<open>_laws\<close> predicates state the documented
  behaviour a property relies on; nothing else is assumed of these functions.
\<close>

subsection \<open>The url crate\<close>

text \<open>A parsed URL, as the accessors the guard reads.\<close>

record url =
  scheme :: string
  username :: string
  password :: "string option"
  host_str :: "string option"
  port :: "nat option"
  path :: string
  query :: "string option"
  fragment :: "string option"

record url_lib =
  parse_url :: "string \<Rightarrow> url option"
  url_as_str :: "url \<Rightarrow> string"
  append_pairs :: "(string \<times> string) list \<Rightarrow> url \<Rightarrow> url"

text \<open>The serialization of a parsed URL parses back to it.\<close>

definition url_laws :: "url_lib \<Rightarrow> bool" where
  "url_laws U \<longleftrightarrow> (\<forall>s u. parse_url U s = Some u \<longrightarrow> parse_url U (url_as_str U u) = Some u)"

lemma url_lawsD: "url_laws U \<Longrightarrow> parse_url U s = Some u \<Longrightarrow> parse_url U (url_as_str U u) = Some u"
  by (auto simp: url_laws_def)

text \<open>
  A URL library for the concrete runs: the plain \<open>https\<close> URLs of the registry, a host and a path.
\<close>

definition plain_parse :: "string \<Rightarrow> url option" where
  "plain_parse s =
    (if take 8 s = ''https://'' \<and> list_all (\<lambda>c. c \<notin> set ''@:?#'') (drop 8 s) then
       (let rest = drop 8 s
        in Some \<lparr>scheme = ''https'', username = [], password = None,
             host_str = Some (takeWhile (\<lambda>c. c \<noteq> CHR ''/'') rest), port = None,
             path = dropWhile (\<lambda>c. c \<noteq> CHR ''/'') rest, query = None, fragment = None\<rparr>)
     else None)"

definition plain_url_lib :: url_lib where
  "plain_url_lib =
    \<lparr>parse_url = plain_parse,
     url_as_str = (\<lambda>u. ''https://'' @ (case host_str u of None \<Rightarrow> [] | Some h \<Rightarrow> h) @ path u
       @ (case query u of None \<Rightarrow> [] | Some q \<Rightarrow> ''?'' @ q)),
     append_pairs = (\<lambda>ps u. u\<lparr>query := Some (concat (map (\<lambda>(k, v). ''&'' @ k @ ''='' @ v) ps))\<rparr>)\<rparr>"

lemma plain_parse_str:
  assumes "plain_parse s = Some u"
  shows "url_as_str plain_url_lib u = s"
proof -
  from assms have "take 8 s = ''https://''" by (auto simp: plain_parse_def split: if_splits)
  then have "s = ''https://'' @ drop 8 s" by (metis append_take_drop_id)
  with assms show ?thesis
    by (auto simp: plain_parse_def plain_url_lib_def Let_def split: if_splits)
qed

lemma plain_url_laws: "url_laws plain_url_lib"
  unfolding url_laws_def
proof (intro allI impI)
  fix s u assume "parse_url plain_url_lib s = Some u"
  then have p: "plain_parse s = Some u" by (simp add: plain_url_lib_def)
  then have "url_as_str plain_url_lib u = s" by (rule plain_parse_str)
  with p show "parse_url plain_url_lib (url_as_str plain_url_lib u) = Some u"
    by (simp add: plain_url_lib_def)
qed

subsection \<open>chrono\<close>

text \<open>
  Durations count microseconds.  \<open>None\<close> is the panic of an out-of-range \<open>Duration::seconds\<close> or of an
  overflowing addition or subtraction on an instant.
\<close>

record chrono =
  duration_seconds :: "int \<Rightarrow> int option"
  plus_duration :: "datetime \<Rightarrow> int \<Rightarrow> datetime option"
  minus_duration :: "datetime \<Rightarrow> int \<Rightarrow> datetime option"
  timestamp :: "datetime \<Rightarrow> int"
  num_seconds :: "int \<Rightarrow> int"

definition chrono_laws :: "chrono \<Rightarrow> bool" where
  "chrono_laws C \<longleftrightarrow>
     (\<forall>s d. duration_seconds C s = Some d \<longrightarrow> d = micros s \<and> num_seconds C d = s)
   \<and> (\<forall>t d t'. plus_duration C t d = Some t' \<longrightarrow> t' = t + d)
   \<and> (\<forall>t d t'. minus_duration C t d = Some t' \<longrightarrow> t' = t - d)
   \<and> (\<forall>t. timestamp C t = t div 1000000)"

lemma chrono_lawsD:
  assumes "chrono_laws C"
  shows "duration_seconds C s = Some d \<Longrightarrow> d = micros s"
    and "duration_seconds C s = Some d \<Longrightarrow> num_seconds C d = s"
    and "plus_duration C t d = Some t' \<Longrightarrow> t' = t + d"
    and "minus_duration C t d = Some t' \<Longrightarrow> t' = t - d"
    and "timestamp C t = t div 1000000"
  using assms by (auto simp: chrono_laws_def)

text \<open>The panic of an arithmetic operation, as a result.\<close>

definition unwrap_time :: "'a option \<Rightarrow> ('e, 'a) res" where
  "unwrap_time x = (case x of None \<Rightarrow> Panic | Some y \<Rightarrow> Ok y)"

lemma unwrap_time_simps [simp]:
  "unwrap_time None = Panic" "unwrap_time (Some y) = Ok y" "(unwrap_time x = Ok y) = (x = Some y)"
  "unwrap_time x \<noteq> Err e"
  by (auto simp: unwrap_time_def split: option.splits)

text \<open>A chrono with the documented ranges: seconds within 64-bit milliseconds, instants within the calendar.\<close>

definition calendar :: "datetime \<Rightarrow> datetime option" where
  "calendar t = (if \<bar>t\<bar> \<le> 8210266876799999999 then Some t else None)"

definition ranged_chrono :: chrono where
  "ranged_chrono =
    \<lparr>duration_seconds = (\<lambda>s. if \<bar>s\<bar> \<le> (2 ^ 63 - 1) div 1000 then Some (micros s) else None),
     plus_duration = (\<lambda>t d. calendar (t + d)),
     minus_duration = (\<lambda>t d. calendar (t - d)),
     timestamp = (\<lambda>t. t div 1000000),
     num_seconds = (\<lambda>d. d div 1000000)\<rparr>"

lemma ranged_chrono_laws: "chrono_laws ranged_chrono"
  by (auto simp: chrono_laws_def ranged_chrono_def calendar_def micros_def split: if_splits)

subsection \<open>serde_json and base64\<close>

datatype json = JNull | JBool bool | JNumber string | JString string
  | JArray "json list" | JObject "(string \<times> json) list"

text \<open>\<open>Value::get\<close> with a key, and \<open>Value::as_str\<close>.\<close>

fun json_get :: "json \<Rightarrow> string \<Rightarrow> json option" where
  "json_get (JObject kvs) k = map_of kvs k"
| "json_get _ k = None"

fun json_as_str :: "json \<Rightarrow> string option" where
  "json_as_str (JString s) = Some s"
| "json_as_str _ = None"

text \<open>
  \<open>from_slice\<close>/\<open>from_str\<close> to a \<open>Value\<close>, URL-safe unpadded base64 and the two hash functions, on bytes.
\<close>

record codec =
  parse_json :: "string \<Rightarrow> json option"
  b64_encode :: "string \<Rightarrow> string"
  b64_decode :: "string \<Rightarrow> string option"
  sha256 :: "string \<Rightarrow> string"
  hmac_sha256 :: "string \<Rightarrow> string \<Rightarrow> string"

text \<open>The alphabet has no dot, and decoding undoes encoding.\<close>

definition b64_laws :: "codec \<Rightarrow> bool" where
  "b64_laws K \<longleftrightarrow>
    (\<forall>s. CHR ''.'' \<notin> set (b64_encode K s) \<and> b64_decode K (b64_encode K s) = Some s)"

lemma b64_lawsD:
  assumes "b64_laws K"
  shows "CHR ''.'' \<notin> set (b64_encode K s)" and "b64_decode K (b64_encode K s) = Some s"
  using assms by (auto simp: b64_laws_def)

subsection \<open>The uuid crate\<close>

text \<open>\<open>Uuid::to_string\<close> and \<open>str::parse::<Uuid>\<close>: parsing undoes printing.\<close>

record uuid_text =
  show_uuid :: "uuid \<Rightarrow> string"
  read_uuid :: "string \<Rightarrow> uuid option"

definition uuid_laws :: "uuid_text \<Rightarrow> bool" where
  "uuid_laws X \<longleftrightarrow> (\<forall>u. read_uuid X (show_uuid X u) = Some u)"

lemma uuid_lawsD: "uuid_laws X \<Longrightarrow> read_uuid X (show_uuid X u) = Some u"
  by (simp add: uuid_laws_def)

lemma show_uuid_eq: "uuid_laws X \<Longrightarrow> (show_uuid X u = show_uuid X v) = (u = v)"
  by (metis uuid_lawsD option.inject)

text \<open>An instance: the 128 bits, least significant first.\<close>

definition bits_of_uuid :: "uuid \<Rightarrow> string" where
  "bits_of_uuid u = map (\<lambda>n. if bit u n then CHR ''1'' else CHR ''0'') [0..<128]"

definition uuid_of_bits :: "string \<Rightarrow> uuid option" where
  "uuid_of_bits s = (if length s = 128 then Some (horner_sum of_bool 2 (map (\<lambda>c. c = CHR ''1'') s)) else None)"

definition bit_uuids :: uuid_text where
  "bit_uuids = \<lparr>show_uuid = bits_of_uuid, read_uuid = uuid_of_bits\<rparr>"

lemma bit_uuids_laws: "uuid_laws bit_uuids"
proof -
  have "horner_sum of_bool 2 (map (bit u) [0..<128]) = u" for u :: uuid
  proof -
    have "horner_sum of_bool 2 (map (bit u) [0..<128]) = take_bit 128 u"
      by (rule horner_sum_bit_eq_take_bit)
    also have "\<dots> = u" using take_bit_word_eq_self [of 128 u] by simp
    finally show ?thesis .
  qed
  then show ?thesis
    by (simp add: uuid_laws_def bit_uuids_def bits_of_uuid_def uuid_of_bits_def comp_def cong: map_cong if_cong)
qed

end
