(* ===== verification/World.thy ===== *)
theory World
  imports Outside
begin

text \<open>
  The database the module writes and the world its asynchronous code runs in.

  A \<open>world\<close> holds the module's tables, the clock that \<open>Utc::now()\<close> and SQL \<open>now()\<close> read, the account
  rows other transactions hold locked, the outcomes the database will give to the next statements
  (\<open>True\<close>: this round trip fails), and \<open>ext\<close>, the state of everything behind a port (the credential
  store, the providers, the target modules, the event sink).  A port call is a function on worlds,
  so other tasks may run, and time may pass, while it is awaited.

  A transaction buffers its statements and publishes them at commit; leaving it without a commit
  (an error propagated by \<open>?\<close>, a rollback) discards them.
\<close>

named_theorems sql \<open>definitions of the SQL statements\<close>
named_theorems db_calls \<open>definitions of the database round trips\<close>

text \<open>A record of the outbox table, as \<open>OutboxRecord::new\<close> takes it.\<close>

record outbox_record =
  ob_event_type :: string
  ob_aggregate_type :: string
  ob_aggregate_id :: string
  ob_company :: uuid
  ob_payload :: json
  ob_occurred_at :: datetime

record db =
  accounts :: "account list"
  connectors :: "connector list"
  events :: "event list"
  outbox :: "outbox_record list"

record 'x world =
  tables :: db
  clock :: datetime
  locked :: "uuid list"
  faults :: "bool list"
  ext :: 'x

datatype db_error = UniqueViolation | DbFailure

text \<open>A statement reads the tables and the transaction time; it yields a value and the new tables.\<close>

type_synonym 'a stmt = "datetime \<Rightarrow> db \<Rightarrow> db_error + 'a \<times> db"
type_synonym tx = "db \<Rightarrow> db"

text \<open>One round trip: \<open>Some w\<close> when the database answers, \<open>None\<close> when it fails.\<close>

definition round_trip :: "'x world \<Rightarrow> bool \<times> 'x world" where
  [db_calls]: "round_trip w = (case faults w of
     [] \<Rightarrow> (True, w)
   | f # fs \<Rightarrow> (\<not> f, w\<lparr>faults := fs\<rparr>))"

text \<open>A statement outside any transaction: it commits by itself.\<close>

definition execute :: "'a stmt \<Rightarrow> 'x world \<Rightarrow> (db_error, 'a) res \<times> 'x world" where
  [db_calls]: "execute s w = (case round_trip w of
     (False, w') \<Rightarrow> (Err DbFailure, w')
   | (True, w') \<Rightarrow> (case s (clock w') (tables w') of
        Inl e \<Rightarrow> (Err e, w')
      | Inr (a, d) \<Rightarrow> (Ok a, w'\<lparr>tables := d\<rparr>)))"

definition begin_tx :: "'x world \<Rightarrow> (db_error, tx) res \<times> 'x world" where
  [db_calls]: "begin_tx w = (case round_trip w of
     (False, w') \<Rightarrow> (Err DbFailure, w')
   | (True, w') \<Rightarrow> (Ok id, w'))"

text \<open>
  A statement inside a transaction sees the transaction's own writes over the committed tables; what
  it writes joins the buffer.
\<close>

definition execute_in :: "'a stmt \<Rightarrow> tx \<Rightarrow> 'x world \<Rightarrow> (db_error, 'a \<times> tx) res \<times> 'x world" where
  [db_calls]: "execute_in s t w = (case round_trip w of
     (False, w') \<Rightarrow> (Err DbFailure, w')
   | (True, w') \<Rightarrow> (case s (clock w') (t (tables w')) of
        Inl e \<Rightarrow> (Err e, w')
      | Inr (a, _) \<Rightarrow>
          (Ok (a, \<lambda>d. case s (clock w') (t d) of Inl _ \<Rightarrow> t d | Inr (_, d') \<Rightarrow> d'), w')))"

definition commit :: "tx \<Rightarrow> 'x world \<Rightarrow> (db_error, unit) res \<times> 'x world" where
  [db_calls]: "commit t w = (case round_trip w of
     (False, w') \<Rightarrow> (Err DbFailure, w')
   | (True, w') \<Rightarrow> (Ok (), w'\<lparr>tables := t (tables w')\<rparr>))"

definition rollback :: "tx \<Rightarrow> 'x world \<Rightarrow> (db_error, unit) res \<times> 'x world" where
  [db_calls]: "rollback t w = (case round_trip w of
     (False, w') \<Rightarrow> (Err DbFailure, w')
   | (True, w') \<Rightarrow> (Ok (), w'))"

text \<open>
  Binding the ambient organisation scope onto a transaction (\<open>org_scope::bind_org_scope_on\<close>): nothing
  when no scope is resolved, one statement that may fail otherwise.  The tables of the model are the
  rows the decorator's fence lets the request see.
\<close>

definition bind_ambient_org_scope :: "bool \<Rightarrow> tx \<Rightarrow> 'x world \<Rightarrow> (db_error, tx) res \<times> 'x world" where
  [db_calls]: "bind_ambient_org_scope scoped t w =
    (if scoped then
       (case round_trip w of (False, w') \<Rightarrow> (Err DbFailure, w') | (True, w') \<Rightarrow> (Ok t, w'))
     else (Ok t, w))"

subsection \<open>What a round trip can change\<close>

lemma round_trip_frame [simp]:
  "round_trip w = (ok, w') \<Longrightarrow> tables w' = tables w \<and> clock w' = clock w \<and> ext w' = ext w \<and> locked w' = locked w"
  by (auto simp: round_trip_def split: list.splits)

lemma round_trip_no_faults [simp]: "faults w = [] \<Longrightarrow> round_trip w = (True, w)"
  by (simp add: round_trip_def)

text \<open>Every call keeps what is behind the ports; only \<open>execute\<close> and \<open>commit\<close> touch the tables.\<close>

lemma execute_ext [simp]: "ext (snd (execute s w)) = ext w"
  by (auto simp: execute_def split: prod.splits bool.splits sum.splits dest!: round_trip_frame)

lemma execute_clock [simp]: "clock (snd (execute s w)) = clock w"
  by (auto simp: execute_def split: prod.splits bool.splits sum.splits dest!: round_trip_frame)

lemma execute_in_frame [simp]:
  "ext (snd (execute_in s t w)) = ext w"
  "tables (snd (execute_in s t w)) = tables w"
  "clock (snd (execute_in s t w)) = clock w"
  by (auto simp: execute_in_def split: prod.splits bool.splits sum.splits dest!: round_trip_frame)

lemma begin_tx_frame [simp]:
  "ext (snd (begin_tx w)) = ext w"
  "tables (snd (begin_tx w)) = tables w"
  "clock (snd (begin_tx w)) = clock w"
  by (auto simp: begin_tx_def split: prod.splits bool.splits dest!: round_trip_frame)

lemma rollback_frame [simp]:
  "ext (snd (rollback t w)) = ext w"
  "tables (snd (rollback t w)) = tables w"
  "clock (snd (rollback t w)) = clock w"
  by (auto simp: rollback_def split: prod.splits bool.splits dest!: round_trip_frame)

lemma commit_ext [simp]: "ext (snd (commit t w)) = ext w" "clock (snd (commit t w)) = clock w"
  by (auto simp: commit_def split: prod.splits bool.splits dest!: round_trip_frame)

lemma bind_scope_frame [simp]:
  "ext (snd (bind_ambient_org_scope b t w)) = ext w"
  "tables (snd (bind_ambient_org_scope b t w)) = tables w"
  "clock (snd (bind_ambient_org_scope b t w)) = clock w"
  by (auto simp: bind_ambient_org_scope_def split: prod.splits bool.splits dest!: round_trip_frame)

lemma execute_tables:
  "tables (snd (execute s w)) = tables w
   \<or> (\<exists>a. fst (execute s w) = Ok a \<and> s (clock w) (tables w) = Inr (a, tables (snd (execute s w))))"
  by (auto simp: execute_def split: prod.splits bool.splits sum.splits dest!: round_trip_frame)

lemma commit_tables:
  "tables (snd (commit t w)) = tables w \<or> tables (snd (commit t w)) = t (tables w)"
  by (auto simp: commit_def split: prod.splits bool.splits dest!: round_trip_frame)

lemma execute_Ok:
  "execute s w = (Ok a, w') \<Longrightarrow> s (clock w) (tables w) = Inr (a, tables w')"
  by (auto simp: execute_def split: prod.splits bool.splits sum.splits dest!: round_trip_frame)

lemma execute_Err:
  "execute s w = (Err e, w') \<Longrightarrow> tables w' = tables w"
  by (auto simp: execute_def split: prod.splits bool.splits sum.splits dest!: round_trip_frame)

lemma execute_not_Panic [simp]: "execute s w \<noteq> (Panic, w')"
  by (auto simp: execute_def split: prod.splits bool.splits sum.splits)

lemma execute_in_Ok:
  "execute_in s t w = (Ok (a, t'), w') \<Longrightarrow>
    (\<exists>d. s (clock w) (t (tables w)) = Inr (a, d)) \<and>
    t' = (\<lambda>d. case s (clock w) (t d) of Inl _ \<Rightarrow> t d | Inr (_, d') \<Rightarrow> d') \<and>
    tables w' = tables w \<and> ext w' = ext w \<and> clock w' = clock w"
  by (auto simp: execute_in_def split: prod.splits bool.splits sum.splits dest!: round_trip_frame)

lemma commit_Ok:
  "commit t w = (Ok u, w') \<Longrightarrow> tables w' = t (tables w) \<and> ext w' = ext w \<and> clock w' = clock w"
  by (auto simp: commit_def split: prod.splits bool.splits dest!: round_trip_frame)

lemma begin_tx_Ok:
  "begin_tx w = (Ok t, w') \<Longrightarrow> t = id \<and> tables w' = tables w \<and> ext w' = ext w \<and> clock w' = clock w"
  by (auto simp: begin_tx_def split: prod.splits bool.splits dest!: round_trip_frame)

lemma bind_scope_Ok:
  "bind_ambient_org_scope b t w = (Ok t', w') \<Longrightarrow>
    t' = t \<and> tables w' = tables w \<and> ext w' = ext w \<and> clock w' = clock w"
  by (auto simp: bind_ambient_org_scope_def split: prod.splits bool.splits if_splits dest!: round_trip_frame)

text \<open>With no pending failure, every round trip answers.\<close>

lemma no_fault_calls:
  assumes "faults w = []"
  shows "execute s w = (case s (clock w) (tables w) of
           Inl e \<Rightarrow> (Err e, w) | Inr (a, d) \<Rightarrow> (Ok a, w\<lparr>tables := d\<rparr>))"
    and "begin_tx w = (Ok id, w)"
    and "commit t w = (Ok (), w\<lparr>tables := t (tables w)\<rparr>)"
    and "rollback t w = (Ok (), w)"
    and "bind_ambient_org_scope b t w = (Ok t, w)"
    and "execute_in s t w = (case s (clock w) (t (tables w)) of
           Inl e \<Rightarrow> (Err e, w)
         | Inr (a, _) \<Rightarrow> (Ok (a, \<lambda>d. case s (clock w) (t d) of Inl _ \<Rightarrow> t d | Inr (_, d') \<Rightarrow> d'), w))"
  using assms by (simp_all add: db_calls)

end
