(* ===== verification/Account_Ledger.thy ===== *)
theory Account_Ledger
  imports World
begin

text \<open>
  The table \<open>integrations.integration_accounts\<close>: one definition per SQL statement the OAuth service
  and the refresh job run on it, the table's invariant, and the guarantee every statement gives to
  the tasks that run beside it.  The audit triggers of the migrations are part of the statements.
\<close>

definition stamp_insert :: "datetime \<Rightarrow> audit_metadata \<Rightarrow> audit_metadata" where
  "stamp_insert t m = m\<lparr>created_at := Some t, updated_at := Some t\<rparr>"

definition account_by_id :: "uuid \<Rightarrow> db \<Rightarrow> account option" where
  "account_by_id i d = find (\<lambda>r. ac_id r = i) (accounts d)"

definition update_accounts ::
  "(account \<Rightarrow> bool) \<Rightarrow> (account \<Rightarrow> account) \<Rightarrow> nat stmt" where
  "update_accounts p f t d =
    Inr (rows_affected p (accounts d),
         d\<lparr>accounts := update_where p
             (\<lambda>r. f r\<lparr>ac_metadata := touch t (ac_metadata (f r))\<rparr>) (accounts d)\<rparr>)"

subsection \<open>The declared checks\<close>

text \<open>\<open>char_length\<close> counts characters, a UTF-8 continuation byte being none; \<open>btrim\<close> strips spaces.\<close>

definition char_length :: "string \<Rightarrow> nat" where
  "char_length s = length (filter (\<lambda>c. \<not> (0x80 \<le> byte c \<and> byte c < 0xC0)) s)"

definition non_blank :: "string \<Rightarrow> bool" where
  "non_blank s \<longleftrightarrow> list_ex (\<lambda>c. c \<noteq> CHR '' '') s"

definition account_checks :: "account \<Rightarrow> bool" where
  "account_checks r \<longleftrightarrow> non_blank (ac_ref r) \<and> char_length (ac_ref r) \<le> 120
   \<and> (case ac_pkce r of None \<Rightarrow> True | Some s \<Rightarrow> char_length s \<le> 256)"

subsection \<open>The statements of the OAuth service\<close>

definition delete_scope :: "string \<Rightarrow> string \<Rightarrow> nat stmt" where
  [sql]: "delete_scope provider account_ref t d =
    (case provider_of_label provider of
       None \<Rightarrow> Inl DbFailure
     | Some p \<Rightarrow>
         let hit = (\<lambda>r. ac_provider r = p \<and> ac_ref r = account_ref)
         in Inr (rows_affected hit (accounts d),
                 d\<lparr>accounts := filter (\<lambda>r. \<not> hit r) (accounts d)\<rparr>))"

definition insert_pending ::
  "uuid \<Rightarrow> string \<Rightarrow> string \<Rightarrow> string \<Rightarrow> string option \<Rightarrow> unit stmt" where
  [sql]: "insert_pending i provider account_ref scopes verifier t d =
    (case provider_of_label provider of
       None \<Rightarrow> Inl DbFailure
     | Some p \<Rightarrow>
         (let row = \<lparr>ac_id = i, ac_provider = p, ac_ref = account_ref, ac_status = Pending,
                ac_scopes = scopes, ac_pkce = verifier, ac_expires_at = None,
                ac_last_refreshed = None, ac_metadata = stamp_insert t default_audit\<rparr>
          in if \<not> account_checks row then Inl DbFailure
             else if i \<in> set (map ac_id (accounts d)) then Inl UniqueViolation
             else Inr ((), d\<lparr>accounts := accounts d @ [row]\<rparr>)))"

definition select_account :: "uuid \<Rightarrow> account option stmt" where
  [sql]: "select_account i t d = Inr (account_by_id i d, d)"

definition select_pkce_verifier :: "uuid \<Rightarrow> string option option stmt" where
  [sql]: "select_pkce_verifier i t d = Inr (map_option ac_pkce (account_by_id i d), d)"

definition activate_pending :: "uuid \<Rightarrow> string \<Rightarrow> datetime \<Rightarrow> datetime \<Rightarrow> nat stmt" where
  [sql]: "activate_pending i scopes expires_at now =
    update_accounts (\<lambda>r. ac_id r = i \<and> ac_status r = Pending)
      (\<lambda>r. r\<lparr>ac_status := Active, ac_scopes := scopes, ac_expires_at := Some expires_at,
             ac_last_refreshed := Some now, ac_pkce := None\<rparr>)"

definition revoke_account :: "uuid \<Rightarrow> nat stmt" where
  [sql]: "revoke_account i =
    update_accounts (\<lambda>r. ac_id r = i \<and> ac_status r \<in> {Pending, Active})
      (\<lambda>r. r\<lparr>ac_status := Revoked, ac_pkce := None\<rparr>)"

definition expire_active :: "uuid \<Rightarrow> nat stmt" where
  [sql]: "expire_active i =
    update_accounts (\<lambda>r. ac_id r = i \<and> ac_status r = Active)
      (\<lambda>r. r\<lparr>ac_status := Expired, ac_pkce := None\<rparr>)"

definition mirror_expiry :: "uuid \<Rightarrow> datetime \<Rightarrow> nat stmt" where
  [sql]: "mirror_expiry i expires_at =
    update_accounts (\<lambda>r. ac_id r = i) (\<lambda>r. r\<lparr>ac_expires_at := Some expires_at\<rparr>)"

definition mirror_refreshed :: "uuid \<Rightarrow> datetime \<Rightarrow> string option \<Rightarrow> datetime \<Rightarrow> nat stmt" where
  [sql]: "mirror_refreshed i expires_at scope now =
    update_accounts (\<lambda>r. ac_id r = i)
      (\<lambda>r. r\<lparr>ac_expires_at := Some expires_at,
             ac_scopes := (case scope of None \<Rightarrow> ac_scopes r | Some s \<Rightarrow> s),
             ac_last_refreshed := Some now\<rparr>)"

text \<open>
  The due predicate shared by the two sweeps, and the claim: the due row with the smallest expiry no
  other transaction holds locked (\<open>FOR UPDATE SKIP LOCKED\<close>).  Which of two rows with equal expiries
  comes first is the table's order, which the theorems leave arbitrary.
\<close>

definition due :: "int \<Rightarrow> datetime \<Rightarrow> account \<Rightarrow> bool" where
  "due window t r \<longleftrightarrow> ac_status r = Active \<and>
     (case ac_expires_at r of None \<Rightarrow> False | Some e \<Rightarrow> e < t + micros window)"

definition expiry_key :: "account \<Rightarrow> datetime" where
  "expiry_key r = (case ac_expires_at r of None \<Rightarrow> 0 | Some e \<Rightarrow> e)"

definition oldest :: "account list \<Rightarrow> account option" where
  "oldest rows = (case sort_key expiry_key rows of [] \<Rightarrow> None | r # _ \<Rightarrow> Some r)"

definition claim_due :: "int \<Rightarrow> uuid list \<Rightarrow> account option stmt" where
  [sql]: "claim_due window held t d =
    Inr (oldest (filter (\<lambda>r. due window t r \<and> ac_id r \<notin> set held) (accounts d)), d)"

definition claim_active :: "uuid \<Rightarrow> uuid list \<Rightarrow> account option stmt" where
  [sql]: "claim_active i held t d =
    Inr (find (\<lambda>r. ac_id r = i \<and> ac_status r = Active \<and> ac_id r \<notin> set held) (accounts d), d)"

subsection \<open>The statements of the refresh job\<close>

definition claim_due_excluding :: "int \<Rightarrow> uuid list \<Rightarrow> uuid list \<Rightarrow> account option stmt" where
  [sql]: "claim_due_excluding window attempted held t d =
    Inr (oldest (filter (\<lambda>r. due window t r \<and> ac_id r \<notin> set attempted \<and> ac_id r \<notin> set held)
                   (accounts d)), d)"

definition job_expire :: "uuid \<Rightarrow> nat stmt" where
  [sql]: "job_expire i = update_accounts (\<lambda>r. ac_id r = i) (\<lambda>r. r\<lparr>ac_status := Expired\<rparr>)"

definition job_mirror :: "uuid \<Rightarrow> datetime \<Rightarrow> nat stmt" where
  [sql]: "job_mirror i expires_at t =
    update_accounts (\<lambda>r. ac_id r = i)
      (\<lambda>r. r\<lparr>ac_expires_at := Some expires_at, ac_last_refreshed := Some t\<rparr>) t"

subsection \<open>Facts about the claim\<close>

lemma oldest_Some:
  assumes "oldest rows = Some r"
  shows "r \<in> set rows" and "\<And>r'. r' \<in> set rows \<Longrightarrow> expiry_key r \<le> expiry_key r'"
proof -
  from assms obtain rs where rs: "sort_key expiry_key rows = r # rs"
    by (auto simp: oldest_def split: list.splits)
  have set_eq: "set rows = set (r # rs)" using rs set_sort by metis
  then show "r \<in> set rows" by simp
  have "sorted (map expiry_key (r # rs))" using rs sorted_sort_key by metis
  then show "\<And>r'. r' \<in> set rows \<Longrightarrow> expiry_key r \<le> expiry_key r'"
    using set_eq by auto
qed

lemma oldest_None [simp]: "oldest rows = None \<longleftrightarrow> rows = []"
proof -
  have "sort_key expiry_key rows = [] \<longleftrightarrow> rows = []"
    by (metis length_0_conv length_sort)
  then show ?thesis by (auto simp: oldest_def split: list.splits)
qed

lemma account_by_id_Some:
  "account_by_id i d = Some r \<Longrightarrow> r \<in> set (accounts d) \<and> ac_id r = i"
  by (auto simp: account_by_id_def find_Some_iff)

lemma account_by_id_unique:
  assumes "distinct (map ac_id (accounts d))" and "r \<in> set (accounts d)"
  shows "account_by_id (ac_id r) d = Some r"
proof -
  have "find (\<lambda>x. ac_id x = ac_id r) rows = Some r"
    if "distinct (map ac_id rows)" "r \<in> set rows" for rows
    using that by (induction rows) auto
  with assms show ?thesis by (simp add: account_by_id_def)
qed

lemma account_by_id_None: "account_by_id i d = None \<longleftrightarrow> i \<notin> ac_id ` set (accounts d)"
  by (auto simp: account_by_id_def find_None_iff)

text \<open>Looking a row up after an update that keeps the ids.\<close>

lemma find_map_same_key:
  "(\<And>r. g (f r) = g r) \<Longrightarrow> find (\<lambda>r. g r = k) (map f rows) = map_option f (find (\<lambda>r. g r = k) rows)"
  by (induction rows) auto

lemma account_by_id_update:
  assumes "\<And>r. ac_id (f r) = ac_id r"
    and "update_accounts p f t d = Inr (n, d')"
  shows "account_by_id i d' = map_option
    (\<lambda>r. if p r then f r\<lparr>ac_metadata := touch t (ac_metadata (f r))\<rparr> else r) (account_by_id i d)"
proof -
  have "d' = d\<lparr>accounts := map (\<lambda>r. if p r then f r\<lparr>ac_metadata := touch t (ac_metadata (f r))\<rparr> else r)
      (accounts d)\<rparr>"
    using assms(2) by (simp add: update_accounts_def update_where_def)
  then show ?thesis
    using assms(1) by (simp add: account_by_id_def find_map_same_key)
qed

lemma update_accounts_Inr:
  "update_accounts p f t d = Inr (n, d') \<longleftrightarrow>
    n = rows_affected p (accounts d) \<and>
    d' = d\<lparr>accounts := update_where p (\<lambda>r. f r\<lparr>ac_metadata := touch t (ac_metadata (f r))\<rparr>) (accounts d)\<rparr>"
  by (auto simp: update_accounts_def)

text \<open>An update by id that does not hit exactly one row hits none, and changes nothing.\<close>

lemma update_accounts_miss:
  assumes "update_accounts (\<lambda>r. ac_id r = i \<and> q r) f t d = Inr (n, d')" and "n \<noteq> 1"
    and "distinct (map ac_id (accounts d))"
  shows "d' = d"
proof -
  have "rows_affected (\<lambda>r. ac_id r = i \<and> q r) (accounts d) \<le> 1"
    by (rule rows_affected_le1 [where g = ac_id and k = i]) (use assms(3) in auto)
  with assms(1,2) have "rows_affected (\<lambda>r. ac_id r = i \<and> q r) (accounts d) = 0"
    by (simp add: update_accounts_Inr)
  with assms(1) show ?thesis by (simp add: update_accounts_Inr update_where_none)
qed

subsection \<open>The invariant of the table\<close>

text \<open>
  Ids are unique (the primary key); a PKCE verifier lives on pending rows only; an active row mirrors
  an expiry.
\<close>

definition account_ok :: "account \<Rightarrow> bool" where
  "account_ok r \<longleftrightarrow> (ac_pkce r \<noteq> None \<longrightarrow> ac_status r = Pending)
     \<and> (ac_status r = Active \<longrightarrow> ac_expires_at r \<noteq> None)"

definition accounts_ok :: "db \<Rightarrow> bool" where
  "accounts_ok d \<longleftrightarrow> distinct (map ac_id (accounts d)) \<and> (\<forall>r \<in> set (accounts d). account_ok r)"

text \<open>
  What a task may do to the accounts: keep the invariant, and for every id already issued (\<open>U\<close>) only
  move its row along the lifecycle, never to another provider or identity, and never bring a deleted
  one back.
\<close>

definition account_moves :: "account \<Rightarrow> account \<Rightarrow> bool" where
  "account_moves r r' \<longleftrightarrow> ac_id r' = ac_id r \<and> ac_status r \<le> ac_status r'
     \<and> ac_provider r' = ac_provider r \<and> ac_ref r' = ac_ref r"

definition accounts_step :: "uuid set \<Rightarrow> db \<Rightarrow> db \<Rightarrow> bool" where
  "accounts_step U d d' \<longleftrightarrow> (accounts_ok d \<longrightarrow> accounts_ok d')
     \<and> (\<forall>r' \<in> set (accounts d'). ac_id r' \<in> U \<longrightarrow> (\<exists>r \<in> set (accounts d). account_moves r r'))"

lemma account_moves_refl [simp]: "account_moves r r"
  by (simp add: account_moves_def)

lemma account_moves_trans: "account_moves a b \<Longrightarrow> account_moves b c \<Longrightarrow> account_moves a c"
  by (auto simp: account_moves_def intro: order_trans)

lemma account_stays [intro]: "r \<in> S \<Longrightarrow> \<exists>r' \<in> S. account_moves r' r"
  using account_moves_refl by blast

lemma accounts_step_refl [simp]: "accounts_step U d d"
  by (auto simp: accounts_step_def)

lemma accounts_step_trans:
  assumes "accounts_step U a b" and "accounts_step U b c"
  shows "accounts_step U a c"
  unfolding accounts_step_def
proof (intro conjI ballI impI)
  show "accounts_ok c" if "accounts_ok a" using that assms by (simp add: accounts_step_def)
  fix r' assume "r' \<in> set (accounts c)" "ac_id r' \<in> U"
  then obtain r where "r \<in> set (accounts b)" "account_moves r r'"
    using assms(2) by (auto simp: accounts_step_def)
  moreover from this have "ac_id r \<in> U" using \<open>ac_id r' \<in> U\<close> by (simp add: account_moves_def)
  ultimately show "\<exists>r\<in>set (accounts a). account_moves r r'"
    using assms(1) by (meson account_moves_trans accounts_step_def)
qed

text \<open>An update is a step when it moves every row it hits along the lifecycle and keeps it well formed.\<close>

lemma update_accounts_step:
  assumes "\<And>r. r \<in> set (accounts d) \<Longrightarrow> p r \<Longrightarrow> account_moves r (f r)"
    and "\<And>r. r \<in> set (accounts d) \<Longrightarrow> p r \<Longrightarrow> account_ok r \<Longrightarrow> account_ok (f r)"
    and "\<And>r. ac_id (f r) = ac_id r"
    and "update_accounts p f t d = Inr (n, d')"
  shows "accounts_step U d d'"
proof -
  define g where "g r = (if p r then f r\<lparr>ac_metadata := touch t (ac_metadata (f r))\<rparr> else r)" for r
  have acc: "accounts d' = map g (accounts d)"
    using assms(4) by (auto simp: update_accounts_def update_where_def g_def [abs_def])
  have ids: "map ac_id (accounts d') = map ac_id (accounts d)"
    using assms(3) by (simp add: acc g_def)
  have ok: "account_ok (g r)" if "r \<in> set (accounts d)" "account_ok r" for r
    using assms(2) [OF that(1)] that(2) by (simp add: g_def account_ok_def)
  have moves: "account_moves r (g r)" if "r \<in> set (accounts d)" for r
    using assms(1) [OF that] by (simp add: g_def account_moves_def)
  show ?thesis
    unfolding accounts_step_def accounts_ok_def ids using ok moves by (auto simp: acc)
qed

lemmas account_row_defs = account_moves_def account_ok_def

lemma activate_step: "activate_pending i s e now t d = Inr (n, d') \<Longrightarrow> accounts_step U d d'"
  unfolding activate_pending_def
  by (erule update_accounts_step [rotated 3]) (auto simp: account_row_defs)

lemma revoke_step: "revoke_account i t d = Inr (n, d') \<Longrightarrow> accounts_step U d d'"
  unfolding revoke_account_def
  by (erule update_accounts_step [rotated 3]) (auto simp: account_row_defs)

lemma expire_step: "expire_active i t d = Inr (n, d') \<Longrightarrow> accounts_step U d d'"
  unfolding expire_active_def
  by (erule update_accounts_step [rotated 3]) (auto simp: account_row_defs)

lemma mirror_expiry_step: "mirror_expiry i e t d = Inr (n, d') \<Longrightarrow> accounts_step U d d'"
  unfolding mirror_expiry_def
  by (erule update_accounts_step [rotated 3]) (auto simp: account_row_defs)

lemma mirror_refreshed_step: "mirror_refreshed i e s now t d = Inr (n, d') \<Longrightarrow> accounts_step U d d'"
  unfolding mirror_refreshed_def
  by (erule update_accounts_step [rotated 3]) (auto simp: account_row_defs)

lemma job_mirror_step: "job_mirror i e t d = Inr (n, d') \<Longrightarrow> accounts_step U d d'"
  unfolding job_mirror_def
  by (erule update_accounts_step [rotated 3]) (auto simp: account_row_defs)

text \<open>
  The job's expire statement has no status guard: it is a step only because the row it names is the
  claimed, locked, active one.
\<close>

lemma job_expire_step:
  assumes "accounts_ok d" and "account_by_id i d = Some r" and "ac_status r = Active"
    and "job_expire i t d = Inr (n, d')"
  shows "accounts_step U d d'"
proof -
  have only: "r' = r" if "r' \<in> set (accounts d)" "ac_id r' = i" for r'
    using that assms(1,2) account_by_id_unique [of d r'] by (simp add: accounts_ok_def)
  have ok: "account_ok r"
    using assms(1,2) account_by_id_Some by (auto simp: accounts_ok_def)
  show ?thesis
    using assms(4) unfolding job_expire_def
    by (rule update_accounts_step [rotated 3]) (use only assms(3) ok in \<open>auto simp: account_row_defs\<close>)
qed

lemma delete_scope_step: "delete_scope p a t d = Inr (n, d') \<Longrightarrow> accounts_step U d d'"
  by (auto simp: delete_scope_def accounts_step_def accounts_ok_def Let_def distinct_map_filter
      split: option.splits)

lemma insert_pending_step:
  "insert_pending i p a s v t d = Inr (u, d') \<Longrightarrow> i \<notin> U \<Longrightarrow> accounts_step U d d'"
  by (auto simp: insert_pending_def Let_def accounts_step_def accounts_ok_def account_ok_def
      split: option.splits if_splits)

lemma select_step:
  "select_account i t d = Inr (x, d') \<Longrightarrow> d' = d"
  "select_pkce_verifier i t d = Inr (y, d') \<Longrightarrow> d' = d"
  "claim_due w h t d = Inr (z, d') \<Longrightarrow> d' = d"
  "claim_active i h t d = Inr (z, d') \<Longrightarrow> d' = d"
  "claim_due_excluding w at h t d = Inr (z, d') \<Longrightarrow> d' = d"
  by (simp_all add: sql)

subsection \<open>Steps of a task, and the calls that make them\<close>

text \<open>
  The contract between the database calls and an operation built from them: a reflexive, transitive
  guarantee \<open>G\<close> on tables.  An operation whose statements and port calls all keep \<open>G\<close> keeps \<open>G\<close>.
\<close>

locale table_guarantee =
  fixes G :: "db \<Rightarrow> db \<Rightarrow> bool"
  assumes stay: "G d d"
    and join: "G a b \<Longrightarrow> G b c \<Longrightarrow> G a c"
begin

lemma execute_keeps:
  assumes "G d (tables w)" and "\<And>a d'. s (clock w) (tables w) = Inr (a, d') \<Longrightarrow> G (tables w) d'"
  shows "G d (tables (snd (execute s w)))"
  using execute_tables [of s w] assms(1) join [OF assms(1) assms(2)] by metis

lemma commit_keeps:
  assumes "G d (tables w)" and "G (tables w) (t (tables w))"
  shows "G d (tables (snd (commit t w)))"
  using commit_tables [of t w] assms(1) join [OF assms] by metis

lemma attempt_link:
  assumes "G d (tables (snd m))"
    and "\<And>x w. m = (Ok x, w) \<Longrightarrow> G d (tables w) \<Longrightarrow> G d (tables (snd (k x w)))"
  shows "G d (tables (snd (attempt m k)))"
  using assms by (rule attempt_keeps)

lemma port_keeps:
  assumes "G d (tables w)" and "G (tables w) (tables (snd (p w)))"
  shows "G d (tables (snd (p w)))"
  using assms by (rule join)

end

interpretation acc: table_guarantee "accounts_step U" for U
  by unfold_locales (rule accounts_step_refl, rule accounts_step_trans)

end
