(* ===== verification/Ordered_Map.thy ===== *)
theory Ordered_Map
  imports Prelude "HOL-Library.List_Lexorder" "HOL-Library.Char_ord"
begin

text \<open>
  \<open>BTreeMap\<close>: an association list kept sorted by key.  Strings are ordered byte by byte, as Rust orders
  \<open>str\<close>.  The locale is the interface the provider registry uses.
\<close>

locale ordered_map =
  fixes empty :: "'m"
    and ins :: "'k::linorder \<Rightarrow> 'v \<Rightarrow> 'm \<Rightarrow> 'm"
    and look :: "'m \<Rightarrow> 'k \<Rightarrow> 'v option"
    and keys :: "'m \<Rightarrow> 'k list"
    and wf :: "'m \<Rightarrow> bool"
  assumes wf_empty: "wf empty"
    and wf_ins: "wf m \<Longrightarrow> wf (ins k v m)"
    and look_empty: "look empty k = None"
    and look_ins: "wf m \<Longrightarrow> look (ins k v m) = (look m)(k \<mapsto> v)"
    and keys_set: "wf m \<Longrightarrow> set (keys m) = dom (look m)"
    and keys_sorted: "wf m \<Longrightarrow> sorted (keys m) \<and> distinct (keys m)"
begin

definition ins_all :: "('k \<times> 'v) list \<Rightarrow> 'm \<Rightarrow> 'm" where
  "ins_all kvs m = fold (\<lambda>(k, v). ins k v) kvs m"

lemma wf_ins_all: "wf m \<Longrightarrow> wf (ins_all kvs m)"
  unfolding ins_all_def by (induction kvs arbitrary: m) (auto simp: wf_ins)

lemma look_ins_all: "wf m \<Longrightarrow> look (ins_all kvs m) = look m ++ map_of (rev kvs)"
proof (induction kvs arbitrary: m)
  case Nil
  then show ?case by (simp add: ins_all_def)
next
  case (Cons kv kvs)
  obtain k v where kv: "kv = (k, v)" by (cases kv)
  have "look (ins_all kvs (ins k v m)) = look (ins k v m) ++ map_of (rev kvs)"
    using Cons.prems by (intro Cons.IH wf_ins)
  then show ?case
    using Cons.prems by (simp add: ins_all_def kv look_ins map_add_def fun_eq_iff split: option.split)
qed

lemma keys_look: "wf m \<Longrightarrow> k \<in> set (keys m) \<longleftrightarrow> look m k \<noteq> None"
  by (auto simp: keys_set)

end

type_synonym 'v btree = "(string \<times> 'v) list"

fun btree_insert :: "string \<Rightarrow> 'v \<Rightarrow> 'v btree \<Rightarrow> 'v btree" where
  "btree_insert k v [] = [(k, v)]"
| "btree_insert k v ((k', v') # m) =
    (if k < k' then (k, v) # (k', v') # m
     else if k = k' then (k, v) # m
     else (k', v') # btree_insert k v m)"

definition btree_get :: "'v btree \<Rightarrow> string \<Rightarrow> 'v option" where
  "btree_get m k = map_of m k"

definition btree_keys :: "'v btree \<Rightarrow> string list" where
  "btree_keys m = map fst m"

definition btree_wf :: "'v btree \<Rightarrow> bool" where
  "btree_wf m \<longleftrightarrow> sorted (map fst m) \<and> distinct (map fst m)"

lemma set_btree_insert: "fst ` set (btree_insert k v m) = insert k (fst ` set m)"
  by (induction k v m rule: btree_insert.induct) (simp_all add: insert_commute)

lemma btree_insert_wf:
  "btree_wf m \<Longrightarrow> btree_wf (btree_insert k v m)"
proof (induction m)
  case Nil
  then show ?case by (simp add: btree_wf_def)
next
  case (Cons x m)
  obtain k' v' where x: "x = (k', v')" by (cases x)
  have IH: "btree_wf (btree_insert k v m)" using Cons by (simp add: btree_wf_def)
  have below: "\<forall>q \<in> fst ` set m. k' < q"
    using Cons.prems by (auto simp: btree_wf_def x order.strict_iff_order)
  consider "k < k'" | "k = k'" | "k' < k" by (rule linorder_cases)
  then show ?case
  proof cases
    case 1
    with below have "\<forall>q \<in> fst ` set m. k < q" by (blast intro: less_trans)
    with 1 Cons.prems show ?thesis by (force simp: btree_wf_def x)
  next
    case 2
    with Cons.prems show ?thesis by (simp add: btree_wf_def x)
  next
    case 3
    have "\<forall>q \<in> fst ` set (btree_insert k v m). k' < q"
      using below 3 by (simp add: set_btree_insert)
    with IH 3 show ?thesis by (force simp: btree_wf_def x)
  qed
qed

lemma btree_get_insert:
  "btree_wf m \<Longrightarrow> btree_get (btree_insert k v m) = (btree_get m)(k \<mapsto> v)"
  by (induction m) (auto simp: btree_get_def btree_wf_def fun_eq_iff)

interpretation bt: ordered_map "[]" btree_insert btree_get btree_keys btree_wf
proof unfold_locales
  fix m :: "'v btree" and k v
  show "btree_wf ([] :: 'v btree)" by (simp add: btree_wf_def)
  show "btree_wf m \<Longrightarrow> btree_wf (btree_insert k v m)" by (rule btree_insert_wf)
  show "btree_get [] k = None" by (simp add: btree_get_def)
  show "btree_wf m \<Longrightarrow> btree_get (btree_insert k v m) = (btree_get m)(k \<mapsto> v)"
    by (rule btree_get_insert)
  show "set (btree_keys m) = dom (btree_get m)"
    by (simp add: btree_keys_def btree_get_def [abs_def] dom_map_of_conv_image_fst)
  show "btree_wf m \<Longrightarrow> sorted (btree_keys m) \<and> distinct (btree_keys m)"
    by (simp add: btree_keys_def btree_wf_def)
qed

end
