(* ===== verification/Ip_Guard.thy ===== *)
theory Ip_Guard
  imports Prelude "HOL-Library.Word"
begin

text \<open>
  IP addresses as the endpoint guard meets them (\<open>infrastructure/http/endpoint_guard.rs\<close>): the textual
  test \<open>host.parse::<IpAddr>().is_ok()\<close> of the standard library, and the public-range test on the
  addresses a name resolves to.
\<close>

unbundle bit_operations_syntax

subsection \<open>Textual addresses: the standard library's parser\<close>

definition digit_value :: "nat \<Rightarrow> char \<Rightarrow> nat option" where
  "digit_value radix c =
    (let b = byte c;
         v = (if 48 \<le> b \<and> b \<le> 57 then Some (b - 48)
              else if 97 \<le> b \<and> b \<le> 122 then Some (b - 97 + 10)
              else if 65 \<le> b \<and> b \<le> 90 then Some (b - 65 + 10)
              else None)
     in case v of None \<Rightarrow> None | Some d \<Rightarrow> if d < radix then Some d else None)"

text \<open>
  \<open>read_number\<close>: all the digits that follow; refused when there are none, too many, a forbidden
  leading zero, or a value above the type's maximum.
\<close>

definition read_number :: "nat \<Rightarrow> nat \<Rightarrow> bool \<Rightarrow> nat \<Rightarrow> string \<Rightarrow> (nat \<times> string) option" where
  "read_number radix max_digits zero_ok max_value s =
    (let ds = takeWhile (\<lambda>c. digit_value radix c \<noteq> None) s;
         n = length ds;
         v = foldl (\<lambda>a c. a * radix + (case digit_value radix c of None \<Rightarrow> 0 | Some d \<Rightarrow> d)) 0 ds
     in if n = 0 \<or> max_digits < n \<or> (\<not> zero_ok \<and> take 1 ds = ''0'' \<and> 1 < n) \<or> max_value < v then None
        else Some (v, drop n s))"

text \<open>\<open>read_separator\<close>: nothing before the first group, the separator before the others.\<close>

definition read_separator :: "char \<Rightarrow> nat \<Rightarrow> string \<Rightarrow> string option" where
  "read_separator sep i s =
    (if i = 0 then Some s else if take 1 s = [sep] then Some (drop 1 s) else None)"

fun read_v4_groups :: "nat \<Rightarrow> nat \<Rightarrow> string \<Rightarrow> string option" where
  "read_v4_groups 0 i s = Some s"
| "read_v4_groups (Suc k) i s =
    (case read_separator CHR ''.'' i s of None \<Rightarrow> None
     | Some s1 \<Rightarrow> (case read_number 10 3 False 255 s1 of None \<Rightarrow> None
        | Some (_, s2) \<Rightarrow> read_v4_groups k (Suc i) s2))"

definition read_ipv4 :: "string \<Rightarrow> string option" where
  "read_ipv4 s = read_v4_groups 4 0 s"

text \<open>
  \<open>read_groups\<close> of the IPv6 parser: groups of four hexadecimal digits, or a trailing embedded IPv4
  address where two groups are left.  The result is the number of groups read, whether the IPv4
  form was used, and the rest of the input.
\<close>

fun read_v6_groups :: "nat \<Rightarrow> nat \<Rightarrow> string \<Rightarrow> nat \<times> bool \<times> string" where
  "read_v6_groups 0 i s = (i, False, s)"
| "read_v6_groups (Suc k) i s =
    (case (if 0 < k
           then (case read_separator CHR '':'' i s of None \<Rightarrow> None | Some s1 \<Rightarrow> read_ipv4 s1)
           else None) of
       Some s2 \<Rightarrow> (i + 2, True, s2)
     | None \<Rightarrow>
         (case (case read_separator CHR '':'' i s of None \<Rightarrow> None
                | Some s1 \<Rightarrow> read_number 16 4 True 65535 s1) of
            Some (_, s2) \<Rightarrow> read_v6_groups k (Suc i) s2
          | None \<Rightarrow> (i, False, s)))"

definition read_ipv6 :: "string \<Rightarrow> string option" where
  "read_ipv6 s =
    (case read_v6_groups 8 0 s of (head, v4, s1) \<Rightarrow>
       if head = 8 then Some s1
       else if v4 then None
       else if take 2 s1 = ''::'' then
         (case read_v6_groups (8 - (head + 1)) 0 (drop 2 s1) of (_, _, s2) \<Rightarrow> Some s2)
       else None)"

definition parses_as_ip :: "string \<Rightarrow> bool" where
  "parses_as_ip s =
    (case read_ipv4 s of
       Some rest \<Rightarrow> rest = []
     | None \<Rightarrow> (case read_ipv6 s of Some rest \<Rightarrow> rest = [] | None \<Rightarrow> False))"

text \<open>
  A textual address holds digits, hexadecimal letters, dots and colons only: a host with any other
  character is no IP literal.
\<close>

definition ip_char :: "char \<Rightarrow> bool" where
  "ip_char c \<longleftrightarrow> digit_value 16 c \<noteq> None \<or> c = CHR ''.'' \<or> c = CHR '':''"

definition eats :: "string \<Rightarrow> string \<Rightarrow> bool" where
  "eats s rest \<longleftrightarrow> (\<exists>front. s = front @ rest \<and> (\<forall>c \<in> set front. ip_char c))"

lemma eats_refl [simp]: "eats s s"
  by (simp add: eats_def)

lemma eats_trans: "eats a b \<Longrightarrow> eats b c \<Longrightarrow> eats a c"
  unfolding eats_def by (metis Un_iff append.assoc set_append)

lemma digit_value_mono: "digit_value 10 c \<noteq> None \<Longrightarrow> digit_value 16 c \<noteq> None"
  by (auto simp: digit_value_def Let_def split: if_splits option.splits)

lemma read_number_rest:
  assumes "read_number r m z v s = Some (n, rest)"
  shows "s = takeWhile (\<lambda>c. digit_value r c \<noteq> None) s @ rest"
proof -
  have "rest = drop (length (takeWhile (\<lambda>c. digit_value r c \<noteq> None) s)) s"
    using assms unfolding read_number_def Let_def by (simp split: if_splits)
  then show ?thesis by (simp add: dropWhile_eq_drop [symmetric])
qed

lemma read_number_eats:
  assumes "read_number r m z v s = Some (n, rest)" and "r = 10 \<or> r = 16"
  shows "eats s rest"
proof -
  let ?ds = "takeWhile (\<lambda>c. digit_value r c \<noteq> None) s"
  have "ip_char c" if "c \<in> set ?ds" for c
    using set_takeWhileD [OF that] assms(2) digit_value_mono by (auto simp: ip_char_def)
  then show ?thesis
    unfolding eats_def using read_number_rest [OF assms(1)] by blast
qed

lemma read_separator_eats:
  "read_separator sep i s = Some rest \<Longrightarrow> ip_char sep \<Longrightarrow> eats s rest"
  by (cases s) (auto simp: read_separator_def eats_def split: if_splits)

lemma separators [simp]: "ip_char CHR ''.''" "ip_char CHR '':''"
  by (simp_all add: ip_char_def)

lemma read_v4_groups_eats: "read_v4_groups k i s = Some rest \<Longrightarrow> eats s rest"
proof (induction k arbitrary: i s)
  case (Suc k)
  then obtain s1 n s2 where "read_separator CHR ''.'' i s = Some s1"
    and num: "read_number 10 3 False 255 s1 = Some (n, s2)"
    and rec: "read_v4_groups k (Suc i) s2 = Some rest"
    by (auto split: option.splits)
  then have "eats s s1" by (simp add: read_separator_eats)
  moreover have "eats s1 s2" using num by (rule read_number_eats) simp
  moreover have "eats s2 rest" using rec by (rule Suc.IH)
  ultimately show ?case by (meson eats_trans)
qed simp

lemma read_v6_groups_eats: "read_v6_groups k i s = (n, b, rest) \<Longrightarrow> eats s rest"
proof (induction k arbitrary: i s)
  case (Suc k)
  let ?v4 = "if 0 < k then (case read_separator CHR '':'' i s of None \<Rightarrow> None | Some s1 \<Rightarrow> read_ipv4 s1)
      else None"
  let ?num = "case read_separator CHR '':'' i s of None \<Rightarrow> None | Some s1 \<Rightarrow> read_number 16 4 True 65535 s1"
  show ?case
  proof (cases ?v4)
    case (Some s2)
    then obtain s1 where "read_separator CHR '':'' i s = Some s1" "read_v4_groups 4 0 s1 = Some s2"
      by (auto simp: read_ipv4_def split: if_splits option.splits)
    moreover have "rest = s2" using Suc.prems Some by simp
    ultimately show ?thesis
      using eats_trans [OF read_separator_eats read_v4_groups_eats] by simp
  next
    case None
    show ?thesis
    proof (cases ?num)
      case None': None
      with None Suc.prems show ?thesis by simp
    next
      case (Some p)
      then obtain s1 m s2 where "read_separator CHR '':'' i s = Some s1"
        and num: "read_number 16 4 True 65535 s1 = Some (m, s2)" and p: "p = (m, s2)"
        by (cases p) (auto split: option.splits)
      then have "eats s s1" by (simp add: read_separator_eats)
      moreover have "eats s1 s2" using num by (rule read_number_eats) simp
      moreover have "read_v6_groups k (Suc i) s2 = (n, b, rest)"
        using Suc.prems None Some p by simp
      ultimately show ?thesis using Suc.IH by (meson eats_trans)
    qed
  qed
qed simp

lemma read_ipv6_eats:
  assumes "read_ipv6 s = Some rest"
  shows "eats s rest"
proof -
  obtain h b s1 where g: "read_v6_groups 8 0 s = (h, b, s1)" by (metis prod_cases3)
  then have s1: "eats s s1" by (rule read_v6_groups_eats)
  show ?thesis
  proof (cases "h = 8")
    case True
    with assms g s1 show ?thesis by (simp add: read_ipv6_def)
  next
    case False
    with assms g have two: "take 2 s1 = ''::''"
      by (auto simp: read_ipv6_def split: if_splits)
    obtain h' b' s2 where g': "read_v6_groups (8 - (h + 1)) 0 (drop 2 s1) = (h', b', s2)"
      by (metis prod_cases3)
    have "s1 = ''::'' @ drop 2 s1" using two by (metis append_take_drop_id)
    then have "eats s1 (drop 2 s1)" unfolding eats_def by (metis list.set(1,2) insertE empty_iff separators(2))
    moreover have "eats (drop 2 s1) s2" using g' by (rule read_v6_groups_eats)
    moreover have "rest = s2" using assms g g' False two by (auto simp: read_ipv6_def split: if_splits)
    ultimately show ?thesis using s1 eats_trans by blast
  qed
qed

lemma parses_as_ip_chars: "parses_as_ip s \<Longrightarrow> c \<in> set s \<Longrightarrow> ip_char c"
  by (auto simp: parses_as_ip_def read_ipv4_def eats_def split: option.splits
      dest!: read_v4_groups_eats read_ipv6_eats)

subsection \<open>Resolved addresses: the public-range test\<close>

datatype ip_addr = V4 "32 word" | V6 "128 word"

definition octet :: "nat \<Rightarrow> 32 word \<Rightarrow> 8 word" where
  "octet n ip = ucast (drop_bit (8 * (3 - n)) ip)"

definition segment :: "nat \<Rightarrow> 128 word \<Rightarrow> 16 word" where
  "segment n ip = ucast (drop_bit (16 * (7 - n)) ip)"

definition ipv4_is_public :: "32 word \<Rightarrow> bool" where
  "ipv4_is_public ip \<longleftrightarrow>
    (let o0 = octet 0 ip; o1 = octet 1 ip in
     \<not> (o0 = 127
        \<or> (o0 = 10 \<or> (o0 = 172 \<and> 16 \<le> o1 \<and> o1 \<le> 31) \<or> (o0 = 192 \<and> o1 = 168))
        \<or> (o0 = 169 \<and> o1 = 254)
        \<or> ip = 0
        \<or> (224 \<le> o0 \<and> o0 \<le> 239)
        \<or> ip = 0xFFFFFFFF
        \<or> (o0 = 100 \<and> (o1 AND 0xC0) = 0x40)))"

definition ipv6_is_public :: "128 word \<Rightarrow> bool" where
  "ipv6_is_public ip \<longleftrightarrow>
    (let s0 = segment 0 ip in
     \<not> (ip = 1
        \<or> ip = 0
        \<or> (s0 AND 0xFF00) = 0xFF00
        \<or> (s0 AND 0xFFC0) = 0xFE80
        \<or> (s0 AND 0xFE00) = 0xFC00))"

text \<open>\<open>Ipv6Addr::to_ipv4_mapped\<close>: the addresses \<open>::ffff:a.b.c.d\<close>.\<close>

definition to_ipv4_mapped :: "128 word \<Rightarrow> 32 word option" where
  "to_ipv4_mapped ip = (if drop_bit 32 ip = 0xFFFF then Some (ucast ip) else None)"

definition ip_is_public :: "ip_addr \<Rightarrow> bool" where
  "ip_is_public ip =
    (case ip of
       V4 v4 \<Rightarrow> ipv4_is_public v4
     | V6 v6 \<Rightarrow> (case to_ipv4_mapped v6 of
          Some mapped \<Rightarrow> ipv4_is_public mapped
        | None \<Rightarrow> ipv6_is_public v6))"

text \<open>\<open>Display\<close> of an address: dotted decimal, or segments in hexadecimal with the first longest run of
  at least two zero segments written \<open>::\<close> (IPv4-mapped addresses keep the dotted form).\<close>

definition show_ipv4 :: "32 word \<Rightarrow> string" where
  "show_ipv4 ip = concat (map (\<lambda>n. (if n = 0 then [] else ''.'') @ show_nat (unat (octet n ip))) [0..<4])"

definition show_segments :: "16 word list \<Rightarrow> string" where
  "show_segments xs =
    concat (map (\<lambda>(i, x). (if i = 0 then [] else '':'') @ show_radix 16 (unat x)) (enumerate 0 xs))"

fun zero_run :: "16 word list \<Rightarrow> nat" where
  "zero_run [] = 0"
| "zero_run (x # xs) = (if x = 0 then Suc (zero_run xs) else 0)"

definition longest_run :: "16 word list \<Rightarrow> nat \<times> nat" where
  "longest_run xs = foldl (\<lambda>best i. let n = zero_run (drop i xs) in if snd best < n then (i, n) else best)
    (0, 0) [0..<length xs]"

definition show_ipv6 :: "128 word \<Rightarrow> string" where
  "show_ipv6 ip =
    (case to_ipv4_mapped ip of
       Some v4 \<Rightarrow> ''::ffff:'' @ show_ipv4 v4
     | None \<Rightarrow>
         let xs = map (\<lambda>n. segment n ip) [0..<8]; (i, n) = longest_run xs
         in if 1 < n then show_segments (take i xs) @ ''::'' @ show_segments (drop (i + n) xs)
            else show_segments xs)"

definition show_ip :: "ip_addr \<Rightarrow> string" where
  "show_ip ip = (case ip of V4 v \<Rightarrow> show_ipv4 v | V6 v \<Rightarrow> show_ipv6 v)"

text \<open>The same ranges as CIDR blocks: the specification the masks implement.\<close>

definition in_cidr4 :: "nat \<times> nat \<Rightarrow> 32 word \<Rightarrow> bool" where
  "in_cidr4 b ip \<longleftrightarrow> unat ip div 2 ^ (32 - snd b) = fst b"

definition in_cidr6 :: "nat \<times> nat \<Rightarrow> 128 word \<Rightarrow> bool" where
  "in_cidr6 b ip \<longleftrightarrow> unat ip div 2 ^ (128 - snd b) = fst b"

definition forbidden4 :: "(nat \<times> nat) list" where
  "forbidden4 = [(127, 8), (10, 8), (172 * 16 + 1, 12), (192 * 256 + 168, 16), (169 * 256 + 254, 16),
     (0, 32), (14, 4), (2 ^ 32 - 1, 32), (100 * 4 + 1, 10)]"

definition forbidden6 :: "(nat \<times> nat) list" where
  "forbidden6 = [(1, 128), (0, 128), (0xFF, 8), (0xFE80 div 64, 10), (0xFC00 div 512, 7)]"

definition blocked :: "ip_addr \<Rightarrow> bool" where
  "blocked ip =
    (case ip of
       V4 v \<Rightarrow> list_ex (\<lambda>b. in_cidr4 b v) forbidden4
     | V6 v \<Rightarrow> if in_cidr6 (0xFFFF, 96) v then list_ex (\<lambda>b. in_cidr4 b (ucast v)) forbidden4
               else list_ex (\<lambda>b. in_cidr6 b v) forbidden6)"

subsection \<open>The masks implement the ranges\<close>

lemma and_high_mask:
  fixes x :: "'a::len word"
  shows "(x AND NOT (mask k) = push_bit k (drop_bit k c)) = (drop_bit k x = drop_bit k c)"
proof
  have "x AND NOT (mask k) = push_bit k (drop_bit k x)"
    by (rule bit_word_eqI) (auto simp: bit_simps)
  then show "drop_bit k x = drop_bit k c \<Longrightarrow> x AND NOT (mask k) = push_bit k (drop_bit k c)" by simp
next
  assume a: "x AND NOT (mask k) = push_bit k (drop_bit k c)"
  show "drop_bit k x = drop_bit k c"
  proof (rule bit_word_eqI)
    fix n assume "n < LENGTH('a)"
    show "bit (drop_bit k x) n = bit (drop_bit k c) n"
    proof (cases "k + n < LENGTH('a)")
      case True
      then have "bit (x AND NOT (mask k)) (k + n) = bit (push_bit k (drop_bit k c)) (k + n)" using a by simp
      with True show ?thesis by (simp add: bit_simps)
    next
      case False
      then show ?thesis by (auto simp: bit_simps dest: bit_imp_le_length)
    qed
  qed
qed

lemma unat_drop_bit: "unat (drop_bit k x) = unat x div 2 ^ k" for x :: "'a::len word"
  by (simp only: unat_drop_bit_eq) (simp only: drop_bit_eq_div)

lemma high_mask_div:
  fixes x :: "'a::len word"
  assumes "m = NOT (mask k)" and "c = push_bit k (drop_bit k c)"
  shows "(x AND m = c) = (unat x div 2 ^ k = unat c div 2 ^ k)"
proof -
  have "(x AND m = c) = (x AND NOT (mask k) = push_bit k (drop_bit k c))"
    using assms by metis
  also have "\<dots> = (unat (drop_bit k x) = unat (drop_bit k c))"
    unfolding and_high_mask by (rule word_unat_eq_iff)
  finally show ?thesis unfolding unat_drop_bit .
qed

lemma high_masks:
  fixes a :: "8 word" and b :: "16 word"
  shows "(a AND 0xC0 = 0x40) = (unat a div 64 = 1)"
    and "(b AND 0xFF00 = 0xFF00) = (unat b div 256 = 0xFF)"
    and "(b AND 0xFFC0 = 0xFE80) = (unat b div 64 = 0xFE80 div 64)"
    and "(b AND 0xFE00 = 0xFC00) = (unat b div 512 = 0xFC00 div 512)"
  using high_mask_div [of "0xC0 :: 8 word" 6 "0x40" a] high_mask_div [of "0xFF00 :: 16 word" 8 "0xFF00" b]
    high_mask_div [of "0xFFC0 :: 16 word" 6 "0xFE80" b] high_mask_div [of "0xFE00 :: 16 word" 9 "0xFC00" b]
  by (simp_all add: mask_eq_exp_minus_1 drop_bit_eq_div push_bit_eq_mult)

text \<open>A value of two digits in base \<open>k\<close>, the lower one cut to its block of size \<open>m\<close>.\<close>

lemma block_div:
  fixes h :: nat
  assumes "b < k"
  shows "(h div (m * k) = a \<and> (h mod (m * k)) div m = b) = (h div m = a * k + b)"
proof (cases "m = 0")
  case True
  with assms show ?thesis by auto
next
  case False
  then have "(h mod (m * k)) div m = (h div m) mod k" by (simp add: mod_mult2_eq)
  moreover have "(g div k = a \<and> g mod k = b) = (g = a * k + b)" for g
    using assms by (metis div_mult_mod_eq div_mult_self3 mod_mult_self3 div_less mod_less add.right_neutral
        add.commute not_less_zero)
  ultimately show ?thesis by (simp add: div_mult2_eq)
qed

lemma octet_unat:
  "unat (octet 0 ip) = unat ip div 2 ^ 24"
  "unat (octet 1 ip) = unat ip div 2 ^ 16 mod 256"
proof -
  have "unat ip div 2 ^ 24 < 256" using unsigned_less [of ip, where ?'a = nat] by (simp add: less_mult_imp_div_less)
  then show "unat (octet 0 ip) = unat ip div 2 ^ 24"
    by (simp add: octet_def unsigned_ucast_eq unat_drop_bit take_bit_nat_def)
  show "unat (octet 1 ip) = unat ip div 2 ^ 16 mod 256"
    by (simp add: octet_def unsigned_ucast_eq unat_drop_bit take_bit_nat_def)
qed

lemma segment_unat: "unat (segment 0 ip) = unat ip div 2 ^ 112"
proof -
  have "unat ip div 2 ^ 112 < 65536" using unsigned_less [of ip, where ?'a = nat] by (simp add: less_mult_imp_div_less)
  then show ?thesis
    by (simp add: segment_def unsigned_ucast_eq unat_drop_bit take_bit_nat_def)
qed

lemma ipv4_is_public_cidr: "ipv4_is_public ip \<longleftrightarrow> (\<not> list_ex (\<lambda>b. in_cidr4 b ip) forbidden4)"
proof -
  let ?h = "unat ip div 2 ^ 16"
  have o0: "unat (octet 0 ip) = ?h div 256" and o1: "unat (octet 1 ip) = ?h mod 256"
    unfolding octet_unat by (simp_all add: div_mult2_eq [symmetric])
  have d: "unat ip div 2 ^ 20 = ?h div 16" "unat ip div 2 ^ 22 = ?h div 64"
    "unat ip div 2 ^ 28 = ?h div 256 div 16" "unat ip div 2 ^ 24 = ?h div 256"
    by (simp_all add: div_mult2_eq [symmetric])
  have "(octet 0 ip = 172 \<and> 16 \<le> octet 1 ip \<and> octet 1 ip \<le> 31) = (unat ip div 2 ^ 20 = 172 * 16 + 1)"
  proof -
    have "(16 \<le> r \<and> r \<le> 31) = (r div 16 = 1)" for r :: nat by auto
    then show ?thesis
      unfolding word_unat_eq_iff word_le_nat_alt o0 o1 d using block_div [of 1 16 ?h 16 172] by simp
  qed
  moreover have "(octet 0 ip = 192 \<and> octet 1 ip = 168) = (unat ip div 2 ^ 16 = 192 * 256 + 168)"
    unfolding word_unat_eq_iff o0 o1 using block_div [of 168 256 ?h 1 192] by simp
  moreover have "(octet 0 ip = 169 \<and> octet 1 ip = 254) = (unat ip div 2 ^ 16 = 169 * 256 + 254)"
    unfolding word_unat_eq_iff o0 o1 using block_div [of 254 256 ?h 1 169] by simp
  moreover have "(octet 0 ip = 100 \<and> (octet 1 ip AND 0xC0) = 0x40) = (unat ip div 2 ^ 22 = 100 * 4 + 1)"
    unfolding word_unat_eq_iff [of "octet 0 ip"] high_masks o0 o1 d
    using block_div [of 1 4 ?h 64 100] by simp
  moreover have "(224 \<le> octet 0 ip \<and> octet 0 ip \<le> 239) = (unat ip div 2 ^ 28 = 14)"
  proof -
    have "(224 \<le> r \<and> r \<le> 239) = (r div 16 = 14)" for r :: nat by auto
    then show ?thesis
      unfolding word_le_nat_alt o0 d by simp
  qed
  moreover have "(octet 0 ip = 127) = (unat ip div 2 ^ 24 = 127)" "(octet 0 ip = 10) = (unat ip div 2 ^ 24 = 10)"
    unfolding word_unat_eq_iff o0 d by simp_all
  moreover have "(ip = 0) = (unat ip = 0)" "(ip = 0xFFFFFFFF) = (unat ip = 2 ^ 32 - 1)"
    unfolding word_unat_eq_iff by simp_all
  ultimately show ?thesis
    unfolding ipv4_is_public_def Let_def forbidden4_def in_cidr4_def by simp
qed

lemma ipv6_is_public_cidr: "ipv6_is_public ip \<longleftrightarrow> (\<not> list_ex (\<lambda>b. in_cidr6 b ip) forbidden6)"
proof -
  let ?n = "unat ip"
  have "((segment 0 ip AND 0xFF00) = 0xFF00) = (?n div 2 ^ 120 = 0xFF)"
    unfolding high_masks segment_unat by (simp add: div_mult2_eq [symmetric])
  moreover have "((segment 0 ip AND 0xFFC0) = 0xFE80) = (?n div 2 ^ 118 = 0xFE80 div 64)"
    unfolding high_masks segment_unat by (simp add: div_mult2_eq [symmetric])
  moreover have "((segment 0 ip AND 0xFE00) = 0xFC00) = (?n div 2 ^ 121 = 0xFC00 div 512)"
    unfolding high_masks segment_unat by (simp add: div_mult2_eq [symmetric])
  moreover have "(ip = 1) = (?n = 1)" "(ip = 0) = (?n = 0)"
    unfolding word_unat_eq_iff by simp_all
  ultimately show ?thesis
    unfolding ipv6_is_public_def Let_def forbidden6_def in_cidr6_def by simp
qed
lemma is_public: "ip_is_public ip \<longleftrightarrow> \<not> blocked ip"
proof (cases ip)
  case (V4 v)
  then show ?thesis by (simp add: ip_is_public_def blocked_def ipv4_is_public_cidr)
next
  case (V6 v)
  have "(drop_bit 32 v = 0xFFFF) = in_cidr6 (0xFFFF, 96) v"
    unfolding word_unat_eq_iff unat_drop_bit in_cidr6_def by simp
  with V6 show ?thesis
    by (simp add: ip_is_public_def blocked_def to_ipv4_mapped_def ipv4_is_public_cidr ipv6_is_public_cidr)
qed

text \<open>
  C33.  An address counts as public exactly when it lies outside every blocked CIDR block (loopback,
  private, link-local, unspecified, multicast, broadcast, CGNAT; their IPv6 counterparts), and an
  IPv4-mapped IPv6 address is judged by the IPv4 address it carries.
\<close>

theorem ip_is_public_iff_unblocked: "ip_is_public ip \<longleftrightarrow> \<not> blocked ip"
  by (rule is_public)

end
