(* ===== verification/Endpoint_Guard.thy ===== *)
theory Endpoint_Guard
  imports Ordered_Map Ip_Guard Outside
begin

text \<open>
  The outbound endpoint guard (\<open>infrastructure/http/endpoint_guard.rs\<close>): the provider registry, the
  rule set every endpoint URL passes, the endpoints a provider resolves to, and the transport that
  re-runs the rules and the address check before each call.
\<close>

named_theorems endpoint_ops \<open>definitions of the guard's operations\<close>

subsection \<open>The provider registry\<close>

definition PROVIDER_GMAIL :: string where "PROVIDER_GMAIL = ''gmail''"
definition PROVIDER_OUTLOOK :: string where "PROVIDER_OUTLOOK = ''outlook''"
definition PROVIDER_GOOGLE_CALENDAR :: string where "PROVIDER_GOOGLE_CALENDAR = ''google_calendar''"
definition PROVIDER_MICROSOFT_CALENDAR :: string where
  "PROVIDER_MICROSOFT_CALENDAR = ''microsoft_calendar''"

lemmas provider_keys = PROVIDER_GMAIL_def PROVIDER_OUTLOOK_def PROVIDER_GOOGLE_CALENDAR_def
  PROVIDER_MICROSOFT_CALENDAR_def

definition GOOGLE_HOSTS :: "string list" where
  "GOOGLE_HOSTS = [''accounts.google.com'', ''oauth2.googleapis.com'',
     ''openidconnect.googleapis.com'', ''www.googleapis.com'']"

definition MICROSOFT_HOSTS :: "string list" where
  "MICROSOFT_HOSTS = [''login.microsoftonline.com'', ''graph.microsoft.com'', ''outlook.office365.com'']"

datatype endpoint_key = Authorize | Token | Userinfo

fun endpoint_key_str :: "endpoint_key \<Rightarrow> string" where
  "endpoint_key_str Authorize = ''authorize''"
| "endpoint_key_str Token = ''token''"
| "endpoint_key_str Userinfo = ''userinfo''"

record provider_adapter =
  pa_provider :: string
  authorize_endpoint :: string
  token_endpoint :: string
  userinfo_endpoint :: string
  default_scopes :: string
  pkce_s256 :: bool
  host_allowlist :: "string list"

definition GMAIL_ADAPTER :: provider_adapter where
  "GMAIL_ADAPTER = \<lparr>pa_provider = PROVIDER_GMAIL,
     authorize_endpoint = ''https://accounts.google.com/o/oauth2/v2/auth'',
     token_endpoint = ''https://oauth2.googleapis.com/token'',
     userinfo_endpoint = ''https://openidconnect.googleapis.com/v1/userinfo'',
     default_scopes = ''https://mail.google.com/ openid https://www.googleapis.com/auth/userinfo.email'',
     pkce_s256 = True, host_allowlist = GOOGLE_HOSTS\<rparr>"

definition GOOGLE_CALENDAR_ADAPTER :: provider_adapter where
  "GOOGLE_CALENDAR_ADAPTER = \<lparr>pa_provider = PROVIDER_GOOGLE_CALENDAR,
     authorize_endpoint = ''https://accounts.google.com/o/oauth2/v2/auth'',
     token_endpoint = ''https://oauth2.googleapis.com/token'',
     userinfo_endpoint = ''https://openidconnect.googleapis.com/v1/userinfo'',
     default_scopes = ''https://www.googleapis.com/auth/calendar openid https://www.googleapis.com/auth/userinfo.email'',
     pkce_s256 = True, host_allowlist = GOOGLE_HOSTS\<rparr>"

definition OUTLOOK_ADAPTER :: provider_adapter where
  "OUTLOOK_ADAPTER = \<lparr>pa_provider = PROVIDER_OUTLOOK,
     authorize_endpoint = ''https://login.microsoftonline.com/common/oauth2/v2.0/authorize'',
     token_endpoint = ''https://login.microsoftonline.com/common/oauth2/v2.0/token'',
     userinfo_endpoint = ''https://graph.microsoft.com/oidc/userinfo'',
     default_scopes = ''https://outlook.office365.com/SMTP.Send https://outlook.office365.com/IMAP.AccessAsUser.All openid email profile'',
     pkce_s256 = True, host_allowlist = MICROSOFT_HOSTS\<rparr>"

definition MICROSOFT_CALENDAR_ADAPTER :: provider_adapter where
  "MICROSOFT_CALENDAR_ADAPTER = \<lparr>pa_provider = PROVIDER_MICROSOFT_CALENDAR,
     authorize_endpoint = ''https://login.microsoftonline.com/common/oauth2/v2.0/authorize'',
     token_endpoint = ''https://login.microsoftonline.com/common/oauth2/v2.0/token'',
     userinfo_endpoint = ''https://graph.microsoft.com/oidc/userinfo'',
     default_scopes = ''https://graph.microsoft.com/Calendars.ReadWrite openid email profile'',
     pkce_s256 = True, host_allowlist = MICROSOFT_HOSTS\<rparr>"

type_synonym registry = "provider_adapter btree"

definition registry_new :: registry where
  [endpoint_ops]: "registry_new = []"

definition registry_with_builtin :: registry where
  [endpoint_ops]: "registry_with_builtin =
    fold (\<lambda>adapter r. btree_insert (pa_provider adapter) adapter r)
      [GMAIL_ADAPTER, OUTLOOK_ADAPTER, GOOGLE_CALENDAR_ADAPTER, MICROSOFT_CALENDAR_ADAPTER] registry_new"

definition registry_register :: "registry \<Rightarrow> provider_adapter \<Rightarrow> registry" where
  [endpoint_ops]: "registry_register r adapter = btree_insert (pa_provider adapter) adapter r"

definition registry_lookup :: "registry \<Rightarrow> string \<Rightarrow> provider_adapter option" where
  [endpoint_ops]: "registry_lookup r provider = btree_get r provider"

definition registry_providers :: "registry \<Rightarrow> string list" where
  [endpoint_ops]: "registry_providers r = btree_keys r"

subsection \<open>Endpoint validation\<close>

record invalid_endpoint =
  ie_provider :: string
  ie_key :: endpoint_key
  ie_url :: string
  ie_reason :: string

record validated_endpoint =
  provider_key :: string
  ve_key :: endpoint_key
  ve_url :: url

definition host_core :: "string \<Rightarrow> string" where
  "host_core host =
    (case strip_prefix ''['' host of
       None \<Rightarrow> host
     | Some h \<Rightarrow> (case strip_suffix '']'' h of None \<Rightarrow> host | Some core \<Rightarrow> core))"

definition host_allowed :: "string list \<Rightarrow> string \<Rightarrow> bool" where
  "host_allowed allowlist host =
    (let host_lc = to_ascii_lowercase host
     in list_ex (\<lambda>entry. let entry = to_ascii_lowercase entry
          in host_lc = entry \<or> ends_with host_lc (''.'' @ entry)) allowlist)"

definition validate_endpoint ::
  "url_lib \<Rightarrow> string \<Rightarrow> endpoint_key \<Rightarrow> string list \<Rightarrow> string \<Rightarrow> (invalid_endpoint, validated_endpoint) res" where
  [endpoint_ops]: "validate_endpoint U provider key allowlist url_str =
    (let reject = (\<lambda>reason. Err \<lparr>ie_provider = provider, ie_key = key, ie_url = url_str, ie_reason = reason\<rparr>)
     in case parse_url U url_str of
       None \<Rightarrow> reject ''not a parseable URL''
     | Some u \<Rightarrow>
         if scheme u \<noteq> ''https'' then reject ''scheme must be https''
         else case host_str u of
           None \<Rightarrow> reject ''URL carries no host''
         | Some host \<Rightarrow>
             if host = [] then reject ''URL carries no host''
             else if username u \<noteq> [] \<or> password u \<noteq> None then reject ''userinfo component forbidden''
             else if parses_as_ip (host_core host) then reject ''IP-literal host forbidden''
             else if \<not> host_allowed allowlist host then reject ''host is not on the provider allowlist''
             else if port u \<noteq> None \<and> port u \<noteq> Some 443 then reject ''only port 443 is permitted''
             else if path u = [] \<or> path u = ''/'' then reject ''endpoint must carry a non-root path''
             else if query u \<noteq> None then reject ''query string forbidden in a configured endpoint''
             else if fragment u \<noteq> None then reject ''fragment forbidden in a configured endpoint''
             else Ok \<lparr>provider_key = provider, ve_key = key, ve_url = u\<rparr>)"

definition adapter_validate ::
  "url_lib \<Rightarrow> provider_adapter \<Rightarrow> endpoint_key \<Rightarrow> string \<Rightarrow> (invalid_endpoint, validated_endpoint) res" where
  [endpoint_ops]: "adapter_validate U a key s = validate_endpoint U (pa_provider a) key (host_allowlist a) s"

definition endpoint_host :: "validated_endpoint \<Rightarrow> string" where
  [endpoint_ops]: "endpoint_host e = (case host_str (ve_url e) of None \<Rightarrow> [] | Some h \<Rightarrow> h)"

definition endpoint_as_str :: "url_lib \<Rightarrow> validated_endpoint \<Rightarrow> string" where
  [endpoint_ops]: "endpoint_as_str U e = url_as_str U (ve_url e)"

definition revalidate :: "url_lib \<Rightarrow> registry \<Rightarrow> validated_endpoint \<Rightarrow> (invalid_endpoint, unit) res" where
  [endpoint_ops]: "revalidate U r e =
    (case registry_lookup r (provider_key e) of
       None \<Rightarrow> Err \<lparr>ie_provider = provider_key e, ie_key = ve_key e, ie_url = url_as_str U (ve_url e),
                    ie_reason = ''provider is not registered''\<rparr>
     | Some a \<Rightarrow> and_then (validate_endpoint U (pa_provider a) (ve_key e) (host_allowlist a)
                            (url_as_str U (ve_url e))) (\<lambda>_. Ok ()))"

record endpoint_override =
  ov_authorize :: "string option"
  ov_token :: "string option"
  ov_userinfo :: "string option"

type_synonym endpoint_overrides = "endpoint_override btree"

definition overrides_get :: "endpoint_overrides \<Rightarrow> string \<Rightarrow> endpoint_override" where
  [endpoint_ops]: "overrides_get ov provider =
    (case btree_get ov provider of
       None \<Rightarrow> \<lparr>ov_authorize = None, ov_token = None, ov_userinfo = None\<rparr> | Some o' \<Rightarrow> o')"

record validated_endpoints =
  ep_authorize :: validated_endpoint
  ep_token :: validated_endpoint
  ep_userinfo :: validated_endpoint

definition pick_endpoint ::
  "url_lib \<Rightarrow> provider_adapter \<Rightarrow> endpoint_key \<Rightarrow> string \<Rightarrow> string option \<Rightarrow> (invalid_endpoint, validated_endpoint) res" where
  [endpoint_ops]: "pick_endpoint U a key registry_value override_value =
    (case override_value of
       Some s \<Rightarrow> adapter_validate U a key s
     | None \<Rightarrow> adapter_validate U a key registry_value)"

definition resolve_endpoints ::
  "url_lib \<Rightarrow> registry \<Rightarrow> string \<Rightarrow> endpoint_overrides \<Rightarrow> (invalid_endpoint, validated_endpoints) res" where
  [endpoint_ops]: "resolve_endpoints U r provider overrides =
    and_then (ok_or \<lparr>ie_provider = provider, ie_key = Token, ie_url = [],
                     ie_reason = ''provider is not registered''\<rparr> (registry_lookup r provider)) (\<lambda>a.
    let entry = overrides_get overrides provider in
    and_then (pick_endpoint U a Authorize (authorize_endpoint a) (ov_authorize entry)) (\<lambda>au.
    and_then (pick_endpoint U a Token (token_endpoint a) (ov_token entry)) (\<lambda>tk.
    and_then (pick_endpoint U a Userinfo (userinfo_endpoint a) (ov_userinfo entry)) (\<lambda>ui.
    Ok \<lparr>ep_authorize = au, ep_token = tk, ep_userinfo = ui\<rparr>))))"

subsection \<open>Client configuration, forms and responses\<close>

record client_config =
  client_id :: string
  client_secret :: "string option"

type_synonym client_configs = "client_config btree"

definition clients_get :: "client_configs \<Rightarrow> string \<Rightarrow> client_config option" where
  [endpoint_ops]: "clients_get cs provider = btree_get cs provider"

record token_request_form =
  tf_grant_type :: string
  tf_code :: "string option"
  tf_refresh_token :: "string option"
  tf_redirect_uri :: "string option"
  tf_code_verifier :: "string option"
  tf_client_id :: string
  tf_client_secret :: "string option"
  tf_scope :: "string option"

record token_response =
  access_token :: string
  refresh_token :: "string option"
  expires_in :: "int option"
  scope :: "string option"
  id_token :: "string option"
  token_type :: "string option"

definition REDACTED :: string where "REDACTED = ''[REDACTED]''"

definition redacted :: "string option \<Rightarrow> string option" where
  "redacted x = map_option (\<lambda>_. REDACTED) x"

text \<open>The \<open>Debug\<close> output: the fields it prints, in order.\<close>

definition form_debug :: "token_request_form \<Rightarrow> (string \<times> string option) list" where
  "form_debug f =
    [(''grant_type'', Some (tf_grant_type f)), (''code'', redacted (tf_code f)),
     (''refresh_token'', redacted (tf_refresh_token f)), (''redirect_uri'', tf_redirect_uri f),
     (''code_verifier'', redacted (tf_code_verifier f)), (''client_id'', Some (tf_client_id f)),
     (''client_secret'', redacted (tf_client_secret f)), (''scope'', tf_scope f)]"

definition response_debug :: "token_response \<Rightarrow> (string \<times> string option) list" where
  "response_debug r =
    [(''access_token'', Some REDACTED), (''refresh_token'', redacted (refresh_token r)),
     (''expires_in'', map_option show_int (expires_in r)), (''scope'', scope r),
     (''id_token'', redacted (id_token r)), (''token_type'', token_type r)]"

text \<open>
  \<open>TokenResponse::expires_at\<close>: no expiry for a missing or non-positive \<open>expires_in\<close>; the instant
  arithmetic panics when it leaves its range.
\<close>

definition expires_at :: "chrono \<Rightarrow> token_response \<Rightarrow> datetime \<Rightarrow> ('e, datetime option) res" where
  [endpoint_ops]: "expires_at C r now =
    (case expires_in r of
       None \<Rightarrow> Ok None
     | Some secs \<Rightarrow>
         if 0 < secs then
           and_then (unwrap_time (duration_seconds C secs)) (\<lambda>d.
           and_then (unwrap_time (plus_duration C now d)) (\<lambda>t. Ok (Some t)))
         else Ok None)"

text \<open>A lifetime beyond the range of a duration, or of the calendar, is a panic and not an unstoreable response.\<close>

lemma huge_lifetime_panics:
  assumes "expires_in r = Some secs" and "0 < secs"
    and "\<And>d. duration_seconds C secs = Some d \<Longrightarrow> plus_duration C now d = None"
  shows "expires_at C r now = Panic"
  using assms by (cases "duration_seconds C secs") (simp_all add: expires_at_def unwrap_time_def)

record identity_claims =
  id_sub :: "string option"
  id_email :: "string option"
  id_email_verified :: "bool option"
  id_audience :: "string option"
  id_nonce :: "string option"

datatype transport_failure_kind = InvalidGrant | Provider | Network | EndpointGuard

fun transport_failure_kind_str :: "transport_failure_kind \<Rightarrow> string" where
  "transport_failure_kind_str InvalidGrant = ''invalid_grant''"
| "transport_failure_kind_str Provider = ''provider refused''"
| "transport_failure_kind_str Network = ''network failure''"
| "transport_failure_kind_str EndpointGuard = ''endpoint guard refusal''"

record transport_failure =
  tf_kind :: transport_failure_kind
  tf_message :: msg

definition transport_failure_new :: "transport_failure_kind \<Rightarrow> msg \<Rightarrow> transport_failure" where
  [endpoint_ops]: "transport_failure_new k m = \<lparr>tf_kind = k, tf_message = m\<rparr>"

definition is_invalid_grant :: "transport_failure \<Rightarrow> bool" where
  [endpoint_ops]: "is_invalid_grant f \<longleftrightarrow> tf_kind f = InvalidGrant"

subsection \<open>The transport\<close>

text \<open>
  What the reqwest transport uses of the network: resolving a name, the two requests (the client is
  built with redirects off, so a response is what the named URL answered), and serde's decoders for
  the two response bodies.  Each call runs in some world \<open>'w\<close>; an \<open>Err\<close> carries the error's text.
\<close>

record http_response =
  resp_status :: nat
  resp_status_text :: string
  resp_body :: "(string, string) res"

record 'w net =
  lookup_host :: "string \<Rightarrow> nat \<Rightarrow> 'w \<Rightarrow> (string, ip_addr list) res \<times> 'w"
  send_post :: "url \<Rightarrow> token_request_form \<Rightarrow> 'w \<Rightarrow> (string, http_response) res \<times> 'w"
  send_get :: "url \<Rightarrow> string \<Rightarrow> 'w \<Rightarrow> (string, http_response) res \<times> 'w"
  decode_token :: "string \<Rightarrow> (string, token_response) res"
  decode_identity :: "string \<Rightarrow> (string, identity_claims) res"

definition guard_failure :: "msg \<Rightarrow> transport_failure" where
  [endpoint_ops]: "guard_failure m = transport_failure_new EndpointGuard m"

definition assert_public_resolution ::
  "'w net \<Rightarrow> string \<Rightarrow> 'w \<Rightarrow> (transport_failure, ip_addr list) res \<times> 'w" where
  [endpoint_ops]: "assert_public_resolution N host w =
    attempt (on_err (\<lambda>e. guard_failure (''resolving {host}: {e}'', [host, e])) (lookup_host N host 443 w))
      (\<lambda>resolved w.
        if resolved = [] then
          (Err (guard_failure (''resolving {host}: no addresses'', [host])), w)
        else (case find (\<lambda>ip. \<not> ip_is_public ip) resolved of
            Some ip \<Rightarrow>
              (Err (guard_failure (''{host} resolves to forbidden address {ip}'', [host, show_ip ip])), w)
          | None \<Rightarrow> (Ok resolved, w)))"

definition show_invalid_endpoint :: "invalid_endpoint \<Rightarrow> string list" where
  "show_invalid_endpoint e = [endpoint_key_str (ie_key e), ie_provider e, ie_url e, ie_reason e]"

definition transport_guard ::
  "url_lib \<Rightarrow> 'w net \<Rightarrow> registry \<Rightarrow> validated_endpoint \<Rightarrow> 'w \<Rightarrow> (transport_failure, unit) res \<times> 'w" where
  [endpoint_ops]: "transport_guard U N r e w =
    attempt (map_err (\<lambda>ie. guard_failure (''request-time revalidation refused {e}'', show_invalid_endpoint ie))
               (revalidate U r e), w)
      (\<lambda>_ w. attempt (assert_public_resolution N (endpoint_host e) w) (\<lambda>_ w. (Ok (), w)))"

definition is_success :: "http_response \<Rightarrow> bool" where
  [endpoint_ops]: "is_success resp \<longleftrightarrow> 200 \<le> resp_status resp \<and> resp_status resp < 300"

text \<open>\<open>text().await.unwrap_or_default()\<close>, and \<open>json().await\<close>: reading the body may fail.\<close>

definition body_or_default :: "http_response \<Rightarrow> string" where
  [endpoint_ops]: "body_or_default resp = (case resp_body resp of Ok b \<Rightarrow> b | _ \<Rightarrow> [])"

definition error_code :: "codec \<Rightarrow> string \<Rightarrow> string option" where
  [endpoint_ops]: "error_code K body =
    Option.bind (parse_json K body) (\<lambda>v. Option.bind (json_get v ''error'') json_as_str)"

text \<open>The first \<open>n\<close> characters: a UTF-8 continuation byte belongs to the character before it.\<close>

fun take_chars :: "nat \<Rightarrow> string \<Rightarrow> string" where
  "take_chars n [] = []"
| "take_chars n (c # cs) =
    (if 0x80 \<le> byte c \<and> byte c < 0xC0 then c # take_chars n cs
     else case n of 0 \<Rightarrow> [] | Suc m \<Rightarrow> c # take_chars m cs)"

definition token_of_response ::
  "codec \<Rightarrow> 'w net \<Rightarrow> http_response \<Rightarrow> (transport_failure, token_response) res" where
  [endpoint_ops]: "token_of_response K N resp =
    (if is_success resp then
       and_then (map_err (\<lambda>e. transport_failure_new Provider
                   (''token response was not valid provider JSON: {e}'', [e]))
                 (and_then (resp_body resp) (decode_token N))) (\<lambda>token.
       if trim (access_token token) = [] then
         Err (transport_failure_new Provider (''token response carries no access_token'', []))
       else Ok token)
     else
       (let body = body_or_default resp; code = error_code K body
        in if resp_status resp = 400 \<and> code = Some ''invalid_grant'' then
             Err (transport_failure_new InvalidGrant (''provider rejected the grant: invalid_grant'', []))
           else Err (transport_failure_new Provider (''provider answered {status}: {}'',
             [resp_status_text resp, case code of Some c \<Rightarrow> c | None \<Rightarrow> take_chars 200 body]))))"

definition transport_exchange ::
  "url_lib \<Rightarrow> codec \<Rightarrow> 'w net \<Rightarrow> registry \<Rightarrow> validated_endpoint \<Rightarrow> token_request_form \<Rightarrow> 'w
    \<Rightarrow> (transport_failure, token_response) res \<times> 'w" where
  [endpoint_ops]: "transport_exchange U K N r e form w =
    attempt (transport_guard U N r e w) (\<lambda>_ w.
    attempt (on_err (\<lambda>e. transport_failure_new Network (''{e}'', [e])) (send_post N (ve_url e) form w))
      (\<lambda>resp w. (token_of_response K N resp, w)))"

definition identity_of_response :: "'w net \<Rightarrow> http_response \<Rightarrow> (transport_failure, identity_claims) res" where
  [endpoint_ops]: "identity_of_response N resp =
    (if is_success resp then
       map_err (\<lambda>e. transport_failure_new Provider (''identity response was not valid provider JSON: {e}'', [e]))
         (and_then (resp_body resp) (decode_identity N))
     else Err (transport_failure_new Provider (''provider answered {status}: {}'',
            [resp_status_text resp, take_chars 200 (body_or_default resp)])))"

definition transport_fetch_identity ::
  "url_lib \<Rightarrow> 'w net \<Rightarrow> registry \<Rightarrow> validated_endpoint \<Rightarrow> string \<Rightarrow> 'w
    \<Rightarrow> (transport_failure, identity_claims) res \<times> 'w" where
  [endpoint_ops]: "transport_fetch_identity U N r e bearer w =
    attempt (transport_guard U N r e w) (\<lambda>_ w.
    attempt (on_err (\<lambda>e. transport_failure_new Network (''{e}'', [e])) (send_get N (ve_url e) bearer w))
      (\<lambda>resp w. (identity_of_response N resp, w)))"

subsection \<open>What the rule set accepts\<close>

text \<open>
  The rules as one predicate.  A host belongs to an allowlist entry when the entry's labels are the
  last labels of the host, whatever the case of their letters: the entry itself or a subdomain.
\<close>

definition labels :: "string \<Rightarrow> string list" where
  "labels host = split_on CHR ''.'' (to_ascii_lowercase host)"

definition endpoint_url_ok :: "string list \<Rightarrow> url \<Rightarrow> bool" where
  "endpoint_url_ok allowlist u \<longleftrightarrow>
     scheme u = ''https'' \<and>
     (case host_str u of None \<Rightarrow> False
      | Some h \<Rightarrow> h \<noteq> [] \<and> \<not> parses_as_ip (host_core h) \<and>
          list_ex (\<lambda>entry. suffix (labels entry) (labels h)) allowlist) \<and>
     username u = [] \<and> password u = None \<and>
     port u \<in> {None, Some 443} \<and> path u \<notin> {[], ''/''} \<and> query u = None \<and> fragment u = None"

lemma host_allowed_labels:
  "host_allowed allowlist h \<longleftrightarrow> list_ex (\<lambda>entry. suffix (labels entry) (labels h)) allowlist"
  by (simp add: host_allowed_def labels_def suffix_split_on ends_with_def Let_def)

lemma validate_endpoint_Ok:
  "validate_endpoint U p k al s = Ok e \<longleftrightarrow>
    (\<exists>u. parse_url U s = Some u \<and> endpoint_url_ok al u \<and> e = \<lparr>provider_key = p, ve_key = k, ve_url = u\<rparr>)"
  by (auto simp: validate_endpoint_def endpoint_url_ok_def host_allowed_labels Let_def
      split: option.splits if_splits)

lemma validate_endpoint_no_panic [simp]: "validate_endpoint U p k al s \<noteq> Panic"
  by (auto simp: validate_endpoint_def Let_def split: option.split)

lemma validate_endpoint_reject:
  "validate_endpoint U p k al s = Err ie \<Longrightarrow> ie_provider ie = p \<and> ie_key ie = k \<and> ie_url ie = s"
  by (auto simp: validate_endpoint_def Let_def split: option.splits if_splits)

lemma revalidate_Ok:
  "revalidate U r e = Ok () \<longleftrightarrow>
    (\<exists>a u. registry_lookup r (provider_key e) = Some a \<and>
       parse_url U (url_as_str U (ve_url e)) = Some u \<and> endpoint_url_ok (host_allowlist a) u)"
  by (auto simp: revalidate_def and_then_eq_Ok validate_endpoint_Ok split: option.splits)

lemma revalidate_no_panic [simp]: "revalidate U r e \<noteq> Panic"
  by (auto simp: revalidate_def split: option.splits and_then_split)

text \<open>A registry files every adapter under its own provider key.\<close>

definition registry_ok :: "registry \<Rightarrow> bool" where
  "registry_ok r \<longleftrightarrow> btree_wf r \<and> (\<forall>p a. registry_lookup r p = Some a \<longrightarrow> pa_provider a = p)"

lemma registry_register_ok: "registry_ok r \<Longrightarrow> registry_ok (registry_register r a)"
  by (auto simp: registry_ok_def registry_register_def registry_lookup_def bt.look_ins bt.wf_ins
      split: if_splits)

lemma registry_new_ok: "registry_ok registry_new"
  by (simp add: registry_ok_def registry_new_def registry_lookup_def bt.wf_empty bt.look_empty)

lemma registry_builtin_ok: "registry_ok registry_with_builtin"
proof -
  have "registry_ok (fold (\<lambda>a r. registry_register r a) as r)" if "registry_ok r" for as r
    using that by (induction as arbitrary: r) (simp_all add: registry_register_ok)
  from this [OF registry_new_ok] show ?thesis
    unfolding registry_with_builtin_def registry_register_def .
qed

lemmas adapter_defs = GMAIL_ADAPTER_def OUTLOOK_ADAPTER_def GOOGLE_CALENDAR_ADAPTER_def
  MICROSOFT_CALENDAR_ADAPTER_def

lemma registry_builtin_ins:
  "registry_with_builtin = bt.ins_all [(''gmail'', GMAIL_ADAPTER), (''outlook'', OUTLOOK_ADAPTER),
    (''google_calendar'', GOOGLE_CALENDAR_ADAPTER), (''microsoft_calendar'', MICROSOFT_CALENDAR_ADAPTER)] []"
  by (simp add: registry_with_builtin_def registry_new_def bt.ins_all_def adapter_defs provider_keys)

lemma registry_builtin_lookup:
  "registry_lookup registry_with_builtin = [''gmail'' \<mapsto> GMAIL_ADAPTER, ''outlook'' \<mapsto> OUTLOOK_ADAPTER,
     ''google_calendar'' \<mapsto> GOOGLE_CALENDAR_ADAPTER, ''microsoft_calendar'' \<mapsto> MICROSOFT_CALENDAR_ADAPTER]"
  by (auto simp: registry_builtin_ins registry_lookup_def bt.look_ins_all [OF bt.wf_empty] bt.look_empty fun_eq_iff map_add_def)

lemma registry_builtin_keys:
  "set (registry_providers registry_with_builtin) = {''gmail'', ''outlook'', ''google_calendar'', ''microsoft_calendar''}"
proof -
  have "btree_wf registry_with_builtin"
    unfolding registry_builtin_ins by (rule bt.wf_ins_all [OF bt.wf_empty])
  from bt.keys_set [OF this] registry_builtin_lookup show ?thesis
    by (auto simp: registry_providers_def registry_lookup_def fun_eq_iff dom_def split: if_splits)
qed

text \<open>
  C6.  The guard accepts a candidate URL exactly when it parses, is \<open>https\<close>, names a host that is no IP
  literal and whose last labels are an allowlist entry, carries no userinfo, query or fragment, no
  port but 443 and a path below the root; the endpoint it returns is that URL, bound to the provider
  and key it was asked for.
\<close>

theorem validate_endpoint_iff:
  "validate_endpoint U p k al s = Ok e \<longleftrightarrow>
    (\<exists>u. parse_url U s = Some u \<and> endpoint_url_ok al u \<and> e = \<lparr>provider_key = p, ve_key = k, ve_url = u\<rparr>)"
  by (rule validate_endpoint_Ok)

text \<open>The URL each endpoint resolves from: the override when one is configured, else the registry value.\<close>

definition chosen :: "string \<Rightarrow> string option \<Rightarrow> string" where
  "chosen registry_value override_value = (case override_value of Some s \<Rightarrow> s | None \<Rightarrow> registry_value)"

lemma pick_endpoint_chosen:
  "pick_endpoint U a k v ov = validate_endpoint U (pa_provider a) k (host_allowlist a) (chosen v ov)"
  by (simp add: pick_endpoint_def adapter_validate_def chosen_def split: option.split)

lemma resolve_endpoints_Ok:
  "resolve_endpoints U r p ov = Ok eps \<longleftrightarrow>
    (\<exists>a au tk ui. registry_lookup r p = Some a \<and>
       parse_url U (chosen (authorize_endpoint a) (ov_authorize (overrides_get ov p))) = Some au \<and>
       parse_url U (chosen (token_endpoint a) (ov_token (overrides_get ov p))) = Some tk \<and>
       parse_url U (chosen (userinfo_endpoint a) (ov_userinfo (overrides_get ov p))) = Some ui \<and>
       endpoint_url_ok (host_allowlist a) au \<and> endpoint_url_ok (host_allowlist a) tk \<and>
       endpoint_url_ok (host_allowlist a) ui \<and>
       eps = \<lparr>ep_authorize = \<lparr>provider_key = pa_provider a, ve_key = Authorize, ve_url = au\<rparr>,
              ep_token = \<lparr>provider_key = pa_provider a, ve_key = Token, ve_url = tk\<rparr>,
              ep_userinfo = \<lparr>provider_key = pa_provider a, ve_key = Userinfo, ve_url = ui\<rparr>\<rparr>)"
  by (auto simp: resolve_endpoints_def and_then_eq_Ok pick_endpoint_chosen validate_endpoint_Ok Let_def)

text \<open>
  C34.  Endpoint resolution fails closed: it succeeds exactly when the provider is registered and all
  three of its URLs (each the configured override, or the registry value without one) pass the rule
  set against that provider's own allowlist.  One bad override yields no endpoints at all.
\<close>

theorem resolve_endpoints_iff:
  "resolve_endpoints U r p ov = Ok eps \<longleftrightarrow>
    (\<exists>a au tk ui. registry_lookup r p = Some a \<and>
       parse_url U (chosen (authorize_endpoint a) (ov_authorize (overrides_get ov p))) = Some au \<and>
       parse_url U (chosen (token_endpoint a) (ov_token (overrides_get ov p))) = Some tk \<and>
       parse_url U (chosen (userinfo_endpoint a) (ov_userinfo (overrides_get ov p))) = Some ui \<and>
       endpoint_url_ok (host_allowlist a) au \<and> endpoint_url_ok (host_allowlist a) tk \<and>
       endpoint_url_ok (host_allowlist a) ui \<and>
       eps = \<lparr>ep_authorize = \<lparr>provider_key = pa_provider a, ve_key = Authorize, ve_url = au\<rparr>,
              ep_token = \<lparr>provider_key = pa_provider a, ve_key = Token, ve_url = tk\<rparr>,
              ep_userinfo = \<lparr>provider_key = pa_provider a, ve_key = Userinfo, ve_url = ui\<rparr>\<rparr>)"
  by (rule resolve_endpoints_Ok)

lemma resolved_revalidate:
  assumes "url_laws U" and "registry_ok r" and "resolve_endpoints U r p ov = Ok eps"
    and "e \<in> {ep_authorize eps, ep_token eps, ep_userinfo eps}"
  shows "revalidate U r e = Ok () \<and> provider_key e = p"
proof -
  from assms(3) obtain a where a: "registry_lookup r p = Some a" "pa_provider a = p"
    using assms(2) by (auto simp: resolve_endpoints_Ok registry_ok_def)
  from assms(3,4) a obtain s u where "parse_url U s = Some u" "endpoint_url_ok (host_allowlist a) u"
    "ve_url e = u" "provider_key e = p"
    by (auto simp: resolve_endpoints_Ok)
  with a url_lawsD [OF assms(1)] show ?thesis
    unfolding revalidate_Ok by metis
qed

text \<open>
  An endpoint that resolution produced passes the request-time check of every transport over the
  same registry: the rules hold again for the stored URL, under the allowlist re-derived from the
  provider key.
\<close>

lemma resolve_revalidates:
  assumes "url_laws U" and "registry_ok r" and "resolve_endpoints U r p ov = Ok eps"
    and "e \<in> {ep_authorize eps, ep_token eps, ep_userinfo eps}"
  shows "revalidate U r e = Ok ()"
  using resolved_revalidate [OF assms] by blast

text \<open>The built-in endpoints resolve under the plain URL library.\<close>

lemma host_core_plain: "take 1 host \<noteq> ''['' \<Longrightarrow> host_core host = host"
  by (cases host) (auto simp: host_core_def strip_prefix_def)

lemma not_ip: "\<not> list_all ip_char host \<Longrightarrow> \<not> parses_as_ip host"
  using parses_as_ip_chars by (auto simp: list_all_iff)

lemma builtin_resolves:
  "p \<in> {''gmail'', ''outlook'', ''google_calendar'', ''microsoft_calendar''} \<Longrightarrow>
    \<exists>eps. resolve_endpoints plain_url_lib registry_with_builtin p [] = Ok eps"
  unfolding resolve_endpoints_Ok registry_builtin_lookup
  by (auto simp: adapter_defs overrides_get_def bt.look_empty chosen_def plain_url_lib_def plain_parse_def
      endpoint_url_ok_def host_core_plain not_ip ip_char_def digit_value_def byte_def Let_def
      labels_def to_ascii_lowercase_def ascii_lower_def GOOGLE_HOSTS_def MICROSOFT_HOSTS_def suffix_def)

lemma resolve_revalidates_demo:
  "\<exists>eps. resolve_endpoints plain_url_lib registry_with_builtin ''outlook'' [] = Ok eps
     \<and> revalidate plain_url_lib registry_with_builtin (ep_token eps) = Ok ()"
proof -
  obtain eps where "resolve_endpoints plain_url_lib registry_with_builtin ''outlook'' [] = Ok eps"
    using builtin_resolves [of "''outlook''"] by auto
  with resolve_revalidates [OF plain_url_laws registry_builtin_ok this, of "ep_token eps"]
  show ?thesis by simp
qed

subsection \<open>What the transport sends\<close>

lemma assert_public_Ok:
  "assert_public_resolution N host w = (Ok ips, w') \<longleftrightarrow>
    lookup_host N host 443 w = (Ok ips, w') \<and> ips \<noteq> [] \<and> list_all (\<lambda>ip. \<not> blocked ip) ips"
  by (cases "lookup_host N host 443 w"; cases "fst (lookup_host N host 443 w)")
    (auto simp: assert_public_resolution_def list_all_iff is_public find_None_iff find_Some_iff split: option.splits)

lemma assert_public_refused:
  assumes "\<nexists>ips. fst (lookup_host N host 443 w) = Ok ips \<and> ips \<noteq> [] \<and> list_all (\<lambda>ip. \<not> blocked ip) ips"
    and "fst (lookup_host N host 443 w) \<noteq> Panic"
  shows "\<exists>m. assert_public_resolution N host w = (Err (guard_failure m), snd (lookup_host N host 443 w))"
  using assms
  by (cases "lookup_host N host 443 w"; cases "fst (lookup_host N host 443 w)")
    (auto simp: assert_public_resolution_def list_all_iff is_public find_None_iff split: option.splits)

text \<open>The rules a transport re-checks, against its own registry.\<close>

definition endpoint_current :: "url_lib \<Rightarrow> registry \<Rightarrow> validated_endpoint \<Rightarrow> bool" where
  "endpoint_current U r e \<longleftrightarrow>
    (case registry_lookup r (provider_key e) of None \<Rightarrow> False
     | Some a \<Rightarrow> (case parse_url U (url_as_str U (ve_url e)) of None \<Rightarrow> False
        | Some u \<Rightarrow> endpoint_url_ok (host_allowlist a) u))"

lemma revalidate_current: "revalidate U r e = Ok () \<longleftrightarrow> endpoint_current U r e"
  by (auto simp: revalidate_Ok endpoint_current_def split: option.splits)

lemma transport_guard_Ok:
  "transport_guard U N r e w = (Ok (), w') \<longleftrightarrow>
    endpoint_current U r e \<and>
    (\<exists>ips. lookup_host N (endpoint_host e) 443 w = (Ok ips, w') \<and> ips \<noteq> [] \<and>
       list_all (\<lambda>ip. \<not> blocked ip) ips)"
  by (cases "revalidate U r e")
    (auto simp: transport_guard_def attempt_eq_Ok assert_public_Ok simp flip: revalidate_current)

lemma transport_guard_stale:
  "\<not> endpoint_current U r e \<Longrightarrow> \<exists>m. transport_guard U N r e w = (Err (guard_failure m), w)"
  by (cases "revalidate U r e") (auto simp: transport_guard_def simp flip: revalidate_current)

lemma transport_guard_refused:
  assumes "endpoint_current U r e" and "fst (lookup_host N (endpoint_host e) 443 w) \<noteq> Panic"
    and "\<nexists>ips. fst (lookup_host N (endpoint_host e) 443 w) = Ok ips \<and> ips \<noteq> []
           \<and> list_all (\<lambda>ip. \<not> blocked ip) ips"
  shows "\<exists>m. transport_guard U N r e w = (Err (guard_failure m), snd (lookup_host N (endpoint_host e) 443 w))"
proof -
  obtain m where "assert_public_resolution N (endpoint_host e) w =
      (Err (guard_failure m), snd (lookup_host N (endpoint_host e) 443 w))"
    using assert_public_refused [OF assms(3,2)] by blast
  then have "transport_guard U N r e w = (Err (guard_failure m), snd (lookup_host N (endpoint_host e) 443 w))"
    using assms(1) by (simp add: transport_guard_def flip: revalidate_current)
  then show ?thesis by blast
qed

lemma token_of_response_Ok:
  "token_of_response K N resp = Ok tok \<longleftrightarrow>
    is_success resp \<and> and_then (resp_body resp) (decode_token N) = Ok tok \<and> trim (access_token tok) \<noteq> []"
  by (cases "and_then (resp_body resp) (decode_token N)")
    (auto simp: token_of_response_def Let_def split: if_splits)

text \<open>
  C32.  A token response is handed to the flow only when the endpoint passed the rules again, its name
  resolved to at least one address and to no blocked one, and the server answered 2xx with a body
  that decodes to that response and carries a non-blank access token.
\<close>

theorem exchange_Ok:
  assumes "transport_exchange U K N r e form w = (Ok tok, w')"
  shows "endpoint_current U r e \<and>
    (\<exists>ips w1 resp. lookup_host N (endpoint_host e) 443 w = (Ok ips, w1) \<and> ips \<noteq> [] \<and>
       list_all (\<lambda>ip. \<not> blocked ip) ips \<and> send_post N (ve_url e) form w1 = (Ok resp, w') \<and>
       is_success resp \<and> and_then (resp_body resp) (decode_token N) = Ok tok \<and>
       trim (access_token tok) \<noteq> [])"
  using assms
  by (auto simp: transport_exchange_def attempt_eq_Ok on_err_eq_Ok transport_guard_Ok token_of_response_Ok)

text \<open>A run: the Outlook token endpoint, a public address, a token response; the world counts the calls.\<close>

definition demo_token :: token_response where
  "demo_token = \<lparr>access_token = ''at'', refresh_token = Some ''rt'', expires_in = Some 3600,
     scope = None, id_token = None, token_type = None\<rparr>"

definition demo_net :: "32 word \<Rightarrow> nat net" where
  "demo_net ip =
    \<lparr>lookup_host = (\<lambda>_ _ w. (Ok [V4 ip], Suc w)),
     send_post = (\<lambda>_ _ w. (Ok \<lparr>resp_status = 200, resp_status_text = ''200 OK'', resp_body = Ok []\<rparr>, Suc w)),
     send_get = (\<lambda>_ _ w. (Err ''down'', Suc w)),
     decode_token = (\<lambda>_. Ok demo_token),
     decode_identity = (\<lambda>_. Err ''none'')\<rparr>"

definition demo_form :: token_request_form where
  "demo_form = \<lparr>tf_grant_type = ''refresh_token'', tf_code = None, tf_refresh_token = Some ''rt'',
     tf_redirect_uri = None, tf_code_verifier = None, tf_client_id = ''id'', tf_client_secret = None,
     tf_scope = None\<rparr>"

definition demo_codec :: codec where
  "demo_codec = \<lparr>parse_json = (\<lambda>_. None), b64_encode = id, b64_decode = Some, sha256 = id,
     hmac_sha256 = (\<lambda>k m. k @ m)\<rparr>"

lemma demo_endpoint_current:
  "\<exists>e. endpoint_current plain_url_lib registry_with_builtin e"
proof -
  obtain eps where "resolve_endpoints plain_url_lib registry_with_builtin ''outlook'' [] = Ok eps"
    using builtin_resolves [of "''outlook''"] by auto
  then have "revalidate plain_url_lib registry_with_builtin (ep_token eps) = Ok ()"
    using plain_url_laws registry_builtin_ok
    by (auto simp: resolve_endpoints_Ok revalidate_Ok registry_ok_def dest: url_lawsD)
  then show ?thesis unfolding revalidate_current by blast
qed

lemma trim_at: "trim ''at'' = ''at''"
  by (rule trim_printable) (simp add: printable_def byte_def)

theorem exchange_Ok_witness:
  "\<exists>e. transport_exchange plain_url_lib demo_codec (demo_net 0x14000001) registry_with_builtin e demo_form 0
       = (Ok demo_token, 2) \<and> endpoint_current plain_url_lib registry_with_builtin e"
proof -
  obtain e where e: "endpoint_current plain_url_lib registry_with_builtin e"
    using demo_endpoint_current by blast
  let ?r = "transport_exchange plain_url_lib demo_codec (demo_net 0x14000001) registry_with_builtin e demo_form 0"
  have "\<not> blocked (V4 0x14000001)"
    by (simp add: blocked_def forbidden4_def in_cidr4_def)
  with e have g: "transport_guard plain_url_lib (demo_net 0x14000001) registry_with_builtin e 0 = (Ok (), 1)"
    by (simp add: transport_guard_Ok demo_net_def)
  have "?r = (Ok demo_token, 2)"
    by (simp add: transport_exchange_def g)
      (simp add: demo_net_def token_of_response_def is_success_def demo_token_def trim_at)
  with exchange_Ok [OF this] show ?thesis by blast
qed

text \<open>
  C9.  The transport fails closed.  A stale or drifted endpoint is refused without a single call, and
  a name that does not resolve, resolves to nothing or to a blocked address is refused after the
  lookup alone: the request is not sent, whatever the network would answer.
\<close>

theorem exchange_fail_closed:
  assumes "fst (lookup_host N (endpoint_host e) 443 w) \<noteq> Panic"
    and "\<not> endpoint_current U r e \<or>
      (\<nexists>ips. fst (lookup_host N (endpoint_host e) 443 w) = Ok ips \<and> ips \<noteq> []
         \<and> list_all (\<lambda>ip. \<not> blocked ip) ips)"
  shows "\<exists>f. transport_exchange U K N r e form w =
      (Err f, if endpoint_current U r e then snd (lookup_host N (endpoint_host e) 443 w) else w)
    \<and> tf_kind f = EndpointGuard"
proof (cases "endpoint_current U r e")
  case True
  then show ?thesis
    using transport_guard_refused [OF True assms(1)] assms(2)
    by (fastforce simp: transport_exchange_def guard_failure_def transport_failure_new_def)
next
  case False
  then show ?thesis
    using transport_guard_stale [OF False, of N w]
    by (auto simp: transport_exchange_def guard_failure_def transport_failure_new_def)
qed

theorem exchange_fail_closed_witness:
  "\<exists>f e. transport_exchange plain_url_lib demo_codec (demo_net 0x7F000001) registry_with_builtin e demo_form 0
       = (Err f, 1) \<and> tf_kind f = EndpointGuard"
proof -
  obtain e where e: "endpoint_current plain_url_lib registry_with_builtin e"
    using demo_endpoint_current by blast
  have "blocked (V4 0x7F000001)"
    by (simp add: blocked_def forbidden4_def in_cidr4_def)
  then show ?thesis
    using exchange_fail_closed [of "demo_net 0x7F000001" e 0 plain_url_lib registry_with_builtin demo_codec
        demo_form] e
    by (auto simp: demo_net_def)
qed

text \<open>
  C35.  A refused exchange is the dead-refresh-token signal exactly when the guarded request was sent
  and the provider answered status 400 with a JSON object whose \<open>error\<close> is the string
  \<open>invalid_grant\<close>: a network failure, a refused endpoint, another status or another body is not one.
\<close>

theorem exchange_invalid_grant_iff:
  "(\<exists>f w'. transport_exchange U K N r e form w = (Err f, w') \<and> is_invalid_grant f) \<longleftrightarrow>
    (\<exists>w1 resp w2 kvs. transport_guard U N r e w = (Ok (), w1) \<and>
       send_post N (ve_url e) form w1 = (Ok resp, w2) \<and> resp_status resp = 400 \<and>
       parse_json K (body_or_default resp) = Some (JObject kvs) \<and>
       map_of kvs ''error'' = Some (JString ''invalid_grant''))"
proof -
  have guard: "tf_kind f = EndpointGuard" if "transport_guard U N r e w = (Err f, w')" for f w'
    using that
    by (cases "revalidate U r e"; cases "lookup_host N (endpoint_host e) 443 w";
        cases "fst (lookup_host N (endpoint_host e) 443 w)")
      (auto simp: transport_guard_def assert_public_resolution_def guard_failure_def
        transport_failure_new_def split: if_splits option.splits)
  have code: "(\<exists>f. token_of_response K N resp = Err f \<and> is_invalid_grant f) \<longleftrightarrow>
      resp_status resp = 400 \<and> error_code K (body_or_default resp) = Some ''invalid_grant''" for resp
    by (cases "and_then (resp_body resp) (decode_token N)")
      (auto simp: token_of_response_def is_success_def is_invalid_grant_def transport_failure_new_def
        Let_def split: if_splits)
  have str: "error_code K b = Some ''invalid_grant'' \<longleftrightarrow>
      (\<exists>kvs. parse_json K b = Some (JObject kvs) \<and> map_of kvs ''error'' = Some (JString ''invalid_grant''))" for b
    by (auto simp: error_code_def bind_eq_Some_conv elim!: json_get.elims json_as_str.elims)
  obtain g w1 where g: "transport_guard U N r e w = (g, w1)" by fastforce
  show ?thesis
  proof (cases g)
    case (Ok u)
    obtain p w2 where p: "send_post N (ve_url e) form w1 = (p, w2)" by fastforce
    show ?thesis
      using code str
      by (cases p) (auto simp: transport_exchange_def g Ok p is_invalid_grant_def transport_failure_new_def)
  next
    case (Err f)
    with guard g have "tf_kind f = EndpointGuard" by auto
    then show ?thesis by (simp add: transport_exchange_def g Err is_invalid_grant_def)
  next
    case Panic
    then show ?thesis by (simp add: transport_exchange_def g)
  qed
qed

end
