(* ===== verification/Oauth_Ports.thy ===== *)
theory Oauth_Ports
  imports World Endpoint_Guard
begin

text \<open>
  The two ports of the OAuth code: the credential store (\<open>application/service/integrations_oauth_ports.rs\<close>)
  and the outbound transport (the trait of \<open>infrastructure/http/endpoint_guard.rs\<close>), as records of
  functions on worlds; the contract the store's documentation states, as a locale; and the in-memory
  store of \<open>tests/common/mod.rs\<close>, which keeps that contract.
\<close>

named_theorems port_ops \<open>definitions of the port types' operations\<close>

subsection \<open>Token bundles and failures\<close>

definition PURPOSE_OAUTH_TOKEN :: string where
  "PURPOSE_OAUTH_TOKEN = ''oauth_token''"

record token_bundle =
  tb_access_token :: string
  tb_refresh_token :: "string option"
  tb_expires_at :: datetime
  tb_scope :: "string option"

definition token_bundle_new :: "string \<Rightarrow> string option \<Rightarrow> datetime \<Rightarrow> string option \<Rightarrow> token_bundle" where
  [port_ops]: "token_bundle_new at rt e sc =
    \<lparr>tb_access_token = at, tb_refresh_token = rt, tb_expires_at = e, tb_scope = sc\<rparr>"

record token_metadata =
  tm_expires_at :: datetime
  tm_scope :: "string option"

definition bundle_metadata :: "token_bundle \<Rightarrow> token_metadata" where
  [port_ops]: "bundle_metadata b = \<lparr>tm_expires_at = tb_expires_at b, tm_scope = tb_scope b\<rparr>"

text \<open>The \<open>Debug\<close> output, field by field; an instant prints through some \<open>show_time\<close>.\<close>

definition bundle_debug :: "(datetime \<Rightarrow> string) \<Rightarrow> token_bundle \<Rightarrow> (string \<times> string option) list" where
  "bundle_debug show_time b =
    [(''access_token'', Some REDACTED), (''refresh_token'', redacted (tb_refresh_token b)),
     (''expires_at'', Some (show_time (tb_expires_at b))), (''scope'', tb_scope b)]"

definition CODE_NOT_FOUND :: string where "CODE_NOT_FOUND = ''not_found''"
definition CODE_NOT_ACTIVE :: string where "CODE_NOT_ACTIVE = ''not_active''"
definition CODE_EXPIRED :: string where "CODE_EXPIRED = ''expired''"
definition CODE_DUPLICATE_ACTIVE :: string where "CODE_DUPLICATE_ACTIVE = ''duplicate_active''"
definition CODE_TRANSPORT :: string where "CODE_TRANSPORT = ''transport''"

lemmas failure_codes = CODE_NOT_FOUND_def CODE_NOT_ACTIVE_def CODE_EXPIRED_def
  CODE_DUPLICATE_ACTIVE_def CODE_TRANSPORT_def

record credential_failure =
  cf_code :: string
  cf_message :: msg

definition failure_not_found :: credential_failure where
  [port_ops]: "failure_not_found =
    \<lparr>cf_code = CODE_NOT_FOUND, cf_message = (''no credential issued for this scope'', [])\<rparr>"

definition failure_not_active :: "string \<Rightarrow> credential_failure" where
  [port_ops]: "failure_not_active status =
    \<lparr>cf_code = CODE_NOT_ACTIVE, cf_message = (''credential is {status} (terminal)'', [status])\<rparr>"

definition failure_expired :: credential_failure where
  [port_ops]: "failure_expired =
    \<lparr>cf_code = CODE_EXPIRED, cf_message = (''credential passed its honest expiry; rotate it'', [])\<rparr>"

definition failure_duplicate_active :: credential_failure where
  [port_ops]: "failure_duplicate_active = \<lparr>cf_code = CODE_DUPLICATE_ACTIVE,
     cf_message = (''an active credential exists; rotate instead of issuing a second'', [])\<rparr>"

definition failure_transport :: "msg \<Rightarrow> credential_failure" where
  [port_ops]: "failure_transport m = \<lparr>cf_code = CODE_TRANSPORT, cf_message = m\<rparr>"

definition is_transport :: "credential_failure \<Rightarrow> bool" where
  [port_ops]: "is_transport f \<longleftrightarrow> cf_code f = CODE_TRANSPORT"

subsection \<open>The port traits\<close>

record 'w store_port =
  st_issue :: "uuid \<Rightarrow> string \<Rightarrow> string \<Rightarrow> string \<Rightarrow> token_bundle \<Rightarrow> datetime \<Rightarrow> 'w
    \<Rightarrow> (credential_failure, uuid) res \<times> 'w"
  st_read_token :: "uuid \<Rightarrow> string \<Rightarrow> string \<Rightarrow> 'w \<Rightarrow> (credential_failure, token_bundle) res \<times> 'w"
  st_rotate :: "uuid \<Rightarrow> string \<Rightarrow> string \<Rightarrow> token_bundle \<Rightarrow> datetime \<Rightarrow> 'w
    \<Rightarrow> (credential_failure, uuid) res \<times> 'w"
  st_revoke :: "uuid \<Rightarrow> string \<Rightarrow> string \<Rightarrow> 'w \<Rightarrow> (credential_failure, unit) res \<times> 'w"

record 'w transport_port =
  tp_exchange :: "validated_endpoint \<Rightarrow> token_request_form \<Rightarrow> 'w \<Rightarrow> (transport_failure, token_response) res \<times> 'w"
  tp_fetch_identity :: "validated_endpoint \<Rightarrow> string \<Rightarrow> 'w \<Rightarrow> (transport_failure, identity_claims) res \<times> 'w"

text \<open>The production transport is the reqwest one over the built-in registry.\<close>

definition reqwest_transport :: "url_lib \<Rightarrow> codec \<Rightarrow> 'w net \<Rightarrow> 'w transport_port" where
  [port_ops]: "reqwest_transport U K N =
    \<lparr>tp_exchange = transport_exchange U K N registry_with_builtin,
     tp_fetch_identity = transport_fetch_identity U N registry_with_builtin\<rparr>"

subsection \<open>The store's contract\<close>

text \<open>
  \<open>active w c p a\<close> is the credential the scope holds: the bundle last issued or rotated in, under the
  expiry the verb was given, until it is revoked.  Issue fills an empty scope only, rotate replaces,
  revoke empties, a refused verb changes nothing, and a read returns nothing but the unexpired
  credential of the scope.
\<close>

locale credential_store =
  fixes S :: "'w store_port"
    and active :: "'w \<Rightarrow> uuid \<times> string \<times> string \<Rightarrow> token_bundle option"
    and now :: "'w \<Rightarrow> datetime"
    and inv :: "'w \<Rightarrow> bool"
  assumes issue_Ok: "inv w \<Longrightarrow> st_issue S c p a q b e w = (Ok i, w') \<Longrightarrow>
        active w (c, p, a) = None \<and> active w' = (active w)((c, p, a) \<mapsto> b\<lparr>tb_expires_at := e\<rparr>)"
    and issue_Err: "inv w \<Longrightarrow> st_issue S c p a q b e w = (Err f, w') \<Longrightarrow> active w' = active w
        \<and> (cf_code f = CODE_DUPLICATE_ACTIVE \<longrightarrow> active w (c, p, a) \<noteq> None)"
    and rotate_Ok: "inv w \<Longrightarrow> st_rotate S c p a b e w = (Ok i, w') \<Longrightarrow>
        active w (c, p, a) \<noteq> None \<and> active w' = (active w)((c, p, a) \<mapsto> b\<lparr>tb_expires_at := e\<rparr>)"
    and rotate_Err: "inv w \<Longrightarrow> st_rotate S c p a b e w = (Err f, w') \<Longrightarrow> active w' = active w"
    and revoke_Ok: "inv w \<Longrightarrow> st_revoke S c p a w = (Ok u, w') \<Longrightarrow> active w' = (active w)((c, p, a) := None)"
    and revoke_Err: "inv w \<Longrightarrow> st_revoke S c p a w = (Err f, w') \<Longrightarrow> active w' = active w
        \<and> (cf_code f = CODE_NOT_FOUND \<longrightarrow> active w (c, p, a) = None)"
    and read_frame: "inv w \<Longrightarrow> active (snd (st_read_token S c p a w)) = active w"
    and read_Ok: "inv w \<Longrightarrow> st_read_token S c p a w = (Ok b, w') \<Longrightarrow>
        active w (c, p, a) = Some b \<and> now w < tb_expires_at b"
    and read_Err: "inv w \<Longrightarrow> st_read_token S c p a w = (Err f, w') \<Longrightarrow> \<not> is_transport f \<Longrightarrow>
        (case active w (c, p, a) of
           None \<Rightarrow> cf_code f \<in> {CODE_NOT_FOUND, CODE_NOT_ACTIVE}
         | Some b \<Rightarrow> tb_expires_at b \<le> now w \<and> cf_code f = CODE_EXPIRED)"
    and keeps_inv: "inv w \<Longrightarrow> inv (snd (st_issue S c p a q b e w))"
      "inv w \<Longrightarrow> inv (snd (st_rotate S c p a b e w))"
      "inv w \<Longrightarrow> inv (snd (st_revoke S c p a w))"
      "inv w \<Longrightarrow> inv (snd (st_read_token S c p a w))"

text \<open>
  How a completion stores its bundle: issue, and rotate when the scope already holds a credential (a
  re-connect).
\<close>

definition store_bundle ::
  "'w store_port \<Rightarrow> uuid \<Rightarrow> string \<Rightarrow> string \<Rightarrow> token_bundle \<Rightarrow> datetime \<Rightarrow> 'w
    \<Rightarrow> (credential_failure, unit) res \<times> 'w" where
  [port_ops]: "store_bundle S company provider account_ref bundle e w =
    (case st_issue S company provider account_ref PURPOSE_OAUTH_TOKEN bundle e w of
       (Ok _, w) \<Rightarrow> (Ok (), w)
     | (Panic, w) \<Rightarrow> (Panic, w)
     | (Err f, w) \<Rightarrow>
         if cf_code f = CODE_DUPLICATE_ACTIVE
         then attempt (st_rotate S company provider account_ref bundle e w) (\<lambda>_ w. (Ok (), w))
         else (Err f, w))"

context credential_store
begin

text \<open>A stored bundle is the scope's credential; a failed attempt changes no credential.\<close>

lemma store_bundle_Ok:
  assumes "inv w" and "store_bundle S c p a b e w = (Ok u, w')"
  shows "active w' = (active w)((c, p, a) \<mapsto> b\<lparr>tb_expires_at := e\<rparr>)"
proof -
  obtain r w1 where i: "st_issue S c p a PURPOSE_OAUTH_TOKEN b e w = (r, w1)" by fastforce
  show ?thesis
  proof (cases r)
    case (Ok x)
    with i assms issue_Ok [OF assms(1)] show ?thesis by (auto simp: store_bundle_def)
  next
    case (Err f)
    with assms(2) i obtain x where "st_rotate S c p a b e w1 = (Ok x, w')"
      by (auto simp: store_bundle_def attempt_eq_Ok split: if_splits)
    moreover have "active w1 = active w" using issue_Err [OF assms(1)] i Err by blast
    moreover have "inv w1" using keeps_inv(1) [OF assms(1)] i by (metis snd_conv)
    ultimately show ?thesis using rotate_Ok by metis
  next
    case Panic
    with i assms(2) show ?thesis by (simp add: store_bundle_def)
  qed
qed

lemma store_bundle_Err:
  assumes "inv w" and "store_bundle S c p a b e w = (Err f, w')"
  shows "active w' = active w"
proof -
  obtain r w1 where i: "st_issue S c p a PURPOSE_OAUTH_TOKEN b e w = (r, w1)" by fastforce
  then obtain g where r: "r = Err g" using assms(2) by (cases r) (auto simp: store_bundle_def)
  have act1: "active w1 = active w" using issue_Err [OF assms(1)] i r by blast
  have inv1: "inv w1" using keeps_inv(1) [OF assms(1)] i by (metis snd_conv)
  show ?thesis
  proof (cases "cf_code g = CODE_DUPLICATE_ACTIVE")
    case True
    obtain r2 w2 where r2: "st_rotate S c p a b e w1 = (r2, w2)" by fastforce
    with assms(2) True i r have "r2 = Err f" "w2 = w'" by (cases r2; simp add: store_bundle_def)+
    with r2 rotate_Err [OF inv1] act1 show ?thesis by metis
  next
    case False
    with assms(2) i r act1 show ?thesis by (simp add: store_bundle_def)
  qed
qed

text \<open>After a stored bundle the scope reads back exactly that bundle, until its expiry.\<close>

lemma store_then_read:
  assumes "inv w" and "store_bundle S c p a b e w = (Ok u, w1)" and "inv w1"
    and "st_read_token S c p a w1 = (Ok b', w2)"
  shows "b' = b\<lparr>tb_expires_at := e\<rparr>"
  using store_bundle_Ok [OF assms(1,2)] read_Ok [OF assms(3,4)] by simp

end

subsection \<open>The in-memory store\<close>

text \<open>\<open>FakeStore\<close> of \<open>tests/common/mod.rs\<close>; the ids it mints come from a supply.\<close>

record stored_credential =
  sc_company :: uuid
  sc_provider :: string
  sc_account_ref :: string
  sc_access_token :: string
  sc_refresh_token :: "string option"
  sc_scope :: "string option"
  sc_expires_at :: datetime
  sc_revoked :: bool

datatype store_call =
    Issued uuid string string string datetime
  | Read uuid string string
  | Rotated uuid string string datetime
  | RevokedCall uuid string string

record fake_store =
  fk_calls :: "store_call list"
  fk_rows :: "stored_credential list"
  fk_fail_with :: "credential_failure option"
  fk_now :: datetime
  fk_ids :: "nat \<Rightarrow> uuid"

definition fake_matches :: "uuid \<Rightarrow> string \<Rightarrow> string \<Rightarrow> stored_credential \<Rightarrow> bool" where
  [port_ops]: "fake_matches c p a r \<longleftrightarrow> sc_company r = c \<and> sc_provider r = p \<and> sc_account_ref r = a"

definition fake_gate :: "fake_store \<Rightarrow> (credential_failure, unit) res" where
  [port_ops]: "fake_gate s = (case fk_fail_with s of Some f \<Rightarrow> Err f | None \<Rightarrow> Ok ())"

text \<open>\<open>rposition\<close>: the index of the last row that satisfies the predicate.\<close>

fun rposition :: "('a \<Rightarrow> bool) \<Rightarrow> 'a list \<Rightarrow> nat option" where
  "rposition P [] = None"
| "rposition P (x # xs) =
    (case rposition P xs of Some i \<Rightarrow> Some (Suc i) | None \<Rightarrow> if P x then Some 0 else None)"

definition active_row_index :: "stored_credential list \<Rightarrow> uuid \<Rightarrow> string \<Rightarrow> string \<Rightarrow> nat option" where
  [port_ops]: "active_row_index rows c p a = rposition (\<lambda>r. \<not> sc_revoked r \<and> fake_matches c p a r) rows"

definition fake_row :: "uuid \<Rightarrow> string \<Rightarrow> string \<Rightarrow> token_bundle \<Rightarrow> datetime \<Rightarrow> stored_credential" where
  [port_ops]: "fake_row c p a b e = \<lparr>sc_company = c, sc_provider = p, sc_account_ref = a,
     sc_access_token = tb_access_token b, sc_refresh_token = tb_refresh_token b, sc_scope = tb_scope b,
     sc_expires_at = e, sc_revoked = False\<rparr>"

definition fake_log :: "store_call \<Rightarrow> fake_store \<Rightarrow> fake_store" where
  [port_ops]: "fake_log call s = s\<lparr>fk_calls := fk_calls s @ [call]\<rparr>"

definition fake_new_id :: "fake_store \<Rightarrow> uuid \<times> fake_store" where
  [port_ops]: "fake_new_id s = (fk_ids s 0, s\<lparr>fk_ids := fk_ids s \<circ> Suc\<rparr>)"

definition fake_issue ::
  "uuid \<Rightarrow> string \<Rightarrow> string \<Rightarrow> string \<Rightarrow> token_bundle \<Rightarrow> datetime \<Rightarrow> fake_store
    \<Rightarrow> (credential_failure, uuid) res \<times> fake_store" where
  [port_ops]: "fake_issue c p a purpose b e s =
    attempt (fake_gate s, s) (\<lambda>_ s.
      if active_row_index (fk_rows s) c p a \<noteq> None then (Err failure_duplicate_active, s)
      else (let (i, s) = fake_new_id s;
                s = s\<lparr>fk_rows := fk_rows s @ [fake_row c p a b e]\<rparr>
            in (Ok i, fake_log (Issued c p a purpose e) s)))"

definition fake_read_token ::
  "uuid \<Rightarrow> string \<Rightarrow> string \<Rightarrow> fake_store \<Rightarrow> (credential_failure, token_bundle) res \<times> fake_store" where
  [port_ops]: "fake_read_token c p a s =
    attempt (fake_gate s, s) (\<lambda>_ s.
      let s = fake_log (Read c p a) s; rows = fk_rows s
      in case active_row_index rows c p a of
           None \<Rightarrow>
             (Err (case find (fake_matches c p a) (rev rows) of
                     Some _ \<Rightarrow> failure_not_active ''revoked'' | None \<Rightarrow> failure_not_found), s)
         | Some i \<Rightarrow>
             let row = rows ! i
             in if sc_expires_at row \<le> fk_now s then (Err failure_expired, s)
                else (Ok (token_bundle_new (sc_access_token row) (sc_refresh_token row)
                            (sc_expires_at row) (sc_scope row)), s))"

definition fake_rotate ::
  "uuid \<Rightarrow> string \<Rightarrow> string \<Rightarrow> token_bundle \<Rightarrow> datetime \<Rightarrow> fake_store
    \<Rightarrow> (credential_failure, uuid) res \<times> fake_store" where
  [port_ops]: "fake_rotate c p a b e s =
    attempt (fake_gate s, s) (\<lambda>_ s.
      case active_row_index (fk_rows s) c p a of
        None \<Rightarrow> (Err failure_not_found, s)
      | Some i \<Rightarrow>
          let s = s\<lparr>fk_rows := (fk_rows s)[i := (fk_rows s ! i)\<lparr>sc_revoked := True\<rparr>] @ [fake_row c p a b e]\<rparr>;
              s = fake_log (Rotated c p a e) s;
              (i, s) = fake_new_id s
          in (Ok i, s))"

definition fake_revoke ::
  "uuid \<Rightarrow> string \<Rightarrow> string \<Rightarrow> fake_store \<Rightarrow> (credential_failure, unit) res \<times> fake_store" where
  [port_ops]: "fake_revoke c p a s =
    attempt (fake_gate s, s) (\<lambda>_ s.
      if \<not> list_ex (fake_matches c p a) (fk_rows s) then (Err failure_not_found, s)
      else (Ok (), fake_log (RevokedCall c p a)
             (s\<lparr>fk_rows := map (\<lambda>r. if fake_matches c p a r then r\<lparr>sc_revoked := True\<rparr> else r) (fk_rows s)\<rparr>)))"

definition fake_port :: "fake_store store_port" where
  [port_ops]: "fake_port = \<lparr>st_issue = fake_issue, st_read_token = fake_read_token,
     st_rotate = fake_rotate, st_revoke = fake_revoke\<rparr>"

subsection \<open>The in-memory store keeps the contract\<close>

text \<open>The credential a scope holds: its last unrevoked row.\<close>

definition bundle_of :: "stored_credential \<Rightarrow> token_bundle" where
  "bundle_of r = token_bundle_new (sc_access_token r) (sc_refresh_token r) (sc_expires_at r) (sc_scope r)"

definition live :: "uuid \<times> string \<times> string \<Rightarrow> stored_credential \<Rightarrow> bool" where
  "live k r \<longleftrightarrow> \<not> sc_revoked r \<and> fake_matches (fst k) (fst (snd k)) (snd (snd k)) r"

definition rows_active :: "stored_credential list \<Rightarrow> uuid \<times> string \<times> string \<Rightarrow> token_bundle option" where
  "rows_active rows k = map_option bundle_of (find (live k) (rev rows))"

definition fake_active :: "fake_store \<Rightarrow> uuid \<times> string \<times> string \<Rightarrow> token_bundle option" where
  "fake_active s = rows_active (fk_rows s)"

text \<open>An injected outage is the retryable one.\<close>

definition fake_inv :: "fake_store \<Rightarrow> bool" where
  "fake_inv s \<longleftrightarrow> (case fk_fail_with s of None \<Rightarrow> True | Some f \<Rightarrow> is_transport f)"

lemma find_append: "find P (xs @ ys) = (case find P xs of Some x \<Rightarrow> Some x | None \<Rightarrow> find P ys)"
  by (induction xs) auto

lemma rposition_None: "rposition P xs = None \<longleftrightarrow> find P (rev xs) = None"
  by (induction xs) (auto simp: find_append split: option.splits)

lemma rposition_Some:
  "rposition P xs = Some i \<Longrightarrow> i < length xs \<and> P (xs ! i) \<and> find P (rev xs) = Some (xs ! i)"
proof (induction xs arbitrary: i)
  case (Cons x xs)
  then show ?case
    by (cases "rposition P xs") (auto simp: find_append rposition_None split: if_splits)
qed simp

lemma active_row_index_live: "active_row_index rows c p a = rposition (live (c, p, a)) rows"
  by (simp add: active_row_index_def live_def [abs_def])

lemma rows_active_append:
  "rows_active (rows @ [fake_row c p a b e]) = (rows_active rows)((c, p, a) \<mapsto> b\<lparr>tb_expires_at := e\<rparr>)"
  by (auto simp: rows_active_def fun_eq_iff find_append live_def fake_matches_def fake_row_def bundle_of_def
      token_bundle_new_def)

lemma find_update_other:
  "\<not> P (xs ! i) \<Longrightarrow> \<not> P y \<Longrightarrow> find P (xs[i := y]) = find P xs"
proof (induction xs arbitrary: i)
  case (Cons x xs)
  then show ?case by (cases i) auto
qed simp

lemma live_key: "live k r \<Longrightarrow> k = (sc_company r, sc_provider r, sc_account_ref r)"
  by (auto simp: live_def fake_matches_def prod_eq_iff)

lemma rows_active_retire:
  assumes "active_row_index rows c p a = Some i"
  shows "(rows_active (rows[i := (rows ! i)\<lparr>sc_revoked := True\<rparr>]))((c, p, a) \<mapsto> b) = (rows_active rows)((c, p, a) \<mapsto> b)"
proof (rule ext)
  fix k
  from assms have i: "i < length rows" "live (c, p, a) (rows ! i)"
    using rposition_Some by (auto simp: active_row_index_live)
  show "((rows_active (rows[i := (rows ! i)\<lparr>sc_revoked := True\<rparr>]))((c, p, a) \<mapsto> b)) k
      = ((rows_active rows)((c, p, a) \<mapsto> b)) k"
  proof (cases "k = (c, p, a)")
    case False
    with i live_key have "\<not> live k (rows ! i)" by metis
    with i(1) have "\<not> live k (rev rows ! (length rows - i - 1))"
      by (simp add: rev_nth)
    moreover have "\<not> live k ((rows ! i)\<lparr>sc_revoked := True\<rparr>)" by (simp add: live_def)
    ultimately show ?thesis
      using False i(1) by (simp add: rows_active_def rev_update find_update_other)
  qed simp
qed

lemma rows_active_revoke:
  "rows_active (map (\<lambda>r. if fake_matches c p a r then r\<lparr>sc_revoked := True\<rparr> else r) rows) =
    (rows_active rows)((c, p, a) := None)"
proof (rule ext)
  fix k
  let ?f = "\<lambda>r. if fake_matches c p a r then r\<lparr>sc_revoked := True\<rparr> else r"
  show "rows_active (map ?f rows) k = ((rows_active rows)((c, p, a) := None)) k"
  proof (cases "k = (c, p, a)")
    case True
    then have "\<not> live k (?f r)" for r by (simp add: live_def)
    then have "find (live k) (rev (map ?f rows)) = None"
      unfolding find_None_iff set_rev set_map by blast
    with True show ?thesis by (simp add: rows_active_def)
  next
    case False
    then have "live k (?f r) = live k r" "live k r \<Longrightarrow> ?f r = r" for r
      by (auto simp: live_def fake_matches_def)
    then have "find (live k) (map ?f xs) = find (live k) xs" for xs
      by (induction xs) auto
    with False show ?thesis by (simp add: rows_active_def rev_map)
  qed
qed

lemma fake_read_row:
  assumes "active_row_index (fk_rows s) c p a = Some i"
  shows "fake_active s (c, p, a) = Some (bundle_of (fk_rows s ! i))"
  using rposition_Some [OF assms [unfolded active_row_index_live]]
  by (simp add: fake_active_def rows_active_def)

lemma fake_no_row: "active_row_index (fk_rows s) c p a = None \<longleftrightarrow> fake_active s (c, p, a) = None"
  by (simp add: fake_active_def rows_active_def active_row_index_live rposition_None)

lemmas fake_verbs = fake_port_def fake_issue_def fake_read_token_def fake_rotate_def fake_revoke_def
  fake_gate_def fake_new_id_def fake_log_def Let_def

lemma fake_gate_cases:
  "fake_inv s \<Longrightarrow> fake_gate s = Ok () \<or> (\<exists>f. fake_gate s = Err f \<and> cf_code f = CODE_TRANSPORT)"
  by (auto simp: fake_inv_def fake_gate_def is_transport_def split: option.splits)

interpretation fake: credential_store fake_port fake_active fk_now fake_inv
proof unfold_locales
  fix s s' :: fake_store and c p a q b e i f u
  assume inv: "fake_inv s"
  note gate = fake_gate_cases [OF inv]
  show "fake_active s (c, p, a) = None \<and> fake_active s' = (fake_active s)((c, p, a) \<mapsto> b\<lparr>tb_expires_at := e\<rparr>)"
    if "st_issue fake_port c p a q b e s = (Ok i, s')"
    using that
    by (auto simp: fake_verbs fake_no_row fake_active_def rows_active_append split: option.splits if_splits)
  show "fake_active s' = fake_active s \<and> (cf_code f = CODE_DUPLICATE_ACTIVE \<longrightarrow> fake_active s (c, p, a) \<noteq> None)"
    if "st_issue fake_port c p a q b e s = (Err f, s')"
    using that gate
    by (auto simp: fake_port_def fake_issue_def fake_new_id_def fake_log_def Let_def fake_no_row
        failure_codes split: if_splits)
  show "fake_active s (c, p, a) \<noteq> None \<and> fake_active s' = (fake_active s)((c, p, a) \<mapsto> b\<lparr>tb_expires_at := e\<rparr>)"
    if "st_rotate fake_port c p a b e s = (Ok i, s')"
    using that fake_read_row [of s c p a]
    by (auto simp: fake_verbs fake_active_def rows_active_append rows_active_retire split: option.splits)
  show "fake_active s' = fake_active s"
    if "st_rotate fake_port c p a b e s = (Err f, s')"
    using that by (auto simp: fake_verbs fake_active_def split: option.splits)
  show "fake_active s' = (fake_active s)((c, p, a) := None)"
    if "st_revoke fake_port c p a s = (Ok u, s')"
    using that
    by (auto simp: fake_verbs fake_active_def rows_active_revoke split: option.splits if_splits)
  show "fake_active s' = fake_active s \<and> (cf_code f = CODE_NOT_FOUND \<longrightarrow> fake_active s (c, p, a) = None)"
    if "st_revoke fake_port c p a s = (Err f, s')"
    using that gate
    by (auto simp: fake_port_def fake_revoke_def Let_def fake_log_def failure_codes fake_active_def rows_active_def list_ex_iff
        live_def find_None_iff split: if_splits)
  show "fake_active (snd (st_read_token fake_port c p a s)) = fake_active s"
    by (auto simp: fake_verbs fake_active_def split: option.splits)
  show "fake_active s (c, p, a) = Some b \<and> fk_now s < tb_expires_at b"
    if "st_read_token fake_port c p a s = (Ok b, s')"
    using that fake_read_row [of s c p a]
    by (auto simp: fake_verbs bundle_of_def token_bundle_new_def split: option.splits if_splits)
  show "case fake_active s (c, p, a) of
      None \<Rightarrow> cf_code f \<in> {CODE_NOT_FOUND, CODE_NOT_ACTIVE}
    | Some b \<Rightarrow> tb_expires_at b \<le> fk_now s \<and> cf_code f = CODE_EXPIRED"
    if "st_read_token fake_port c p a s = (Err f, s')" "\<not> is_transport f"
    using that gate fake_read_row [of s c p a] fake_no_row [of s c p a]
    by (auto simp: fake_port_def fake_read_token_def fake_log_def Let_def is_transport_def failure_not_found_def
        failure_not_active_def failure_expired_def bundle_of_def token_bundle_new_def
        split: option.splits if_splits)
  show "fake_inv (snd (st_issue fake_port c p a q b e s))" "fake_inv (snd (st_rotate fake_port c p a b e s))"
    "fake_inv (snd (st_revoke fake_port c p a s))" "fake_inv (snd (st_read_token fake_port c p a s))"
    using inv by (auto simp: fake_verbs fake_inv_def split: option.splits)
qed

text \<open>
  C36.  Storing a bundle (issue, and rotate when the scope is taken) through any store that keeps the contract
  of the port (the locale \<open>credential_store\<close>; the in-memory store of the crate's tests does): whatever the
  store already holds for the scope, a call that succeeds leaves exactly that bundle as the scope's
  credential, under the expiry passed with it, and touches no other scope; after a call that fails no
  credential of any scope has changed.
\<close>

theorem store_bundle_effect:
  assumes "credential_store S active now sound" and "sound w"
    and "store_bundle S c p a b e w = (r, w')" and "r \<noteq> Panic"
  shows "active w' = (if is_ok r then (active w)((c, p, a) \<mapsto> b\<lparr>tb_expires_at := e\<rparr>) else active w)"
proof (cases r)
  case (Ok u)
  with credential_store.store_bundle_Ok [OF assms(1,2)] assms(3) show ?thesis by simp
next
  case (Err f)
  with credential_store.store_bundle_Err [OF assms(1,2)] assms(3) show ?thesis by simp
qed (use assms(4) in simp)

definition demo_store :: fake_store where
  "demo_store = \<lparr>fk_calls = [], fk_rows = [], fk_fail_with = None, fk_now = 0, fk_ids = (\<lambda>n. of_nat n)\<rparr>"

text \<open>A re-connect: the scope is taken, the bundle replaces its credential.\<close>

definition taken_store :: fake_store where
  "taken_store = demo_store\<lparr>fk_rows := [fake_row 1 ''gmail'' ''a@b.c'' (token_bundle_new ''old'' None 5 None) 5]\<rparr>"

theorem store_bundle_effect_witness:
  "is_ok (fst (store_bundle fake_port 1 ''gmail'' ''a@b.c'' (token_bundle_new ''at'' None 9 None) 9 taken_store)) \<and>
   fake_active taken_store (1, ''gmail'', ''a@b.c'') = Some (token_bundle_new ''old'' None 5 None) \<and>
   fake_active (snd (store_bundle fake_port 1 ''gmail'' ''a@b.c'' (token_bundle_new ''at'' None 9 None) 9 taken_store))
     (1, ''gmail'', ''a@b.c'') = Some (token_bundle_new ''at'' None 9 None)"
proof -
  let ?r = "store_bundle fake_port 1 ''gmail'' ''a@b.c'' (token_bundle_new ''at'' None 9 None) 9 taken_store"
  have sound: "fake_inv taken_store" by (simp add: fake_inv_def taken_store_def demo_store_def)
  have ok: "is_ok (fst ?r)"
    by (simp add: store_bundle_def fake_verbs taken_store_def demo_store_def active_row_index_def fake_matches_def fake_row_def
        failure_duplicate_active_def)
  then have "fst ?r \<noteq> Panic" by auto
  from store_bundle_effect [OF fake.credential_store_axioms sound surjective_pairing this] ok
  have "fake_active (snd ?r) (1, ''gmail'', ''a@b.c'') = Some (token_bundle_new ''at'' None 9 None)"
    by (simp add: token_bundle_new_def)
  moreover have "fake_active taken_store (1, ''gmail'', ''a@b.c'') = Some (token_bundle_new ''old'' None 5 None)"
    by (simp add: fake_active_def rows_active_def taken_store_def live_def fake_matches_def fake_row_def bundle_of_def
        token_bundle_new_def)
  ultimately show ?thesis using ok by blast
qed

text \<open>
  No \<open>Debug\<close> output reveals a secret: the printed token request, token response and token bundle are
  the same whatever the code, the verifier, the client secret and the tokens are; only whether an
  optional one is present shows.
\<close>

lemma debug_redacted:
  "form_debug f = form_debug (f\<lparr>tf_code := map_option (\<lambda>_. c) (tf_code f),
      tf_refresh_token := map_option (\<lambda>_. rt) (tf_refresh_token f),
      tf_code_verifier := map_option (\<lambda>_. v) (tf_code_verifier f),
      tf_client_secret := map_option (\<lambda>_. cs) (tf_client_secret f)\<rparr>)
   \<and> response_debug r = response_debug (r\<lparr>access_token := at,
      refresh_token := map_option (\<lambda>_. rt) (refresh_token r), id_token := map_option (\<lambda>_. it) (id_token r)\<rparr>)
   \<and> bundle_debug st b = bundle_debug st (b\<lparr>tb_access_token := at,
      tb_refresh_token := map_option (\<lambda>_. rt) (tb_refresh_token b)\<rparr>)"
  by (simp add: form_debug_def response_debug_def bundle_debug_def redacted_def option.map_comp comp_def)

end
