(* ===== verification/Oauth_State.thy ===== *)
theory Oauth_State
  imports World Endpoint_Guard
begin

text \<open>
  The first part of \<open>application/service/integrations_oauth.rs\<close>: configuration, the error type, and the
  Tier-A state - the signed binding of an authorization to its account, provider, nonce and expiry.
\<close>

named_theorems oauth_ops \<open>definitions of the OAuth service's helpers\<close>

definition STATE_TTL_SECONDS :: int where "STATE_TTL_SECONDS = 600"
definition DEFAULT_STATE_SECRET_ENV :: string where
  "DEFAULT_STATE_SECRET_ENV = ''INTEGRATIONS_OAUTH_STATE_SECRET''"
definition CALLBACK_PATH :: string where "CALLBACK_PATH = ''/api/v1/integrations/oauth/callback''"
definition COMPLETE_ACTION :: string where "COMPLETE_ACTION = ''complete''"

record oauth_config =
  cfg_public_base :: "string option"
  cfg_clients :: client_configs
  cfg_endpoints :: endpoint_overrides
  cfg_refresh_window_seconds :: int
  cfg_refresh_batch_size :: int
  cfg_shared_mailbox_bypass :: bool
  cfg_state_secret_source :: string

definition default_oauth_config :: oauth_config where
  "default_oauth_config = \<lparr>cfg_public_base = None, cfg_clients = [], cfg_endpoints = [],
     cfg_refresh_window_seconds = 600, cfg_refresh_batch_size = 100, cfg_shared_mailbox_bypass = False,
     cfg_state_secret_source = ''env:'' @ DEFAULT_STATE_SECRET_ENV\<rparr>"

datatype oauth_error =
    Invalid msg
  | State msg
  | ProviderUnconfigured msg
  | NotFound
  | Identity msg
  | Unstoreable msg
  | Transport msg
  | Store msg
  | Db db_error

subsection \<open>The signed state\<close>

record oauth_state =
  os_account_id :: uuid
  os_provider :: string
  os_nonce :: string
  os_exp :: int

text \<open>The derived serializer and deserializer of \<open>OAuthState\<close> (JSON bytes).\<close>

record state_codec =
  state_to_vec :: "oauth_state \<Rightarrow> (string, string) res"
  state_from_slice :: "string \<Rightarrow> oauth_state option"

definition signer_mint :: "codec \<Rightarrow> state_codec \<Rightarrow> string \<Rightarrow> oauth_state \<Rightarrow> (oauth_error, string) res" where
  [oauth_ops]: "signer_mint K J key state =
    and_then (map_err (\<lambda>e. State (''state serialization: {e}'', [e])) (state_to_vec J state)) (\<lambda>payload.
    let mac = hmac_sha256 K key payload
    in Ok (b64_encode K payload @ ''.'' @ b64_encode K mac))"

definition signer_verify ::
  "chrono \<Rightarrow> codec \<Rightarrow> state_codec \<Rightarrow> string \<Rightarrow> datetime \<Rightarrow> string \<Rightarrow> (oauth_error, oauth_state) res" where
  [oauth_ops]: "signer_verify C K J key now token =
    and_then (ok_or (State (''malformed state'', [])) (split_once CHR ''.'' token)) (\<lambda>(payload_b64, mac_b64).
    and_then (ok_or (State (''malformed state payload'', [])) (b64_decode K payload_b64)) (\<lambda>payload.
    and_then (ok_or (State (''malformed state signature'', [])) (b64_decode K mac_b64)) (\<lambda>presented.
    let expected = hmac_sha256 K key payload
    in if length presented \<noteq> length expected \<or> presented \<noteq> expected
       then Err (State (''state signature mismatch'', []))
       else and_then (ok_or (State (''state payload is not a valid binding'', [])) (state_from_slice J payload)) (\<lambda>state.
         if os_exp state \<le> timestamp C now then Err (State (''state expired'', []))
         else Ok state))))"

text \<open>PKCE and nonce material, from the random bytes drawn.\<close>

definition mint_pkce_verifier :: "codec \<Rightarrow> string \<Rightarrow> string" where
  [oauth_ops]: "mint_pkce_verifier K bytes = b64_encode K bytes"

definition pkce_challenge :: "codec \<Rightarrow> string \<Rightarrow> string" where
  [oauth_ops]: "pkce_challenge K verifier = b64_encode K (sha256 K verifier)"

definition mint_nonce :: "codec \<Rightarrow> string \<Rightarrow> string" where
  [oauth_ops]: "mint_nonce K bytes = b64_encode K bytes"

subsection \<open>What verification accepts\<close>

lemma signer_verify_Ok:
  "signer_verify C K J key now token = Ok st \<longleftrightarrow>
    (\<exists>payload_b64 mac_b64 payload. token = payload_b64 @ ''.'' @ mac_b64 \<and> CHR ''.'' \<notin> set payload_b64 \<and>
       b64_decode K payload_b64 = Some payload \<and> b64_decode K mac_b64 = Some (hmac_sha256 K key payload) \<and>
       state_from_slice J payload = Some st \<and> timestamp C now < os_exp st)"
proof -
  have split: "(token = p @ ''.'' @ m \<and> CHR ''.'' \<notin> set p) = (split_once CHR ''.'' token = Some (p, m))" for p m
    by (auto dest: split_once_Some)
  show ?thesis
    unfolding conj_assoc [symmetric] split
    by (auto simp: signer_verify_def and_then_eq_Ok Let_def not_le split: prod.splits if_splits)
qed

lemma signer_verify_no_panic [simp]: "signer_verify C K J key now token \<noteq> Panic"
  by (auto simp: signer_verify_def Let_def ok_or_def split: and_then_split prod.splits option.splits)

lemma signer_verify_Err: "signer_verify C K J key now token = Err e \<Longrightarrow> \<exists>m. e = State m"
  by (auto simp: signer_verify_def Let_def ok_or_def split: and_then_split prod.splits option.splits if_splits)

text \<open>
  C4.  A state is accepted exactly when it is a dot-separated pair whose second part decodes to the MAC of
  the decoded first part under the signing key, the payload is a valid binding, and its expiry lies
  strictly after now: no unsigned, altered or expired state gets past verification.
\<close>

theorem signer_verify_iff:
  "signer_verify C K J key now token = Ok st \<longleftrightarrow>
    (\<exists>payload_b64 mac_b64 payload. token = payload_b64 @ ''.'' @ mac_b64 \<and> CHR ''.'' \<notin> set payload_b64 \<and>
       b64_decode K payload_b64 = Some payload \<and> b64_decode K mac_b64 = Some (hmac_sha256 K key payload) \<and>
       state_from_slice J payload = Some st \<and> timestamp C now < os_exp st)"
  by (rule signer_verify_Ok)

text \<open>A binary codec for the concrete runs: two letters a byte.\<close>

definition hex_digit :: "nat \<Rightarrow> char" where "hex_digit n = char_of (65 + n)"

definition hex_encode :: "string \<Rightarrow> string" where
  "hex_encode s = concat (map (\<lambda>c. [hex_digit (byte c div 16), hex_digit (byte c mod 16)]) s)"

fun hex_decode :: "string \<Rightarrow> string option" where
  "hex_decode [] = Some []"
| "hex_decode [c] = None"
| "hex_decode (c # d # s) =
    map_option (\<lambda>t. char_of ((byte c - 65) * 16 + (byte d - 65)) # t) (hex_decode s)"

lemma hex_roundtrip: "hex_decode (hex_encode s) = Some s"
proof (induction s)
  case (Cons c s)
  have "byte c div 16 < 16" using byte_less [of c] by (simp add: less_mult_imp_div_less)
  with Cons show ?case by (simp add: hex_encode_def hex_digit_def)
qed (simp add: hex_encode_def)

lemma hex_no_dot: "CHR ''.'' \<notin> set (hex_encode s)"
proof -
  have "byte (hex_digit (byte c div 16)) \<noteq> 46" "byte (hex_digit (byte c mod 16)) \<noteq> 46" for c
  proof -
    have "byte c div 16 < 16" using byte_less [of c] by (simp add: less_mult_imp_div_less)
    then show "byte (hex_digit (byte c div 16)) \<noteq> 46" by (simp add: hex_digit_def)
    have "byte c mod 16 < 16" by simp
    then show "byte (hex_digit (byte c mod 16)) \<noteq> 46" by (simp add: hex_digit_def del: mod_less_divisor)
  qed
  moreover have "byte CHR ''.'' = 46" by (simp add: byte_def)
  ultimately show ?thesis by (force simp: hex_encode_def)
qed

definition hex_codec :: codec where
  "hex_codec = \<lparr>parse_json = (\<lambda>_. None), b64_encode = hex_encode, b64_decode = hex_decode, sha256 = id,
     hmac_sha256 = (\<lambda>k m. rev m @ k)\<rparr>"

lemma hex_codec_laws: "b64_laws hex_codec"
  by (simp add: b64_laws_def hex_codec_def hex_roundtrip hex_no_dot)

text \<open>A binding for the concrete runs.\<close>

definition demo_state :: oauth_state where
  "demo_state = \<lparr>os_account_id = 7, os_provider = ''gmail'', os_nonce = ''n'', os_exp = 600\<rparr>"

text \<open>
  C37.  Minting and verifying agree: a state minted under a key verifies under that key to exactly the
  binding that was minted while its expiry lies in the future, and is refused as expired from the
  second of its expiry on.
\<close>

theorem mint_verify:
  assumes "b64_laws K" and "state_to_vec J st = Ok payload" and "state_from_slice J payload = Some st"
  shows "\<exists>token. signer_mint K J key st = Ok token \<and>
    (\<forall>now. signer_verify C K J key now token =
      (if timestamp C now < os_exp st then Ok st else Err (State (''state expired'', []))))"
proof -
  let ?token = "b64_encode K payload @ ''.'' @ b64_encode K (hmac_sha256 K key payload)"
  have "signer_mint K J key st = Ok ?token"
    using assms(2) by (simp add: signer_mint_def)
  moreover have "signer_verify C K J key now ?token =
      (if timestamp C now < os_exp st then Ok st else Err (State (''state expired'', [])))" for now
    using b64_lawsD [OF assms(1)] assms(3) by (simp add: signer_verify_def Let_def)
  ultimately show ?thesis by blast
qed

theorem mint_verify_witness:
  "\<exists>token. signer_mint hex_codec \<lparr>state_to_vec = (\<lambda>_. Ok ''p''), state_from_slice = (\<lambda>_. Some demo_state)\<rparr>
      ''key'' demo_state = Ok token \<and>
    (\<forall>now. signer_verify ranged_chrono hex_codec
      \<lparr>state_to_vec = (\<lambda>_. Ok ''p''), state_from_slice = (\<lambda>_. Some demo_state)\<rparr> ''key'' now token =
      (if timestamp ranged_chrono now < os_exp demo_state then Ok demo_state
       else Err (State (''state expired'', []))))"
  by (rule mint_verify [OF hex_codec_laws, of _ _ "''p''"]) simp_all

end
