(* ===== verification/Identity_Gauntlet.thy ===== *)
theory Identity_Gauntlet
  imports Oauth_State
begin

text \<open>
  The identity gauntlet of \<open>application/service/integrations_oauth.rs\<close>: the audience and nonce binding,
  the email match, the id_token decoding, and the input normalizers beside them.
\<close>

record decoded_id_token =
  dt_audience :: "string option"
  dt_nonce :: "string option"

definition decode_id_token_claims :: "codec \<Rightarrow> string \<Rightarrow> decoded_id_token option" where
  [oauth_ops]: "decode_id_token_claims K idt =
    (let parts = split_on CHR ''.'' idt in
     if length parts \<le> 1 then None
     else Option.bind (b64_decode K (trim_end_matches CHR ''='' (parts ! 1))) (\<lambda>payload.
          Option.bind (parse_json K payload) (\<lambda>value.
          Option.bind (json_get value ''aud'') (\<lambda>aud.
            Some \<lparr>dt_audience =
                    (case aud of
                       JString s \<Rightarrow> Some s
                     | JArray a \<Rightarrow> (case a of [] \<Rightarrow> None | v # _ \<Rightarrow> json_as_str v)
                     | _ \<Rightarrow> None),
                  dt_nonce = Option.bind (json_get value ''nonce'') json_as_str\<rparr>))))"

fun merge_claim :: "string option \<Rightarrow> string option \<Rightarrow> (oauth_error, string option) res" where
  "merge_claim (Some a) (Some b) =
    (if \<not> eq_ignore_ascii_case a b
     then Err (Identity (''identity reads disagree on a token claim (refused)'', []))
     else Ok (Some a))"
| "merge_claim (Some a) None = Ok (Some a)"
| "merge_claim None (Some b) = Ok (Some b)"
| "merge_claim None None = Ok None"

definition verify_audience_and_nonce ::
  "codec \<Rightarrow> identity_claims \<Rightarrow> string option \<Rightarrow> string \<Rightarrow> string \<Rightarrow> (oauth_error, unit) res" where
  [oauth_ops]: "verify_audience_and_nonce K identity idt client state_nonce =
    (let decoded = Option.bind idt (decode_id_token_claims K) in
     and_then (merge_claim (id_audience identity) (Option.bind decoded dt_audience)) (\<lambda>audience.
     and_then (merge_claim (id_nonce identity) (Option.bind decoded dt_nonce)) (\<lambda>nonce.
     and_then (ok_or (Identity (''identity carries no audience to verify'', [])) audience) (\<lambda>aud.
     if aud \<noteq> client then
       Err (Identity (''token audience {aud:?} is not this deployment's client (token substitution rejected)'', [aud]))
     else
     and_then (ok_or (Identity (''identity carries no nonce to verify'', [])) nonce) (\<lambda>n.
     if n \<noteq> state_nonce then
       Err (Identity (''nonce does not match the signed state (replay rejected)'', []))
     else Ok ())))))"

definition verify_email_match :: "identity_claims \<Rightarrow> string \<Rightarrow> bool \<Rightarrow> (oauth_error, unit) res" where
  [oauth_ops]: "verify_email_match identity account_ref shared_mailbox_bypass =
    and_then (ok_or (Identity (''provider-side identity carries no email'', []))
      (case map_option trim (id_email identity) of
         None \<Rightarrow> None | Some e \<Rightarrow> if e = [] then None else Some e)) (\<lambda>email.
    if id_email_verified identity = Some False then
      Err (Identity (''provider reports the email as unverified'', []))
    else if \<not> eq_ignore_ascii_case email account_ref then
      (if shared_mailbox_bypass then Ok ()
       else Err (Identity (''token identity {email:?} does not match the configured account_ref'', [email])))
    else Ok ())"

subsection \<open>Input normalizers and the callback page\<close>

definition trim_trailing_slash :: "string \<Rightarrow> string" where
  [oauth_ops]: "trim_trailing_slash s = trim_end_matches CHR ''/'' s"

definition is_mail_provider :: "string \<Rightarrow> bool" where
  [oauth_ops]: "is_mail_provider provider \<longleftrightarrow> provider = ''gmail'' \<or> provider = ''outlook''"

definition normalize_account_ref :: "string \<Rightarrow> string option" where
  [oauth_ops]: "normalize_account_ref raw =
    (let trimmed = trim raw
     in if length trimmed < 3 \<or> 120 < length trimmed \<or> any_ws trimmed then None else Some trimmed)"

definition looks_like_email :: "string \<Rightarrow> bool" where
  [oauth_ops]: "looks_like_email value =
    (case split_once CHR ''@'' value of
       Some (local, domain) \<Rightarrow>
         local \<noteq> [] \<and> CHR ''.'' \<in> set domain \<and> \<not> starts_with domain ''.'' \<and> \<not> ends_with domain ''.''
     | None \<Rightarrow> False)"

definition DQ :: char where "DQ = CHR 0x22"
definition NL :: char where "NL = CHR 0x0A"

definition html_escape :: "string \<Rightarrow> string" where
  [oauth_ops]: "html_escape s =
    replace_char CHR 0x27 ''&#39;''
      (replace_char DQ ''&quot;''
        (replace_char CHR ''>'' ''&gt;''
          (replace_char CHR ''<'' ''&lt;''
            (replace_char CHR ''&'' ''&amp;'' s))))"

definition hidden_input :: "string \<times> string \<Rightarrow> string" where
  [oauth_ops]: "hidden_input field =
    ''    <input type='' @ [DQ] @ ''hidden'' @ [DQ] @ '' name='' @ [DQ] @ html_escape (fst field) @ [DQ] @
    '' value='' @ [DQ] @ html_escape (snd field) @ [DQ] @ ''>''"

fun join_lines :: "string list \<Rightarrow> string" where
  "join_lines [] = []"
| "join_lines [x] = x"
| "join_lines (x # xs) = x @ [NL] @ join_lines xs"

definition auto_post_page :: "string \<Rightarrow> (string \<times> string) list \<Rightarrow> string" where
  [oauth_ops]: "auto_post_page action inputs =
    ''<!doctype html>'' @ [NL] @ ''<html>'' @ [NL] @ ''<head>'' @ [NL] @
    ''  <meta charset='' @ [DQ] @ ''utf-8'' @ [DQ] @ ''>'' @ [NL] @
    ''  <meta name='' @ [DQ] @ ''robots'' @ [DQ] @ '' content='' @ [DQ] @ ''noindex'' @ [DQ] @ ''>'' @ [NL] @
    ''  <title>Completing connection'' @ [CHR 0xE2, CHR 0x80, CHR 0xA6] @ ''</title>'' @ [NL] @
    ''</head>'' @ [NL] @
    ''<body onload='' @ [DQ] @ ''document.forms[0].submit()'' @ [DQ] @ ''>'' @ [NL] @
    ''  <form method='' @ [DQ] @ ''POST'' @ [DQ] @ '' action='' @ [DQ] @ action @ [DQ] @ ''>'' @ [NL] @
    join_lines (map hidden_input inputs) @ [NL] @
    ''    <noscript><button type='' @ [DQ] @ ''submit'' @ [DQ] @ ''>Continue</button></noscript>'' @ [NL] @
    ''  </form>'' @ [NL] @ ''</body>'' @ [NL] @ ''</html>'' @ [NL]"

definition callback_page ::
  "chrono \<Rightarrow> codec \<Rightarrow> state_codec \<Rightarrow> string \<Rightarrow> datetime \<Rightarrow> string \<Rightarrow> string \<Rightarrow> (oauth_error, string) res" where
  [oauth_ops]: "callback_page C K J key now code state =
    (if trim code = [] then Err (Invalid (''callback is missing the authorization code'', []))
     else and_then (signer_verify C K J key now state) (\<lambda>_.
       Ok (auto_post_page COMPLETE_ACTION [(''code'', code), (''state'', state)])))"

subsection \<open>Escaping\<close>

definition escape_char :: "char \<Rightarrow> string" where
  "escape_char c =
    (if c = CHR ''&'' then ''&amp;'' else if c = CHR ''<'' then ''&lt;'' else if c = CHR ''>'' then ''&gt;''
     else if c = DQ then ''&quot;'' else if c = CHR 0x27 then ''&#39;'' else [c])"

lemma html_escape_Cons: "html_escape (c # s) = escape_char c @ html_escape s"
  by (simp add: html_escape_def escape_char_def DQ_def replace_char_Cons replace_char_append)

lemma html_escape_Nil [simp]: "html_escape [] = []"
  by (simp add: html_escape_def)

text \<open>What a browser reads back: the five character references, anything else as it stands.\<close>

definition char_refs :: "(string \<times> char) list" where
  "char_refs = [(''&amp;'', CHR ''&''), (''&lt;'', CHR ''<''), (''&gt;'', CHR ''>''), (''&quot;'', DQ),
     (''&#39;'', CHR 0x27)]"

function html_unescape :: "string \<Rightarrow> string" where
  "html_unescape [] = []"
| "html_unescape (c # s) =
    (case find (\<lambda>(r, _). prefix r (c # s)) char_refs of
       Some (r, x) \<Rightarrow> x # html_unescape (drop (length r - 1) s)
     | None \<Rightarrow> c # html_unescape s)"
  by pat_completeness auto
termination
  by (relation "measure length") auto

lemma html_unescape_escape_char: "html_unescape (escape_char c @ s) = c # html_unescape s"
  by (simp add: escape_char_def char_refs_def DQ_def)

lemma html_roundtrip: "html_unescape (html_escape s) = s"
  by (induction s) (simp_all add: html_escape_Cons html_unescape_escape_char)

definition markup :: "char \<Rightarrow> bool" where
  "markup c \<longleftrightarrow> c \<in> {CHR ''<'', CHR ''>'', DQ, CHR 0x27}"

lemma filter_markup_escape: "filter markup (html_escape s) = []"
  by (induction s) (auto simp: html_escape_Cons escape_char_def markup_def DQ_def)

lemma filter_markup_input: "filter markup (hidden_input (n, v)) = filter markup (hidden_input ([], []))"
  by (simp only: hidden_input_def filter_append filter_markup_escape fst_conv snd_conv html_escape_Nil)
    (simp only: filter.simps append_Nil append_Nil2)

text \<open>
  C40.  The auto-submitting page cannot be broken out of: escaping is undone by the browser, so the form
  posts exactly the code and state received, and the page's markup characters (angle brackets and
  quotes) are the same, in the same order, for every code and state.  Undoing the escapes means reading the
  five character references the code writes.
\<close>

theorem callback_page_inert:
  assumes "callback_page C K J key now code state = Ok page"
  shows "page = auto_post_page COMPLETE_ACTION [(''code'', code), (''state'', state)] \<and>
    html_unescape (html_escape code) = code \<and> html_unescape (html_escape state) = state \<and>
    filter markup page = filter markup (auto_post_page COMPLETE_ACTION [([], []), ([], [])])"
proof -
  have page: "page = auto_post_page COMPLETE_ACTION [(''code'', code), (''state'', state)]"
    using assms by (auto simp: callback_page_def and_then_eq_Ok split: if_splits)
  have "filter markup page = filter markup (auto_post_page COMPLETE_ACTION [([], []), ([], [])])"
    unfolding page auto_post_page_def
    by (simp only: filter_append list.map join_lines.simps filter_markup_input [of "''code''"]
        filter_markup_input [of "''state''"])
  with page html_roundtrip show ?thesis by blast
qed

text \<open>A state that verifies, for the concrete runs.\<close>

definition demo_codec_state :: state_codec where
  "demo_codec_state = \<lparr>state_to_vec = (\<lambda>_. Ok ''p''), state_from_slice = (\<lambda>_. Some demo_state)\<rparr>"

definition demo_state_token :: string where
  "demo_state_token = hex_encode ''p'' @ ''.'' @ hex_encode (hmac_sha256 hex_codec ''key'' ''p'')"

lemma demo_state_verifies:
  "signer_verify ranged_chrono hex_codec demo_codec_state ''key'' 0 demo_state_token = Ok demo_state"
  using b64_lawsD [OF hex_codec_laws]
  by (simp add: signer_verify_def demo_state_token_def demo_codec_state_def hex_codec_def ranged_chrono_def
      demo_state_def hex_roundtrip hex_no_dot)

lemma trim_code: "trim ''c'' = ''c''"
  by (rule trim_printable) (simp add: printable_def byte_def)

theorem callback_page_inert_witness:
  "\<exists>page. callback_page ranged_chrono hex_codec demo_codec_state ''key'' 0 ''c'' demo_state_token = Ok page
     \<and> filter markup page = filter markup (auto_post_page COMPLETE_ACTION [([], []), ([], [])])"
proof -
  have "callback_page ranged_chrono hex_codec demo_codec_state ''key'' 0 ''c'' demo_state_token
      = Ok (auto_post_page COMPLETE_ACTION [(''code'', ''c''), (''state'', demo_state_token)])"
    by (simp add: callback_page_def trim_code demo_state_verifies)
  with callback_page_inert [OF this] show ?thesis by blast
qed

subsection \<open>What the gauntlet accepts\<close>

text \<open>The two server-side reads of one claim: they agree up to ASCII case, and the identity read wins.\<close>

definition claim_read :: "string option \<Rightarrow> string option \<Rightarrow> string option" where
  "claim_read identity token = (case identity of Some a \<Rightarrow> Some a | None \<Rightarrow> token)"

definition claims_agree :: "string option \<Rightarrow> string option \<Rightarrow> bool" where
  "claims_agree x y \<longleftrightarrow>
    (case (x, y) of (Some a, Some b) \<Rightarrow> eq_ignore_ascii_case a b | _ \<Rightarrow> True)"

lemma merge_claim_Ok: "merge_claim x y = Ok c \<longleftrightarrow> claims_agree x y \<and> c = claim_read x y"
  by (cases x; cases y) (auto simp: claims_agree_def claim_read_def)

lemma merge_claim_no_panic [simp]: "merge_claim x y \<noteq> Panic"
  by (cases x; cases y) auto

lemma verify_audience_and_nonce_Ok:
  "verify_audience_and_nonce K identity idt client nonce = Ok () \<longleftrightarrow>
    (let d = Option.bind idt (decode_id_token_claims K) in
     claims_agree (id_audience identity) (Option.bind d dt_audience) \<and>
     claims_agree (id_nonce identity) (Option.bind d dt_nonce) \<and>
     claim_read (id_audience identity) (Option.bind d dt_audience) = Some client \<and>
     claim_read (id_nonce identity) (Option.bind d dt_nonce) = Some nonce)"
  by (auto simp: verify_audience_and_nonce_def Let_def and_then_eq_Ok merge_claim_Ok split: if_splits)

lemma verify_email_match_Ok:
  "verify_email_match identity account_ref bypass = Ok () \<longleftrightarrow>
    (\<exists>e. id_email identity = Some e \<and> trim e \<noteq> [] \<and> id_email_verified identity \<noteq> Some False \<and>
       (eq_ignore_ascii_case (trim e) account_ref \<or> bypass))"
  by (auto simp: verify_email_match_def and_then_eq_Ok split: option.splits if_splits)

lemma gauntlet_no_panic [simp]:
  "verify_audience_and_nonce K identity idt client nonce \<noteq> Panic"
  "verify_email_match identity account_ref bypass \<noteq> Panic"
  by (auto simp: verify_audience_and_nonce_def verify_email_match_def Let_def ok_or_def
      split: and_then_split option.splits)

text \<open>
  C5.  The gauntlet accepts an identity exactly when the audience and the nonce the provider reports (the
  identity endpoint first, the id_token's claims else, the two agreeing up to case) are this
  deployment's client id and the nonce of the signed state, and its email is present, not reported
  unverified, and the claimed account's unless the declared bypass is on.
\<close>

theorem gauntlet_iff:
  "and_then (verify_audience_and_nonce K identity idt client nonce)
      (\<lambda>_. verify_email_match identity account_ref bypass) = Ok () \<longleftrightarrow>
    (let d = Option.bind idt (decode_id_token_claims K);
         aud = Option.bind d dt_audience; non = Option.bind d dt_nonce in
     claims_agree (id_audience identity) aud \<and> claims_agree (id_nonce identity) non \<and>
     claim_read (id_audience identity) aud = Some client \<and> claim_read (id_nonce identity) non = Some nonce \<and>
     (\<exists>e. id_email identity = Some e \<and> trim e \<noteq> [] \<and> id_email_verified identity \<noteq> Some False \<and>
        (eq_ignore_ascii_case (trim e) account_ref \<or> bypass)))"
  by (simp add: and_then_eq_Ok verify_audience_and_nonce_Ok verify_email_match_Ok Let_def)

end
