(* ===== verification/Oauth_Flow.thy ===== *)
theory Oauth_Flow
  imports Account_Ledger Oauth_Ports Identity_Gauntlet
begin

text \<open>
  The flow of \<open>application/service/integrations_oauth.rs\<close>: building the service, starting an
  authorization, completing it, disconnecting and reading an account.  Random values (the row id, the
  PKCE and nonce bytes) are arguments; the instant an operation reads is the clock of its world at
  that point.
\<close>

subsection \<open>Rows, requests and the service\<close>

record account_row =
  ar_id :: uuid
  ar_provider :: string
  ar_account_ref :: string
  ar_status :: string
  ar_scopes :: string
  ar_expires_at :: "datetime option"
  ar_last_refreshed_at :: "datetime option"

definition row_of :: "account \<Rightarrow> account_row" where
  [oauth_ops]: "row_of r = \<lparr>ar_id = ac_id r, ar_provider = oauth_provider_str (ac_provider r),
     ar_account_ref = ac_ref r, ar_status = account_status_str (ac_status r), ar_scopes = ac_scopes r,
     ar_expires_at = ac_expires_at r, ar_last_refreshed_at = ac_last_refreshed r\<rparr>"

record account_projection =
  as_account_id :: uuid
  as_provider :: string
  as_account_ref :: string
  as_status :: string
  as_scopes :: string
  as_expires_at :: "datetime option"
  as_last_refreshed_at :: "datetime option"

definition account_status_of :: "account_row \<Rightarrow> account_projection" where
  [oauth_ops]: "account_status_of r = \<lparr>as_account_id = ar_id r, as_provider = ar_provider r,
     as_account_ref = ar_account_ref r, as_status = ar_status r, as_scopes = ar_scopes r,
     as_expires_at = ar_expires_at r, as_last_refreshed_at = ar_last_refreshed_at r\<rparr>"

record authorize_request =
  aq_provider :: string
  aq_account_ref :: string
  aq_scopes :: "string option"

record authorize_response =
  ap_account_id :: uuid
  ap_authorize_url :: string
  ap_state_expires_in :: int

record complete_request =
  cq_code :: string
  cq_state :: string

record complete_outcome =
  cm_account_id :: uuid
  cm_provider :: string
  cm_account_ref :: string
  cm_status :: string
  cm_scopes :: string
  cm_expires_at :: datetime

text \<open>The packages the service calls, and whether the request carries an organisation scope.\<close>

record env =
  e_url :: url_lib
  e_chrono :: chrono
  e_codec :: codec
  e_state :: state_codec
  e_scoped :: bool

record 'x service =
  sv_registry :: registry
  sv_endpoints :: "string \<Rightarrow> validated_endpoints option"
  sv_clients :: client_configs
  sv_key :: string
  sv_public_base :: string
  sv_refresh_window :: int
  sv_refresh_batch_size :: int
  sv_shared_mailbox_bypass :: bool
  sv_transport :: "'x world transport_port"
  sv_store :: "'x world store_port"

subsection \<open>build\<close>

definition state_secret :: "(string \<Rightarrow> string option) \<Rightarrow> oauth_config \<Rightarrow> (msg, string) res" where
  [oauth_ops]: "state_secret env_var cfg =
    (let source = trim (cfg_state_secret_source cfg) in
     and_then (ok_or (''oauth.state_secret_source must name an environment variable (env:NAME), got {state_secret_source:?} ''
                        @ [CHR 0xE2, CHR 0x80, CHR 0x94] @ '' a file value is never accepted'', [source])
                (strip_prefix ''env:'' source)) (\<lambda>stripped.
     let var_name = trim stripped in
     if var_name = [] then Err (''oauth.state_secret_source names no variable'', [])
     else and_then (ok_or (''environment variable {var_name} (the OAuth state-signing key) is not set'', [var_name])
                     (env_var var_name)) (\<lambda>secret.
       if length secret < 32 then
         Err (''environment variable {var_name} must hold at least 32 bytes (an HMAC-SHA256 key)'', [var_name])
       else Ok secret)))"

definition public_base :: "oauth_config \<Rightarrow> (msg, string) res" where
  [oauth_ops]: "public_base cfg =
    ok_or (''oauth.public_base is required (the OAuth redirect_uri base)'', [])
      (case cfg_public_base cfg of None \<Rightarrow> None
       | Some raw \<Rightarrow> let s = trim_trailing_slash (trim raw) in if s = [] then None else Some s)"

fun resolve_all ::
  "url_lib \<Rightarrow> registry \<Rightarrow> endpoint_overrides \<Rightarrow> string list \<Rightarrow> (string \<Rightarrow> validated_endpoints option)
    \<Rightarrow> (msg, string \<Rightarrow> validated_endpoints option) res" where
  "resolve_all U r ov [] m = Ok m"
| "resolve_all U r ov (p # ps) m =
    and_then (map_err (\<lambda>e. (''oauth endpoint configuration refused: {e}'', show_invalid_endpoint e))
               (resolve_endpoints U r p ov)) (\<lambda>eps.
    resolve_all U r ov ps (m(p \<mapsto> eps)))"

definition build ::
  "env \<Rightarrow> (string \<Rightarrow> string option) \<Rightarrow> oauth_config \<Rightarrow> 'x world transport_port \<Rightarrow> 'x world store_port
    \<Rightarrow> (msg, 'x service) res" where
  [oauth_ops]: "build E env_var cfg transport store =
    and_then (state_secret env_var cfg) (\<lambda>secret.
    and_then (public_base cfg) (\<lambda>base.
    let registry = registry_with_builtin in
    and_then (resolve_all (e_url E) registry (cfg_endpoints cfg) (registry_providers registry) Map.empty) (\<lambda>endpoints.
    and_then (unwrap_time (duration_seconds (e_chrono E) (max (cfg_refresh_window_seconds cfg) 0))) (\<lambda>window.
    Ok \<lparr>sv_registry = registry, sv_endpoints = endpoints, sv_clients = cfg_clients cfg, sv_key = secret,
        sv_public_base = base, sv_refresh_window = window,
        sv_refresh_batch_size = max (cfg_refresh_batch_size cfg) 1,
        sv_shared_mailbox_bypass = cfg_shared_mailbox_bypass cfg, sv_transport = transport,
        sv_store = store\<rparr>))))"

definition endpoints_for :: "'x service \<Rightarrow> string \<Rightarrow> (oauth_error, validated_endpoints \<times> string) res" where
  [oauth_ops]: "endpoints_for s provider =
    and_then (ok_or (ProviderUnconfigured (''unknown provider {provider:?}'', [provider]))
               (sv_endpoints s provider)) (\<lambda>resolved.
    and_then (ok_or (ProviderUnconfigured (''no OAuth client configured for {provider}'', [provider]))
               (case clients_get (sv_clients s) provider of None \<Rightarrow> None
                | Some c \<Rightarrow> if trim (client_id c) = [] then None else Some (client_id c))) (\<lambda>client.
    Ok (resolved, client)))"

definition redirect_uri :: "'x service \<Rightarrow> string" where
  [oauth_ops]: "redirect_uri s = sv_public_base s @ CALLBACK_PATH"

definition secret_for :: "'x service \<Rightarrow> string \<Rightarrow> string option" where
  [oauth_ops]: "secret_for s provider = Option.bind (clients_get (sv_clients s) provider) client_secret"

subsection \<open>authorize\<close>

text \<open>The transaction: the scope's old row goes, a fresh pending one comes.\<close>

definition authorize_writes ::
  "bool \<Rightarrow> uuid \<Rightarrow> string \<Rightarrow> string \<Rightarrow> string \<Rightarrow> string option \<Rightarrow> 'x world \<Rightarrow> (db_error, unit) res \<times> 'x world" where
  [oauth_ops]: "authorize_writes scoped i provider account_ref scopes verifier w =
    attempt (begin_tx w) (\<lambda>tx w.
    attempt (bind_ambient_org_scope scoped tx w) (\<lambda>tx w.
    attempt (execute_in (delete_scope provider account_ref) tx w) (\<lambda>(_, tx) w.
    attempt (execute_in (insert_pending i provider account_ref scopes verifier) tx w) (\<lambda>(_, tx) w.
    commit tx w))))"

definition requested_scopes :: "provider_adapter \<Rightarrow> string option \<Rightarrow> string" where
  [oauth_ops]: "requested_scopes adapter given =
    (case map_option trim given of
       None \<Rightarrow> default_scopes adapter
     | Some s \<Rightarrow> if s = [] then default_scopes adapter else s)"

definition authorize_pairs ::
  "codec \<Rightarrow> string \<Rightarrow> string \<Rightarrow> string \<Rightarrow> string option \<Rightarrow> string \<Rightarrow> string \<Rightarrow> (string \<times> string) list" where
  [oauth_ops]: "authorize_pairs K client redirect scopes verifier nonce state =
    [(''response_type'', ''code''), (''client_id'', client), (''redirect_uri'', redirect),
     (''scope'', scopes), (''access_type'', ''offline''), (''prompt'', ''consent'')]
    @ (case verifier of None \<Rightarrow> []
       | Some v \<Rightarrow> [(''code_challenge'', pkce_challenge K v), (''code_challenge_method'', ''S256'')])
    @ [(''nonce'', nonce), (''state'', state)]"

definition authorize ::
  "env \<Rightarrow> 'x service \<Rightarrow> string \<Rightarrow> uuid \<Rightarrow> string \<Rightarrow> authorize_request \<Rightarrow> 'x world
    \<Rightarrow> (oauth_error, authorize_response) res \<times> 'x world" where
  [oauth_ops]: "authorize E s verifier_bytes i nonce_bytes req w =
    (let provider = trim (aq_provider req); K = e_codec E in
    attempt (ok_or (Invalid (''unknown provider {provider:?}'', [provider]))
               (registry_lookup (sv_registry s) provider), w) (\<lambda>adapter w.
    attempt (endpoints_for s provider, w) (\<lambda>(endpoints, client) w.
    attempt (ok_or (Invalid (''account_ref must be 3..=120 chars without whitespace'', []))
               (normalize_account_ref (aq_account_ref req)), w) (\<lambda>account_ref w.
    if is_mail_provider provider \<and> \<not> looks_like_email account_ref then
      (Err (Invalid (''account_ref for {provider} must be the mailbox address (a valid email)'', [provider])), w)
    else
    let scopes = requested_scopes adapter (aq_scopes req) in
    if 2048 < length scopes \<or> any_control scopes then
      (Err (Invalid (''scopes must be <= 2048 chars, no control characters'', [])), w)
    else
    let verifier = (if pkce_s256 adapter then Some (mint_pkce_verifier K verifier_bytes) else None) in
    attempt (on_err Db (authorize_writes (e_scoped E) i provider account_ref scopes verifier w)) (\<lambda>_ w.
    let nonce = mint_nonce K nonce_bytes in
    attempt (signer_mint K (e_state E) (sv_key s)
               \<lparr>os_account_id = i, os_provider = provider, os_nonce = nonce,
                os_exp = timestamp (e_chrono E) (clock w) + STATE_TTL_SECONDS\<rparr>, w) (\<lambda>state w.
    attempt (ok_or (Invalid (''authorize endpoint: {e}'', []))
               (parse_url (e_url E) (endpoint_as_str (e_url E) (ep_authorize endpoints))), w) (\<lambda>u w.
    let u = append_pairs (e_url E) (authorize_pairs K client (redirect_uri s) scopes verifier nonce state) u in
    (Ok \<lparr>ap_account_id = i, ap_authorize_url = url_as_str (e_url E) u,
         ap_state_expires_in = STATE_TTL_SECONDS\<rparr>, w))))))))"

subsection \<open>complete\<close>

definition fetch_account :: "uuid \<Rightarrow> 'x world \<Rightarrow> (oauth_error, account_row option) res \<times> 'x world" where
  [oauth_ops]: "fetch_account i w =
    attempt (on_err Db (execute (select_account i) w)) (\<lambda>row w. (Ok (map_option row_of row), w))"

definition show_transport_failure :: "transport_failure \<Rightarrow> msg" where
  [oauth_ops]: "show_transport_failure f =
    (''oauth transport failure ({kind}): '' @ fst (tf_message f),
     transport_failure_kind_str (tf_kind f) # snd (tf_message f))"

definition show_credential_failure :: "credential_failure \<Rightarrow> msg" where
  [oauth_ops]: "show_credential_failure f =
    (''credential store call failed ({code}): '' @ fst (cf_message f), cf_code f # snd (cf_message f))"

text \<open>The checks before the first outbound call: the signed state, its account, the account's status.\<close>

definition complete_account ::
  "env \<Rightarrow> 'x service \<Rightarrow> string \<Rightarrow> 'x world \<Rightarrow> (oauth_error, oauth_state \<times> account_row) res \<times> 'x world" where
  [oauth_ops]: "complete_account E s token w =
    attempt (signer_verify (e_chrono E) (e_codec E) (e_state E) (sv_key s) (clock w) token, w) (\<lambda>state w.
    attempt (fetch_account (os_account_id state) w) (\<lambda>found w.
    attempt (ok_or NotFound found, w) (\<lambda>account w.
    if ar_provider account \<noteq> os_provider state then
      (Err (State (''state provider does not match the account'', [])), w)
    else if ar_status account \<noteq> ''pending'' then
      (Err (State (''account is {} (only a pending authorization can complete)'', [ar_status account])), w)
    else (Ok (state, account), w))))"

text \<open>The PKCE verifier of the pending row.\<close>

definition pending_verifier ::
  "provider_adapter \<Rightarrow> uuid \<Rightarrow> 'x world \<Rightarrow> (oauth_error, string option) res \<times> 'x world" where
  [oauth_ops]: "pending_verifier adapter i w =
    (if pkce_s256 adapter then
       attempt (on_err Db (execute (select_pkce_verifier i) w)) (\<lambda>stored w.
       attempt (ok_or (State (''pending authorization has no PKCE verifier'', []))
                 (case Option.bind stored (\<lambda>v. v) of
                    None \<Rightarrow> None | Some v \<Rightarrow> if v = [] then None else Some v), w) (\<lambda>v w.
       (Ok (Some v), w)))
     else (Ok None, w))"

definition exchange_form ::
  "'x service \<Rightarrow> string \<Rightarrow> string \<Rightarrow> string option \<Rightarrow> string \<Rightarrow> token_request_form" where
  [oauth_ops]: "exchange_form s provider code verifier client =
    \<lparr>tf_grant_type = ''authorization_code'', tf_code = Some code, tf_refresh_token = None,
     tf_redirect_uri = Some (redirect_uri s), tf_code_verifier = verifier, tf_client_id = client,
     tf_client_secret = secret_for s provider, tf_scope = None\<rparr>"

text \<open>The exchange, the honest expiry and the gauntlet: the response, its expiry and the instant it counts from.\<close>

definition complete_exchange ::
  "env \<Rightarrow> 'x service \<Rightarrow> oauth_state \<Rightarrow> account_row \<Rightarrow> string \<Rightarrow> 'x world
    \<Rightarrow> (oauth_error, provider_adapter \<times> token_response \<times> datetime \<times> datetime) res \<times> 'x world" where
  [oauth_ops]: "complete_exchange E s state account code w =
    (let provider = ar_provider account in
    attempt (ok_or (ProviderUnconfigured (''{}'', [provider])) (registry_lookup (sv_registry s) provider), w) (\<lambda>adapter w.
    attempt (endpoints_for s provider, w) (\<lambda>(endpoints, client) w.
    attempt (pending_verifier adapter (os_account_id state) w) (\<lambda>verifier w.
    attempt (on_err (Transport \<circ> show_transport_failure)
      (tp_exchange (sv_transport s) (ep_token endpoints) (exchange_form s provider code verifier client) w)) (\<lambda>response w.
    let now = clock w in
    attempt (expires_at (e_chrono E) response now, w) (\<lambda>expiry w.
    attempt (ok_or (Unstoreable (''provider returned no expires_in; a permanent token is not a storable value'', []))
               expiry, w) (\<lambda>expires w.
    attempt (on_err (Transport \<circ> show_transport_failure)
      (tp_fetch_identity (sv_transport s) (ep_userinfo endpoints) (access_token response) w)) (\<lambda>identity w.
    attempt (verify_audience_and_nonce (e_codec E) identity (id_token response) client (os_nonce state), w) (\<lambda>_ w.
    attempt (verify_email_match identity (ar_account_ref account) (sv_shared_mailbox_bypass s), w) (\<lambda>_ w.
    (Ok (adapter, response, expires, now), w)))))))))))"

text \<open>A response without a refresh token carries the scope's previous one forward, when one is readable.\<close>

definition carried_refresh ::
  "'x service \<Rightarrow> uuid \<Rightarrow> account_row \<Rightarrow> token_response \<Rightarrow> 'x world \<Rightarrow> (oauth_error, string option) res \<times> 'x world" where
  [oauth_ops]: "carried_refresh s company account response w =
    (case refresh_token response of
       Some r \<Rightarrow> (Ok (Some r), w)
     | None \<Rightarrow>
         (case st_read_token (sv_store s) company (ar_provider account) (ar_account_ref account) w of
            (Ok prior, w) \<Rightarrow> (Ok (tb_refresh_token prior), w)
          | (Err _, w) \<Rightarrow> (Ok None, w)
          | (Panic, w) \<Rightarrow> (Panic, w)))"

definition granted_scope :: "provider_adapter \<Rightarrow> token_response \<Rightarrow> string option" where
  [oauth_ops]: "granted_scope adapter response =
    (case scope response of Some sc \<Rightarrow> Some sc | None \<Rightarrow> Some (default_scopes adapter))"

text \<open>The writes: the bundle to the store, then the row from pending to active.\<close>

definition complete_store ::
  "'x service \<Rightarrow> uuid \<Rightarrow> oauth_state \<Rightarrow> account_row \<Rightarrow> provider_adapter \<Rightarrow> token_response \<Rightarrow> datetime
    \<Rightarrow> datetime \<Rightarrow> 'x world \<Rightarrow> (oauth_error, complete_outcome) res \<times> 'x world" where
  [oauth_ops]: "complete_store s company state account adapter response expires now w =
    attempt (carried_refresh s company account response w) (\<lambda>refresh w.
    let bundle = token_bundle_new (access_token response) refresh expires (granted_scope adapter response) in
    attempt (on_err (Store \<circ> show_credential_failure)
      (store_bundle (sv_store s) company (ar_provider account) (ar_account_ref account) bundle expires w)) (\<lambda>_ w.
    let scopes = (case scope response of None \<Rightarrow> [] | Some sc \<Rightarrow> sc) in
    attempt (on_err Db (execute (activate_pending (os_account_id state) scopes expires now) w)) (\<lambda>updated w.
    if updated \<noteq> 1 then (Err (State (''authorization was completed concurrently'', [])), w)
    else (Ok \<lparr>cm_account_id = os_account_id state, cm_provider = ar_provider account,
              cm_account_ref = ar_account_ref account, cm_status = ''active'', cm_scopes = scopes,
              cm_expires_at = expires\<rparr>, w))))"

definition complete ::
  "env \<Rightarrow> 'x service \<Rightarrow> uuid \<Rightarrow> complete_request \<Rightarrow> 'x world \<Rightarrow> (oauth_error, complete_outcome) res \<times> 'x world" where
  [oauth_ops]: "complete E s company req w =
    attempt (complete_account E s (cq_state req) w) (\<lambda>(state, account) w.
    attempt (complete_exchange E s state account (cq_code req) w) (\<lambda>(adapter, response, expires, now) w.
    complete_store s company state account adapter response expires now w))"

subsection \<open>disconnect and status\<close>

definition disconnect ::
  "'x service \<Rightarrow> uuid \<Rightarrow> uuid \<Rightarrow> 'x world \<Rightarrow> (oauth_error, unit) res \<times> 'x world" where
  [oauth_ops]: "disconnect s company i w =
    attempt (fetch_account i w) (\<lambda>found w.
    attempt (ok_or NotFound found, w) (\<lambda>account w.
    if ar_status account = ''revoked'' then (Ok (), w)
    else
    attempt (case st_revoke (sv_store s) company (ar_provider account) (ar_account_ref account) w of
               (Ok _, w) \<Rightarrow> (Ok (), w)
             | (Err f, w) \<Rightarrow>
                 (if cf_code f = CODE_NOT_FOUND then (Ok (), w)
                  else (Err (Store (show_credential_failure f)), w))
             | (Panic, w) \<Rightarrow> (Panic, w)) (\<lambda>_ w.
    attempt (on_err Db (execute (revoke_account i) w)) (\<lambda>_ w. (Ok (), w)))))"

definition status :: "uuid \<Rightarrow> 'x world \<Rightarrow> (oauth_error, account_projection) res \<times> 'x world" where
  [oauth_ops]: "status i w =
    attempt (fetch_account i w) (\<lambda>found w.
    attempt (ok_or NotFound (map_option account_status_of found), w) (\<lambda>a w. (Ok a, w)))"

subsection \<open>Read-only steps\<close>

text \<open>A step that only reads: the tables, what is behind the ports and the clock stay as they are.\<close>

definition reads :: "'x world \<Rightarrow> 'x world \<Rightarrow> bool" where
  "reads w w' \<longleftrightarrow> tables w' = tables w \<and> ext w' = ext w \<and> clock w' = clock w"

named_theorems reading \<open>steps that only read\<close>

lemma reads_refl [reading, simp]: "reads w w"
  by (simp add: reads_def)

lemma reads_attempt [reading]:
  assumes "reads w (snd m)" and "\<And>x w1. m = (Ok x, w1) \<Longrightarrow> reads w w1 \<Longrightarrow> reads w (snd (k x w1))"
  shows "reads w (snd (attempt m k))"
  using assms by (rule attempt_keeps)

lemma reads_on_err [reading]: "reads w (snd r) \<Longrightarrow> reads w (snd (on_err f r))"
  by simp

lemma reads_trans: "reads a b \<Longrightarrow> reads b c \<Longrightarrow> reads a c"
  by (simp add: reads_def)

lemma reads_query:
  assumes "\<And>t d a d'. s t d = Inr (a, d') \<Longrightarrow> d' = d" and "reads w w1"
  shows "reads w (snd (execute s w1))"
  using execute_tables [of s w1] assms by (auto simp: reads_def)

lemma reads_selects [reading]:
  "reads w w1 \<Longrightarrow> reads w (snd (execute (select_account i) w1))"
  "reads w w1 \<Longrightarrow> reads w (snd (execute (select_pkce_verifier i) w1))"
  by (erule reads_query [rotated]; simp add: sql)+

lemma reads_fetch [reading]: "reads w w1 \<Longrightarrow> reads w (snd (fetch_account i w1))"
  unfolding fetch_account_def by (auto intro!: reading)

lemma fetch_account_Ok:
  assumes "fetch_account i w = (Ok found, w')"
  shows "found = map_option row_of (account_by_id i (tables w)) \<and> reads w w'"
proof -
  from assms obtain row where row: "execute (select_account i) w = (Ok row, w')" "found = map_option row_of row"
    by (auto simp: fetch_account_def attempt_eq_Ok on_err_eq_Ok)
  then have "row = account_by_id i (tables w)"
    by (auto dest!: execute_Ok simp: sql)
  with row(2) assms reads_fetch [OF reads_refl, of w i] show ?thesis by simp
qed

lemma reads_complete_account [reading]: "reads w w1 \<Longrightarrow> reads w (snd (complete_account E s token w1))"
  unfolding complete_account_def by (auto intro!: reading)

lemma reads_pending_verifier [reading]: "reads w w1 \<Longrightarrow> reads w (snd (pending_verifier a i w1))"
  unfolding pending_verifier_def by (auto intro!: reading)

lemma complete_account_Ok:
  assumes "complete_account E s token w = (Ok (st, a), w')"
  shows "signer_verify (e_chrono E) (e_codec E) (e_state E) (sv_key s) (clock w) token = Ok st \<and>
    (\<exists>r. account_by_id (os_account_id st) (tables w) = Some r \<and> a = row_of r \<and> ac_status r = Pending \<and>
       oauth_provider_str (ac_provider r) = os_provider st) \<and> reads w w'"
proof -
  from assms obtain found w1 where v: "signer_verify (e_chrono E) (e_codec E) (e_state E) (sv_key s) (clock w) token = Ok st"
    and f: "fetch_account (os_account_id st) w = (Ok found, w1)" and found: "found = Some a"
    and rest: "ar_provider a = os_provider st" "ar_status a = ''pending''" "w' = w1"
    by (auto simp: complete_account_def attempt_eq_Ok split: if_splits)
  from fetch_account_Ok [OF f] found obtain r where r: "account_by_id (os_account_id st) (tables w) = Some r" "a = row_of r"
    by (metis map_option_eq_Some)
  from rest(2) r(2) have "account_status_str (ac_status r) = account_status_str Pending"
    by (simp add: row_of_def)
  then have "ac_status r = Pending" by (simp only: account_status_str_inj)
  with v r rest fetch_account_Ok [OF f] show ?thesis by (auto simp: row_of_def)
qed

lemma pending_verifier_Ok:
  assumes "pending_verifier a i w = (Ok v, w')"
  shows "reads w w' \<and>
    v = (if pkce_s256 a then Option.bind (account_by_id i (tables w)) ac_pkce else None) \<and>
    (pkce_s256 a \<longrightarrow> v \<noteq> None \<and> v \<noteq> Some [])"
proof -
  have "reads w w'" using reads_pending_verifier [OF reads_refl, of w a i] assms by simp
  moreover have "v = Option.bind (account_by_id i (tables w)) ac_pkce \<and> v \<noteq> None \<and> v \<noteq> Some []"
    if "pkce_s256 a"
  proof -
    from assms that obtain stored x where q: "execute (select_pkce_verifier i) w = (Ok stored, w')"
      and x: "Option.bind stored (\<lambda>v. v) = Some x" "x \<noteq> []" "v = Some x"
      by (auto simp: pending_verifier_def attempt_eq_Ok on_err_eq_Ok split: option.splits if_splits)
    from execute_Ok [OF q] have "stored = map_option ac_pkce (account_by_id i (tables w))"
      by (auto simp: sql)
    with x show ?thesis by (cases "account_by_id i (tables w)") auto
  qed
  moreover have "v = None" if "\<not> pkce_s256 a"
    using assms that by (simp add: pending_verifier_def)
  ultimately show ?thesis by auto
qed

subsection \<open>A completion, step by step\<close>

lemma expires_at_Some:
  assumes "expires_at C r now = Ok (Some t)" and "chrono_laws C"
  shows "\<exists>secs > 0. expires_in r = Some secs \<and> t = now + micros secs"
  using assms chrono_lawsD [OF assms(2)]
  by (auto simp: expires_at_def and_then_eq_Ok split: option.splits if_splits)

lemma complete_exchange_Ok:
  assumes "complete_exchange E s st a code w = (Ok (adapter, resp, expires, now), w')"
  shows "\<exists>eps client verifier w1 w2 ident.
    registry_lookup (sv_registry s) (ar_provider a) = Some adapter \<and>
    endpoints_for s (ar_provider a) = Ok (eps, client) \<and>
    pending_verifier adapter (os_account_id st) w = (Ok verifier, w1) \<and>
    tp_exchange (sv_transport s) (ep_token eps) (exchange_form s (ar_provider a) code verifier client) w1
      = (Ok resp, w2) \<and>
    now = clock w2 \<and> (expires_at (e_chrono E) resp now :: (oauth_error, _) res) = Ok (Some expires) \<and>
    tp_fetch_identity (sv_transport s) (ep_userinfo eps) (access_token resp) w2 = (Ok ident, w') \<and>
    verify_audience_and_nonce (e_codec E) ident (id_token resp) client (os_nonce st) = Ok () \<and>
    verify_email_match ident (ar_account_ref a) (sv_shared_mailbox_bypass s) = Ok ()"
  using assms
  by (auto simp: complete_exchange_def attempt_eq_Ok on_err_eq_Ok Let_def split: prod.splits)

lemma activate_one:
  assumes "execute (activate_pending i sc e now) w = (Ok 1, w')"
  shows "\<exists>r \<in> set (accounts (tables w')). ac_id r = i \<and> ac_status r = Active \<and> ac_scopes r = sc \<and>
    ac_expires_at r = Some e \<and> ac_last_refreshed r = Some now \<and> ac_pkce r = None"
proof -
  let ?hit = "\<lambda>r. ac_id r = i \<and> ac_status r = Pending"
  let ?f = "\<lambda>r. r\<lparr>ac_status := Active, ac_scopes := sc, ac_expires_at := Some e, ac_last_refreshed := Some now,
    ac_pkce := None, ac_metadata := touch (clock w) (ac_metadata r)\<rparr>"
  have upd: "activate_pending i sc e now (clock w) (tables w) = Inr (1, tables w')"
    using execute_Ok [OF assms] .
  then have "rows_affected ?hit (accounts (tables w)) = 1"
    by (simp add: activate_pending_def update_accounts_Inr)
  then obtain r where r: "r \<in> set (accounts (tables w))" "?hit r"
    by (metis (mono_tags, lifting) filter_False list.size(3) rows_affected_def zero_neq_one)
  have acc: "accounts (tables w') = update_where ?hit ?f (accounts (tables w))"
    using upd by (simp add: activate_pending_def update_accounts_Inr)
  have mem: "?f r \<in> set (accounts (tables w'))"
    unfolding acc by (rule update_where_hit [where p = ?hit, OF r])
  show ?thesis
    by (rule bexI [OF _ mem]) (use r(2) in simp)
qed

lemma complete_store_Ok:
  assumes "complete_store s c st a adapter resp e now w = (Ok out, w')"
  shows "\<exists>refresh w1 w2 scopes. carried_refresh s c a resp w = (Ok refresh, w1) \<and>
    store_bundle (sv_store s) c (ar_provider a) (ar_account_ref a)
      (token_bundle_new (access_token resp) refresh e (granted_scope adapter resp)) e w1 = (Ok (), w2) \<and>
    execute (activate_pending (os_account_id st) scopes e now) w2 = (Ok 1, w') \<and>
    scopes = (case scope resp of None \<Rightarrow> [] | Some sc \<Rightarrow> sc) \<and>
    out = \<lparr>cm_account_id = os_account_id st, cm_provider = ar_provider a, cm_account_ref = ar_account_ref a,
           cm_status = ''active'', cm_scopes = scopes, cm_expires_at = e\<rparr>"
  using assms
  by (auto simp: complete_store_def attempt_eq_Ok on_err_eq_Ok Let_def split: if_splits)

text \<open>
  C3.  An account becomes connected only through the whole gauntlet.  When a completion succeeds, the state
  it was given verified under the signing key before its expiry and named a pending account of the
  same provider; the code went to that provider's token endpoint with the verifier stored on the row;
  the provider's answer carried a positive lifetime; the identity it reported passed the audience,
  nonce and email checks against the client, the state and the account; the response's token was
  stored under the expiry counted from the answer; and the row now is active with that expiry and no
  verifier.
\<close>

theorem complete_Ok:
  assumes "complete E s company req w = (Ok out, w')" and "chrono_laws (e_chrono E)"
  shows "\<exists>st r adapter eps client verifier resp ident secs refresh w1 w2 w3 w4 w5.
    signer_verify (e_chrono E) (e_codec E) (e_state E) (sv_key s) (clock w) (cq_state req) = Ok st \<and>
    account_by_id (os_account_id st) (tables w) = Some r \<and> ac_status r = Pending \<and>
    oauth_provider_str (ac_provider r) = os_provider st \<and>
    registry_lookup (sv_registry s) (os_provider st) = Some adapter \<and>
    endpoints_for s (os_provider st) = Ok (eps, client) \<and>
    verifier = (if pkce_s256 adapter then ac_pkce r else None) \<and> (pkce_s256 adapter \<longrightarrow> verifier \<noteq> None) \<and>
    reads w w1 \<and>
    tp_exchange (sv_transport s) (ep_token eps) (exchange_form s (os_provider st) (cq_code req) verifier client) w1
      = (Ok resp, w2) \<and>
    expires_in resp = Some secs \<and> 0 < secs \<and> cm_expires_at out = clock w2 + micros secs \<and>
    tp_fetch_identity (sv_transport s) (ep_userinfo eps) (access_token resp) w2 = (Ok ident, w3) \<and>
    verify_audience_and_nonce (e_codec E) ident (id_token resp) client (os_nonce st) = Ok () \<and>
    verify_email_match ident (ac_ref r) (sv_shared_mailbox_bypass s) = Ok () \<and>
    carried_refresh s company (row_of r) resp w3 = (Ok refresh, w4) \<and>
    store_bundle (sv_store s) company (os_provider st) (ac_ref r)
      (token_bundle_new (access_token resp) refresh (cm_expires_at out) (granted_scope adapter resp))
      (cm_expires_at out) w4 = (Ok (), w5) \<and>
    (\<exists>r' \<in> set (accounts (tables w')). ac_id r' = os_account_id st \<and> ac_status r' = Active \<and>
       ac_expires_at r' = Some (cm_expires_at out) \<and> ac_pkce r' = None)"
proof -
  from assms(1) obtain st a adapter resp e now u1 u2 where
    acc: "complete_account E s (cq_state req) w = (Ok (st, a), u1)" and
    exc: "complete_exchange E s st a (cq_code req) u1 = (Ok (adapter, resp, e, now), u2)" and
    sto: "complete_store s company st a adapter resp e now u2 = (Ok out, w')"
    by (auto simp: complete_def attempt_eq_Ok split: prod.splits)
  from complete_account_Ok [OF acc] obtain r where
    v: "signer_verify (e_chrono E) (e_codec E) (e_state E) (sv_key s) (clock w) (cq_state req) = Ok st" and
    r: "account_by_id (os_account_id st) (tables w) = Some r" "ac_status r = Pending"
      "oauth_provider_str (ac_provider r) = os_provider st" and a: "a = row_of r" and u1: "reads w u1"
    by blast
  have pa: "ar_provider a = os_provider st" "ar_account_ref a = ac_ref r"
    using a r(3) by (simp_all add: row_of_def)
  from complete_exchange_Ok [OF exc] obtain eps client verifier w1 w2 ident where
    x: "registry_lookup (sv_registry s) (os_provider st) = Some adapter"
      "endpoints_for s (os_provider st) = Ok (eps, client)"
      "pending_verifier adapter (os_account_id st) u1 = (Ok verifier, w1)"
      "tp_exchange (sv_transport s) (ep_token eps)
        (exchange_form s (os_provider st) (cq_code req) verifier client) w1 = (Ok resp, w2)"
      "now = clock w2" "(expires_at (e_chrono E) resp now :: (oauth_error, _) res) = Ok (Some e)"
      "tp_fetch_identity (sv_transport s) (ep_userinfo eps) (access_token resp) w2 = (Ok ident, u2)"
      "verify_audience_and_nonce (e_codec E) ident (id_token resp) client (os_nonce st) = Ok ()"
      "verify_email_match ident (ac_ref r) (sv_shared_mailbox_bypass s) = Ok ()"
    unfolding pa by blast
  from expires_at_Some [OF x(6) assms(2)] x(5) obtain secs where
    secs: "expires_in resp = Some secs" "0 < secs" "e = clock w2 + micros secs" by blast
  from complete_store_Ok [OF sto] obtain refresh w4 w5 scopes where
    y: "carried_refresh s company (row_of r) resp u2 = (Ok refresh, w4)"
      "store_bundle (sv_store s) company (os_provider st) (ac_ref r)
        (token_bundle_new (access_token resp) refresh e (granted_scope adapter resp)) e w4 = (Ok (), w5)"
      "execute (activate_pending (os_account_id st) scopes e now) w5 = (Ok 1, w')" "cm_expires_at out = e"
    unfolding pa a [symmetric] by auto
  have ver: "reads w w1" "verifier = (if pkce_s256 adapter then ac_pkce r else None)"
    "pkce_s256 adapter \<longrightarrow> verifier \<noteq> None"
    using pending_verifier_Ok [OF x(3)] u1 r(1) by (auto intro: reads_trans simp: reads_def split: if_splits)
  have row: "\<exists>r' \<in> set (accounts (tables w')). ac_id r' = os_account_id st \<and> ac_status r' = Active \<and>
       ac_expires_at r' = Some e \<and> ac_pkce r' = None"
    using activate_one [OF y(3)] by blast
  show ?thesis
    unfolding y(4)
    using v r x(1,2,4,7-9) ver secs y(1,2) row by blast
qed

subsection \<open>A concrete deployment\<close>

text \<open>
  The in-memory store behind the port, one Gmail client, a provider that answers every exchange with
  the given response and every identity read with the given claims.
\<close>

definition lift_call :: "('s \<Rightarrow> 'r \<times> 's) \<Rightarrow> 's world \<Rightarrow> 'r \<times> 's world" where
  "lift_call f w = (case f (ext w) of (r, s) \<Rightarrow> (r, w\<lparr>ext := s\<rparr>))"

definition lifted_store :: "fake_store world store_port" where
  "lifted_store =
    \<lparr>st_issue = (\<lambda>c p a q b e. lift_call (fake_issue c p a q b e)),
     st_read_token = (\<lambda>c p a. lift_call (fake_read_token c p a)),
     st_rotate = (\<lambda>c p a b e. lift_call (fake_rotate c p a b e)),
     st_revoke = (\<lambda>c p a. lift_call (fake_revoke c p a))\<rparr>"

definition answering :: "(transport_failure, token_response) res \<Rightarrow> identity_claims \<Rightarrow> 'w transport_port" where
  "answering r ident = \<lparr>tp_exchange = (\<lambda>_ _ w. (r, w)), tp_fetch_identity = (\<lambda>_ _ w. (Ok ident, w))\<rparr>"

definition demo_url :: url where
  "demo_url = \<lparr>scheme = ''https'', username = [], password = None, host_str = Some ''oauth2.googleapis.com'',
     port = None, path = ''/token'', query = None, fragment = None\<rparr>"

definition demo_endpoints :: validated_endpoints where
  "demo_endpoints =
    \<lparr>ep_authorize = \<lparr>provider_key = ''gmail'', ve_key = Authorize, ve_url = demo_url\<rparr>,
     ep_token = \<lparr>provider_key = ''gmail'', ve_key = Token, ve_url = demo_url\<rparr>,
     ep_userinfo = \<lparr>provider_key = ''gmail'', ve_key = Userinfo, ve_url = demo_url\<rparr>\<rparr>"

definition demo_env :: env where
  "demo_env = \<lparr>e_url = plain_url_lib, e_chrono = ranged_chrono, e_codec = hex_codec,
     e_state = demo_codec_state, e_scoped = False\<rparr>"

definition demo_service :: "(transport_failure, token_response) res \<Rightarrow> identity_claims \<Rightarrow> fake_store service" where
  "demo_service r ident =
    \<lparr>sv_registry = registry_with_builtin, sv_endpoints = [''gmail'' \<mapsto> demo_endpoints],
     sv_clients = [(''gmail'', \<lparr>client_id = ''id'', client_secret = None\<rparr>)], sv_key = ''key'',
     sv_public_base = ''https://api'', sv_refresh_window = micros 600, sv_refresh_batch_size = 2,
     sv_shared_mailbox_bypass = False, sv_transport = answering r ident, sv_store = lifted_store\<rparr>"

definition demo_identity :: identity_claims where
  "demo_identity = \<lparr>id_sub = None, id_email = Some ''a@b.c'', id_email_verified = Some True,
     id_audience = Some ''id'', id_nonce = Some ''n''\<rparr>"

definition demo_account :: "account_status \<Rightarrow> datetime option \<Rightarrow> account" where
  "demo_account st e = \<lparr>ac_id = 7, ac_provider = Gmail, ac_ref = ''a@b.c'', ac_status = st, ac_scopes = [],
     ac_pkce = (if st = Pending then Some ''v'' else None), ac_expires_at = e, ac_last_refreshed = None,
     ac_metadata = default_audit\<rparr>"

definition demo_world :: "account list \<Rightarrow> bool list \<Rightarrow> fake_store world" where
  "demo_world rows fs = \<lparr>tables = \<lparr>accounts = rows, connectors = [], events = [], outbox = []\<rparr>, clock = 0,
     locked = [], faults = fs, ext = demo_store\<rparr>"

definition demo_request :: complete_request where
  "demo_request = \<lparr>cq_code = ''c'', cq_state = demo_state_token\<rparr>"

lemmas demo_defs = demo_env_def demo_service_def answering_def demo_identity_def demo_account_def
  demo_world_def demo_request_def lifted_store_def lift_call_def demo_store_def

lemma demo_endpoints_for [simp]: "endpoints_for (demo_service r ident) ''gmail'' = Ok (demo_endpoints, ''id'')"
proof -
  have "trim ''id'' = ''id''" by (rule trim_printable) (simp add: printable_def byte_def)
  then show ?thesis
    by (simp add: endpoints_for_def demo_service_def clients_get_def btree_get_def)
qed

lemma demo_lookup [simp]: "registry_lookup (sv_registry (demo_service r ident)) ''gmail'' = Some GMAIL_ADAPTER"
  by (simp add: demo_service_def registry_builtin_lookup)

lemma demo_complete_account:
  assumes "w = demo_world [demo_account Pending None] fs" and "\<not> (fs \<noteq> [] \<and> hd fs)"
  shows "complete_account demo_env (demo_service r ident) demo_state_token w
    = (Ok (demo_state, row_of (demo_account Pending None)), w\<lparr>faults := tl fs\<rparr>)"
proof -
  have v: "signer_verify (e_chrono demo_env) (e_codec demo_env) (e_state demo_env)
      (sv_key (demo_service r ident)) 0 demo_state_token = Ok demo_state"
    using demo_state_verifies by (simp add: demo_env_def demo_service_def)
  show ?thesis
    using assms(2)
    by (cases fs) (simp_all add: complete_account_def v fetch_account_def execute_def round_trip_def sql
        account_by_id_def demo_state_def demo_world_def demo_account_def assms(1) row_of_def)
qed

lemma demo_expires: "expires_at ranged_chrono demo_token 0 = Ok (Some (micros 3600))"
  by (simp add: expires_at_def demo_token_def ranged_chrono_def calendar_def micros_def)

lemma demo_complete_exchange:
  assumes "w = demo_world [demo_account Pending None] fs" and "\<not> (fs \<noteq> [] \<and> hd fs)"
  shows "complete_exchange demo_env (demo_service (Ok demo_token) demo_identity) demo_state
      (row_of (demo_account Pending None)) ''c'' w
    = (Ok (GMAIL_ADAPTER, demo_token, micros 3600, 0), w\<lparr>faults := tl fs\<rparr>)"
proof -
  have pv: "pending_verifier GMAIL_ADAPTER 7 w = (Ok (Some ''v''), w\<lparr>faults := tl fs\<rparr>)"
    using assms(2)
    by (cases fs) (simp_all add: pending_verifier_def GMAIL_ADAPTER_def execute_def round_trip_def sql
        account_by_id_def demo_world_def demo_account_def assms(1))
  have g: "verify_audience_and_nonce K demo_identity (id_token demo_token) ''id'' ''n'' = Ok ()" for K
    by (simp add: verify_audience_and_nonce_Ok demo_identity_def demo_token_def claims_agree_def claim_read_def Let_def)
  have "trim ''a@b.c'' = ''a@b.c''" by (rule trim_printable) (simp add: printable_def byte_def)
  then have m: "verify_email_match demo_identity ''a@b.c'' False = Ok ()"
    by (simp add: verify_email_match_Ok demo_identity_def)
  show ?thesis
    using pv g m
    by (simp add: complete_exchange_def row_of_def demo_account_def demo_state_def demo_env_def assms(1)
        demo_world_def)
      (simp add: demo_service_def answering_def demo_expires)
qed

lemma demo_store_bundle:
  assumes "ext w = demo_store"
  shows "\<exists>w'. store_bundle lifted_store 1 ''gmail'' ''a@b.c'' b e w = (Ok (), w') \<and>
    tables w' = tables w \<and> faults w' = faults w \<and> clock w' = clock w \<and>
    fake_active (ext w') = [(1, ''gmail'', ''a@b.c'') \<mapsto> b\<lparr>tb_expires_at := e\<rparr>]"
  using assms rows_active_append [of "[]"]
  by (simp add: store_bundle_def lifted_store_def lift_call_def fake_verbs demo_store_def active_row_index_def
      fake_active_def rows_active_def fun_eq_iff)

lemma demo_complete:
  "\<exists>out w'. complete demo_env (demo_service (Ok demo_token) demo_identity) 1 demo_request
      (demo_world [demo_account Pending None] []) = (Ok out, w') \<and> cm_expires_at out = micros 3600"
proof -
  let ?s = "demo_service (Ok demo_token) demo_identity"
  let ?w = "demo_world [demo_account Pending None] []"
  let ?a = "row_of (demo_account Pending None)"
  have acc: "complete_account demo_env ?s demo_state_token ?w = (Ok (demo_state, ?a), ?w)"
    using demo_complete_account [of ?w "[]"] by (simp add: demo_world_def)
  have exc: "complete_exchange demo_env ?s demo_state ?a ''c'' ?w
      = (Ok (GMAIL_ADAPTER, demo_token, micros 3600, 0), ?w)"
    using demo_complete_exchange [of ?w "[]"] by (simp add: demo_world_def)
  have car: "carried_refresh ?s 1 ?a demo_token ?w = (Ok (Some ''rt''), ?w)"
    by (simp add: carried_refresh_def demo_token_def)
  have ra: "ar_provider ?a = ''gmail''" "ar_account_ref ?a = ''a@b.c''" "sv_store ?s = lifted_store"
    by (simp_all add: row_of_def demo_account_def demo_service_def)
  obtain w' where st: "store_bundle lifted_store 1 ''gmail'' ''a@b.c''
      (token_bundle_new (access_token demo_token) (Some ''rt'') (micros 3600) (granted_scope GMAIL_ADAPTER demo_token))
      (micros 3600) ?w = (Ok (), w')" "tables w' = tables ?w" "faults w' = []"
    using demo_store_bundle [of ?w] by (auto simp: demo_world_def)
  have up: "execute (activate_pending 7 [] (micros 3600) 0) w' =
      (Ok 1, w'\<lparr>tables := snd (projr (activate_pending 7 [] (micros 3600) 0 (clock w') (tables ?w)))\<rparr>)"
    using st(2,3)
    by (simp add: no_fault_calls activate_pending_def update_accounts_def rows_affected_def demo_world_def
        demo_account_def)
  have "complete demo_env ?s 1 demo_request ?w = complete_store ?s 1 demo_state ?a GMAIL_ADAPTER demo_token
      (micros 3600) 0 ?w"
    using acc exc by (simp add: complete_def demo_request_def)
  moreover have "\<exists>out w''. complete_store ?s 1 demo_state ?a GMAIL_ADAPTER demo_token (micros 3600) 0 ?w = (Ok out, w'')
      \<and> cm_expires_at out = micros 3600"
    using car st(1) up ra by (simp add: complete_store_def demo_token_def demo_state_def)
  ultimately show ?thesis by simp
qed

theorem complete_Ok_witness:
  "\<exists>out w'. complete demo_env (demo_service (Ok demo_token) demo_identity) 1 demo_request
      (demo_world [demo_account Pending None] []) = (Ok out, w') \<and> cm_expires_at out = micros 3600 \<and>
    (\<exists>r' \<in> set (accounts (tables w')). ac_status r' = Active \<and> ac_expires_at r' = Some (micros 3600))"
proof -
  obtain out w' where c: "complete demo_env (demo_service (Ok demo_token) demo_identity) 1 demo_request
      (demo_world [demo_account Pending None] []) = (Ok out, w')" "cm_expires_at out = micros 3600"
    using demo_complete by blast
  have "chrono_laws (e_chrono demo_env)" by (simp add: demo_env_def ranged_chrono_laws)
  from complete_Ok [OF c(1) this] c show ?thesis by metis
qed

end
