(* ===== verification/Refresh_Job.thy ===== *)
theory Refresh_Job
  imports Oauth_Flow
begin

text \<open>
  The scheduled refresh job, \<open>infrastructure/jobs/refresh_oauth_credentials.rs\<close>: the sweep over the due
  accounts of one credential-store scope, the refresh of one claimed account inside its transaction, and
  the fan-out over the scopes the host names.
\<close>

named_theorems job_ops \<open>definitions of the refresh job\<close>

record refresh_schedule =
  rs_refresh_window_seconds :: int
  rs_refresh_batch_size :: int

definition default_schedule :: refresh_schedule where
  "default_schedule = \<lparr>rs_refresh_window_seconds = 600, rs_refresh_batch_size = 100\<rparr>"

record refresh_report =
  rp_refreshed :: nat
  rp_expired :: nat
  rp_skipped :: nat

definition empty_report :: refresh_report where
  "empty_report = \<lparr>rp_refreshed = 0, rp_expired = 0, rp_skipped = 0\<rparr>"

record due_account =
  da_id :: uuid
  da_provider :: string
  da_account_ref :: string

text \<open>The arguments a run is called with, and the packages it uses.\<close>

record 'x job =
  jb_env :: env
  jb_registry :: registry
  jb_overrides :: endpoint_overrides
  jb_clients :: client_configs
  jb_store :: "'x world store_port"
  jb_transport :: "'x world transport_port"
  jb_schedule :: refresh_schedule

definition refresh_form :: "string \<Rightarrow> string option \<Rightarrow> string \<Rightarrow> token_request_form" where
  [job_ops]: "refresh_form client secret rt =
    \<lparr>tf_grant_type = ''refresh_token'', tf_code = None, tf_refresh_token = Some rt, tf_redirect_uri = None,
     tf_code_verifier = None, tf_client_id = client, tf_client_secret = secret, tf_scope = None\<rparr>"

text \<open>\<open>expire_account\<close>: the unguarded update, committed.\<close>

definition expire_account :: "tx \<Rightarrow> uuid \<Rightarrow> 'x world \<Rightarrow> (db_error, unit) res \<times> 'x world" where
  [job_ops]: "expire_account tx i w =
    attempt (execute_in (job_expire i) tx w) (\<lambda>(_, tx) w. commit tx w)"

text \<open>The two ends every early exit of \<open>refresh_one\<close> shares.\<close>

definition job_expired ::
  "tx \<Rightarrow> uuid \<Rightarrow> refresh_report \<Rightarrow> 'x world \<Rightarrow> (db_error, refresh_report) res \<times> 'x world" where
  [job_ops]: "job_expired tx i rep w =
    attempt (expire_account tx i w) (\<lambda>_ w. (Ok (rep\<lparr>rp_expired := rp_expired rep + 1\<rparr>), w))"

definition job_skipped ::
  "tx \<Rightarrow> refresh_report \<Rightarrow> 'x world \<Rightarrow> (db_error, refresh_report) res \<times> 'x world" where
  [job_ops]: "job_skipped tx rep w =
    attempt (rollback tx w) (\<lambda>_ w. (Ok (rep\<lparr>rp_skipped := rp_skipped rep + 1\<rparr>), w))"

definition job_successor :: "token_response \<Rightarrow> token_bundle \<Rightarrow> datetime \<Rightarrow> token_bundle" where
  [job_ops]: "job_successor response bundle expires =
    token_bundle_new (access_token response)
      (case refresh_token response of Some r \<Rightarrow> Some r | None \<Rightarrow> tb_refresh_token bundle)
      expires
      (case scope response of Some sc \<Rightarrow> Some sc | None \<Rightarrow> tb_scope bundle)"

text \<open>The mirror: exactly one row, or the account is rolled back and left due.\<close>

definition job_mirrored ::
  "tx \<Rightarrow> uuid \<Rightarrow> datetime \<Rightarrow> refresh_report \<Rightarrow> 'x world \<Rightarrow> (db_error, refresh_report) res \<times> 'x world" where
  [job_ops]: "job_mirrored tx i expires rep w =
    attempt (execute_in (job_mirror i expires) tx w) (\<lambda>(rows, tx) w.
    if rows \<noteq> 1 then job_skipped tx rep w
    else attempt (commit tx w) (\<lambda>_ w. (Ok (rep\<lparr>rp_refreshed := rp_refreshed rep + 1\<rparr>), w)))"

definition job_store ::
  "'x job \<Rightarrow> tx \<Rightarrow> uuid \<Rightarrow> due_account \<Rightarrow> token_bundle \<Rightarrow> token_response \<Rightarrow> datetime \<Rightarrow> refresh_report \<Rightarrow> 'x world
    \<Rightarrow> (db_error, refresh_report) res \<times> 'x world" where
  [job_ops]: "job_store J tx company a bundle response expires rep w =
    (case st_rotate (jb_store J) company (da_provider a) (da_account_ref a)
            (job_successor response bundle expires) expires w of
       (Ok _, w) \<Rightarrow> job_mirrored tx (da_id a) expires rep w
     | (Err e, w) \<Rightarrow> if is_transport e then job_skipped tx rep w else job_expired tx (da_id a) rep w
     | (Panic, w) \<Rightarrow> (Panic, w))"

definition job_exchange ::
  "'x job \<Rightarrow> tx \<Rightarrow> uuid \<Rightarrow> due_account \<Rightarrow> validated_endpoints \<Rightarrow> client_config \<Rightarrow> token_bundle \<Rightarrow> string
    \<Rightarrow> refresh_report \<Rightarrow> 'x world \<Rightarrow> (db_error, refresh_report) res \<times> 'x world" where
  [job_ops]: "job_exchange J tx company a endpoints client bundle rt rep w =
    (let now = clock w in
     case tp_exchange (jb_transport J) (ep_token endpoints)
            (refresh_form (client_id client) (client_secret client) rt) w of
       (Err e, w) \<Rightarrow>
         if tf_kind e = InvalidGrant then job_expired tx (da_id a) rep w else job_skipped tx rep w
     | (Ok response, w) \<Rightarrow>
         attempt (expires_at (e_chrono (jb_env J)) response now, w) (\<lambda>expiry w.
         case expiry of
           None \<Rightarrow> job_skipped tx rep w
         | Some expires \<Rightarrow> job_store J tx company a bundle response expires rep w)
     | (Panic, w) \<Rightarrow> (Panic, w))"

definition refresh_one ::
  "'x job \<Rightarrow> tx \<Rightarrow> uuid \<Rightarrow> due_account \<Rightarrow> refresh_report \<Rightarrow> 'x world
    \<Rightarrow> (db_error, refresh_report) res \<times> 'x world" where
  [job_ops]: "refresh_one J tx company a rep w =
    (case resolve_endpoints (e_url (jb_env J)) (jb_registry J) (da_provider a) (jb_overrides J) of
       Ok endpoints \<Rightarrow>
         (case clients_get (jb_clients J) (da_provider a) of
            None \<Rightarrow> job_skipped tx rep w
          | Some client \<Rightarrow>
              (case st_read_token (jb_store J) company (da_provider a) (da_account_ref a) w of
                 (Err e, w) \<Rightarrow>
                   if is_transport e then job_skipped tx rep w else job_expired tx (da_id a) rep w
               | (Ok bundle, w) \<Rightarrow>
                   (case tb_refresh_token bundle of
                      None \<Rightarrow> job_expired tx (da_id a) rep w
                    | Some rt \<Rightarrow> job_exchange J tx company a endpoints client bundle rt rep w)
               | (Panic, w) \<Rightarrow> (Panic, w)))
     | Err _ \<Rightarrow> job_skipped tx rep w
     | Panic \<Rightarrow> (Panic, w))"

definition claimed_account :: "account \<Rightarrow> due_account" where
  "claimed_account r = \<lparr>da_id = ac_id r, da_provider = oauth_provider_str (ac_provider r), da_account_ref = ac_ref r\<rparr>"

text \<open>
  The sweep.  It returns its two local variables: the accounts it attempted, the last one first, and the
  report.
\<close>

fun job_loop ::
  "'x job \<Rightarrow> uuid \<Rightarrow> nat \<Rightarrow> uuid list \<Rightarrow> refresh_report \<Rightarrow> 'x world
    \<Rightarrow> (db_error, uuid list \<times> refresh_report) res \<times> 'x world" where
  "job_loop J company 0 attempted rep w = (Ok (attempted, rep), w)"
| "job_loop J company (Suc n) attempted rep w =
    attempt (begin_tx w) (\<lambda>tx w.
    attempt (bind_ambient_org_scope (e_scoped (jb_env J)) tx w) (\<lambda>tx w.
    attempt (execute_in
      (claim_due_excluding (rs_refresh_window_seconds (jb_schedule J)) attempted (locked w)) tx w) (\<lambda>(claimed, tx) w.
    case claimed of
      None \<Rightarrow> attempt (rollback tx w) (\<lambda>_ w. (Ok (attempted, rep), w))
    | Some r \<Rightarrow>
        attempt (refresh_one J tx company (claimed_account r) rep w)
          (\<lambda>rep w. job_loop J company n (ac_id r # attempted) rep w))))"

definition job_run ::
  "'x job \<Rightarrow> uuid \<Rightarrow> 'x world \<Rightarrow> (db_error, uuid list \<times> refresh_report) res \<times> 'x world" where
  [job_ops]: "job_run J company w =
    job_loop J company (nat (rs_refresh_batch_size (jb_schedule J))) [] empty_report w"

definition refresh_oauth_credentials ::
  "'x job \<Rightarrow> uuid \<Rightarrow> 'x world \<Rightarrow> (db_error, refresh_report) res \<times> 'x world" where
  [job_ops]: "refresh_oauth_credentials J company w =
    attempt (job_run J company w) (\<lambda>(_, rep) w. (Ok rep, w))"

text \<open>The fan-out: one result per scope, an error stopping nothing; a panic unwinds through it.\<close>

fun refresh_for_companies ::
  "'x job \<Rightarrow> uuid list \<Rightarrow> 'x world \<Rightarrow> (db_error, (uuid \<times> (db_error + refresh_report)) list) res \<times> 'x world" where
  "refresh_for_companies J [] w = (Ok [], w)"
| "refresh_for_companies J (c # cs) w =
    (case refresh_oauth_credentials J c w of
       (Panic, w) \<Rightarrow> (Panic, w)
     | (Err e, w) \<Rightarrow> attempt (refresh_for_companies J cs w) (\<lambda>out w. (Ok ((c, Inl e) # out), w))
     | (Ok rep, w) \<Rightarrow> attempt (refresh_for_companies J cs w) (\<lambda>out w. (Ok ((c, Inr rep) # out), w)))"

end
