(* ===== verification/Refresh.thy ===== *)
theory Refresh
  imports Oauth_Flow
begin

text \<open>
  Refresh-before-expiry in \<open>application/service/integrations_oauth.rs\<close>: refreshing one claimed account
  inside its transaction, the sweep over the due accounts, and the request-path lazy refresh.  The
  claim's transaction is the buffer \<open>tx\<close>; an error that leaves it drops the buffer.
\<close>

named_theorems refresh_ops \<open>definitions of the refresh operations\<close>

record refresh_summary =
  sm_refreshed :: nat
  sm_resynced :: nat
  sm_expired :: nat
  sm_failures :: nat

definition empty_summary :: refresh_summary where
  [refresh_ops]: "empty_summary = \<lparr>sm_refreshed = 0, sm_resynced = 0, sm_expired = 0, sm_failures = 0\<rparr>"

text \<open>The transaction's one statement, then its commit, then the counter.\<close>

definition finish_with ::
  "nat stmt \<Rightarrow> tx \<Rightarrow> refresh_summary \<Rightarrow> 'x world \<Rightarrow> (oauth_error, refresh_summary) res \<times> 'x world" where
  [refresh_ops]: "finish_with stmt tx sm w =
    attempt (on_err Db (execute_in stmt tx w)) (\<lambda>(_, tx) w.
    attempt (on_err Db (commit tx w)) (\<lambda>_ w. (Ok sm, w)))"

definition refresh_expire ::
  "uuid \<Rightarrow> tx \<Rightarrow> refresh_summary \<Rightarrow> 'x world \<Rightarrow> (oauth_error, refresh_summary) res \<times> 'x world" where
  [refresh_ops]: "refresh_expire i tx sm w =
    finish_with (expire_active i) tx (sm\<lparr>sm_expired := sm_expired sm + 1\<rparr>) w"

definition refresh_left_due ::
  "tx \<Rightarrow> refresh_summary \<Rightarrow> 'x world \<Rightarrow> (oauth_error, refresh_summary) res \<times> 'x world" where
  [refresh_ops]: "refresh_left_due tx sm w =
    attempt (on_err Db (rollback tx w)) (\<lambda>_ w. (Ok (sm\<lparr>sm_failures := sm_failures sm + 1\<rparr>), w))"

definition refresh_grant_form :: "'x service \<Rightarrow> string \<Rightarrow> string \<Rightarrow> string \<Rightarrow> token_request_form" where
  [refresh_ops]: "refresh_grant_form s provider client rt =
    \<lparr>tf_grant_type = ''refresh_token'', tf_code = None, tf_refresh_token = Some rt, tf_redirect_uri = None,
     tf_code_verifier = None, tf_client_id = client, tf_client_secret = secret_for s provider, tf_scope = None\<rparr>"

text \<open>The successor bundle: what the response omits is carried over from the prior one.\<close>

definition successor_bundle :: "token_response \<Rightarrow> token_bundle \<Rightarrow> datetime \<Rightarrow> token_bundle" where
  [refresh_ops]: "successor_bundle response prior expires =
    token_bundle_new (access_token response)
      (case refresh_token response of Some r \<Rightarrow> Some r | None \<Rightarrow> tb_refresh_token prior)
      expires
      (case scope response of Some sc \<Rightarrow> Some sc | None \<Rightarrow> tb_scope prior)"

definition refresh_store ::
  "'x service \<Rightarrow> tx \<Rightarrow> uuid \<Rightarrow> uuid \<Rightarrow> string \<Rightarrow> string \<Rightarrow> token_bundle \<Rightarrow> token_response \<Rightarrow> datetime \<Rightarrow> datetime
    \<Rightarrow> refresh_summary \<Rightarrow> 'x world \<Rightarrow> (oauth_error, refresh_summary) res \<times> 'x world" where
  [refresh_ops]: "refresh_store s tx company i provider account_ref prior response expires now sm w =
    (let bundle = successor_bundle response prior expires in
    attempt (on_err (Store \<circ> show_credential_failure)
      (st_rotate (sv_store s) company provider account_ref bundle expires w)) (\<lambda>_ w.
    finish_with (mirror_refreshed i expires (tb_scope bundle) now) tx
      (sm\<lparr>sm_refreshed := sm_refreshed sm + 1\<rparr>) w))"

definition refresh_exchange ::
  "env \<Rightarrow> 'x service \<Rightarrow> tx \<Rightarrow> uuid \<Rightarrow> uuid \<Rightarrow> string \<Rightarrow> string \<Rightarrow> token_bundle \<Rightarrow> string
    \<Rightarrow> refresh_summary \<Rightarrow> 'x world \<Rightarrow> (oauth_error, refresh_summary) res \<times> 'x world" where
  [refresh_ops]: "refresh_exchange E s tx company i provider account_ref prior rt sm w =
    (case endpoints_for s provider of
       Ok (endpoints, client) \<Rightarrow>
         (case tp_exchange (sv_transport s) (ep_token endpoints) (refresh_grant_form s provider client rt) w of
            (Panic, w) \<Rightarrow> (Panic, w)
          | (Err f, w) \<Rightarrow>
              if is_invalid_grant f then refresh_expire i tx sm w else refresh_left_due tx sm w
          | (Ok response, w) \<Rightarrow>
              let now = clock w in
              attempt (expires_at (e_chrono E) response now, w) (\<lambda>expiry w.
              case expiry of
                None \<Rightarrow> refresh_left_due tx sm w
              | Some expires \<Rightarrow>
                  refresh_store s tx company i provider account_ref prior response expires now sm w))
     | _ \<Rightarrow> refresh_left_due tx sm w)"

definition refresh_claimed ::
  "env \<Rightarrow> 'x service \<Rightarrow> tx \<Rightarrow> uuid \<Rightarrow> uuid \<Rightarrow> string \<Rightarrow> string \<Rightarrow> refresh_summary \<Rightarrow> 'x world
    \<Rightarrow> (oauth_error, refresh_summary) res \<times> 'x world" where
  [refresh_ops]: "refresh_claimed E s tx company i provider account_ref sm w =
    (case st_read_token (sv_store s) company provider account_ref w of
       (Panic, w) \<Rightarrow> (Panic, w)
     | (Err f, w) \<Rightarrow>
         if cf_code f = CODE_NOT_FOUND \<or> cf_code f = CODE_NOT_ACTIVE \<or> cf_code f = CODE_EXPIRED
         then refresh_expire i tx sm w else refresh_left_due tx sm w
     | (Ok prior, w) \<Rightarrow>
         attempt (unwrap_time (minus_duration (e_chrono E) (tb_expires_at prior) (sv_refresh_window s)), w) (\<lambda>t w.
         if clock w \<le> t then
           finish_with (mirror_expiry i (tb_expires_at prior)) tx (sm\<lparr>sm_resynced := sm_resynced sm + 1\<rparr>) w
         else (case tb_refresh_token prior of
             None \<Rightarrow> refresh_expire i tx sm w
           | Some rt \<Rightarrow> refresh_exchange E s tx company i provider account_ref prior rt sm w)))"

fun refresh_loop ::
  "env \<Rightarrow> 'x service \<Rightarrow> uuid \<Rightarrow> nat \<Rightarrow> refresh_summary \<Rightarrow> 'x world
    \<Rightarrow> (oauth_error, refresh_summary) res \<times> 'x world" where
  "refresh_loop E s company 0 sm w = (Ok sm, w)"
| "refresh_loop E s company (Suc n) sm w =
    attempt (on_err Db (begin_tx w)) (\<lambda>tx w.
    attempt (on_err Db (bind_ambient_org_scope (e_scoped E) tx w)) (\<lambda>tx w.
    attempt (on_err Db (execute_in
      (claim_due (num_seconds (e_chrono E) (sv_refresh_window s)) (locked w)) tx w)) (\<lambda>(claimed, tx) w.
    case claimed of
      None \<Rightarrow> attempt (on_err Db (commit tx w)) (\<lambda>_ w. (Ok sm, w))
    | Some r \<Rightarrow>
        attempt (refresh_claimed E s tx company (ac_id r) (oauth_provider_str (ac_provider r)) (ac_ref r) sm w)
          (\<lambda>sm w. refresh_loop E s company n sm w))))"

definition refresh_due ::
  "env \<Rightarrow> 'x service \<Rightarrow> uuid \<Rightarrow> 'x world \<Rightarrow> (oauth_error, refresh_summary) res \<times> 'x world" where
  [refresh_ops]: "refresh_due E s company w =
    refresh_loop E s company (nat (sv_refresh_batch_size s)) empty_summary w"

definition lazy_refresh ::
  "env \<Rightarrow> 'x service \<Rightarrow> uuid \<Rightarrow> uuid \<Rightarrow> 'x world \<Rightarrow> (oauth_error, unit) res \<times> 'x world" where
  [refresh_ops]: "lazy_refresh E s company i w =
    attempt (on_err Db (begin_tx w)) (\<lambda>tx w.
    attempt (on_err Db (bind_ambient_org_scope (e_scoped E) tx w)) (\<lambda>tx w.
    attempt (on_err Db (execute_in (claim_active i (locked w)) tx w)) (\<lambda>(claimed, tx) w.
    case claimed of
      None \<Rightarrow> on_err Db (commit tx w)
    | Some r \<Rightarrow>
        attempt (refresh_claimed E s tx company (ac_id r) (oauth_provider_str (ac_provider r)) (ac_ref r)
                   empty_summary w) (\<lambda>_ w. (Ok (), w)))))"

definition ensure_fresh ::
  "env \<Rightarrow> 'x service \<Rightarrow> uuid \<Rightarrow> uuid \<Rightarrow> 'x world \<Rightarrow> (oauth_error, account_projection) res \<times> 'x world" where
  [refresh_ops]: "ensure_fresh E s company i w =
    attempt (fetch_account i w) (\<lambda>found w.
    attempt (ok_or NotFound found, w) (\<lambda>account w.
    if ar_status account \<noteq> ''active'' then (Ok (account_status_of account), w)
    else
    attempt (case ar_expires_at account of
               None \<Rightarrow> (Ok False, w)
             | Some e \<Rightarrow>
                 (and_then (unwrap_time (minus_duration (e_chrono E) e (sv_refresh_window s)))
                    (\<lambda>t. Ok (t < clock w)), w)) (\<lambda>is_due w.
    attempt (if is_due then lazy_refresh E s company i w else (Ok (), w)) (\<lambda>_ w.
    status i w))))"

end
