(* ===== verification/Account_Work.thy ===== *)
theory Account_Work
  imports Refresh
begin

text \<open>
  What an operation of the OAuth service keeps when its statements, its ports and the tasks that run while
  they are awaited all keep it: the interface between the statements on the account table and the
  operations built from them, and the operations' proofs against it.
\<close>

text \<open>Ports, and a transaction's buffer, that keep a guarantee on the tables.\<close>

definition store_keeps :: "(db \<Rightarrow> db \<Rightarrow> bool) \<Rightarrow> 'x world store_port \<Rightarrow> bool" where
  "store_keeps G S \<longleftrightarrow>
    (\<forall>c p a q b e w. G (tables w) (tables (snd (st_issue S c p a q b e w)))) \<and>
    (\<forall>c p a w. G (tables w) (tables (snd (st_read_token S c p a w)))) \<and>
    (\<forall>c p a b e w. G (tables w) (tables (snd (st_rotate S c p a b e w)))) \<and>
    (\<forall>c p a w. G (tables w) (tables (snd (st_revoke S c p a w))))"

definition transport_keeps :: "(db \<Rightarrow> db \<Rightarrow> bool) \<Rightarrow> 'x world transport_port \<Rightarrow> bool" where
  "transport_keeps G T \<longleftrightarrow>
    (\<forall>e f w. G (tables w) (tables (snd (tp_exchange T e f w)))) \<and>
    (\<forall>e t w. G (tables w) (tables (snd (tp_fetch_identity T e t w))))"

definition ports_keep :: "(db \<Rightarrow> db \<Rightarrow> bool) \<Rightarrow> 'x service \<Rightarrow> bool" where
  "ports_keep G s \<longleftrightarrow> store_keeps G (sv_store s) \<and> transport_keeps G (sv_transport s)"

definition tx_keeps :: "(db \<Rightarrow> db \<Rightarrow> bool) \<Rightarrow> tx \<Rightarrow> bool" where
  "tx_keeps G t \<longleftrightarrow> (\<forall>d. G d (t d))"

named_theorems stepping \<open>steps that keep the guarantee\<close>

locale account_work = table_guarantee G for G :: "db \<Rightarrow> db \<Rightarrow> bool" +
  fixes fresh :: "uuid \<Rightarrow> bool"
  assumes delete_scope_moves: "delete_scope p a t d = Inr (n, d') \<Longrightarrow> G d d'"
    and insert_pending_moves: "insert_pending i p a s v t d = Inr (u, d') \<Longrightarrow> fresh i \<Longrightarrow> G d d'"
    and activate_moves: "activate_pending i s e now t d = Inr (n, d') \<Longrightarrow> G d d'"
    and revoke_moves: "revoke_account i t d = Inr (n, d') \<Longrightarrow> G d d'"
    and expire_moves: "expire_active i t d = Inr (n, d') \<Longrightarrow> G d d'"
    and mirror_expiry_moves: "mirror_expiry i e t d = Inr (n, d') \<Longrightarrow> G d d'"
    and mirror_refreshed_moves: "mirror_refreshed i e sc now t d = Inr (n, d') \<Longrightarrow> G d d'"
begin

declare stay [simp]

lemma step_attempt [stepping]:
  assumes "G d (tables (snd m))"
    and "\<And>x w. m = (Ok x, w) \<Longrightarrow> G d (tables w) \<Longrightarrow> G d (tables (snd (k x w)))"
  shows "G d (tables (snd (attempt m k)))"
  using assms by (rule attempt_link)

lemma step_on_err [stepping]:
  "G d (tables (snd r)) \<Longrightarrow> G d (tables (snd (on_err f r)))"
  by simp

lemma step_reads:
  assumes "G d (tables w)" and "reads w w'"
  shows "G d (tables w')"
  using assms by (simp add: reads_def)

lemma step_reading [stepping]:
  assumes "G d (tables w)"
  shows "G d (tables (snd (fetch_account i w)))"
    and "G d (tables (snd (complete_account E s t w)))"
    and "G d (tables (snd (pending_verifier a i w)))"
    and "G d (tables (snd (begin_tx w)))"
    and "G d (tables (snd (bind_ambient_org_scope sc tx w)))"
    and "G d (tables (snd (execute_in st tx w)))"
    and "G d (tables (snd (rollback tx w)))"
  using assms reads_fetch [OF reads_refl, of w i] reads_complete_account [OF reads_refl, of w E s t]
    reads_pending_verifier [OF reads_refl, of w a i]
  by (simp_all add: reads_def)

lemma step_statements [stepping]:
  assumes "G d (tables w)"
  shows "G d (tables (snd (execute (activate_pending i sc e now) w)))"
    and "G d (tables (snd (execute (revoke_account i) w)))"
  by (rule execute_keeps [OF assms], erule activate_moves)
    (rule execute_keeps [OF assms], erule revoke_moves)

lemma step_ports [stepping]:
  assumes "ports_keep G s" and "G d (tables w)"
  shows "G d (tables (snd (tp_exchange (sv_transport s) e f w)))"
    and "G d (tables (snd (tp_fetch_identity (sv_transport s) e t w)))"
    and "G d (tables (snd (st_issue (sv_store s) c p a q b x w)))"
    and "G d (tables (snd (st_read_token (sv_store s) c p a w)))"
    and "G d (tables (snd (st_rotate (sv_store s) c p a b x w)))"
    and "G d (tables (snd (st_revoke (sv_store s) c p a w)))"
  using assms port_keeps [OF assms(2)]
  unfolding ports_keep_def store_keeps_def transport_keeps_def by metis+

lemma step_store_bundle [stepping]:
  assumes "ports_keep G s" and "G d (tables w)"
  shows "G d (tables (snd (store_bundle (sv_store s) c p a b e w)))"
proof -
  obtain r w1 where i: "st_issue (sv_store s) c p a PURPOSE_OAUTH_TOKEN b e w = (r, w1)" by fastforce
  have "G d (tables w1)"
    using step_ports(3) [OF assms, of c p a PURPOSE_OAUTH_TOKEN b e] i by simp
  then show ?thesis
    using assms(1) i by (auto simp: store_bundle_def split: res.split intro!: stepping)
qed

lemma step_carried [stepping]:
  assumes "ports_keep G s" and "G d (tables w)"
  shows "G d (tables (snd (carried_refresh s c a resp w)))"
  using step_ports(4) [OF assms, of c "ar_provider a" "ar_account_ref a"] assms(2)
  by (auto simp: carried_refresh_def split: option.split prod.split res.split)

lemma step_complete:
  assumes "ports_keep G s" and "G d (tables w)"
  shows "G d (tables (snd (complete E s c req w)))"
  unfolding complete_def complete_exchange_def complete_store_def Let_def
  using assms by (auto intro!: stepping split: prod.split)

lemma step_disconnect:
  assumes "ports_keep G s" and "G d (tables w)"
  shows "G d (tables (snd (disconnect s c i w)))"
proof -
  have rev: "G d (tables (snd (case st_revoke (sv_store s) c p a w1 of
        (Ok u, w2) \<Rightarrow> (Ok (), w2)
      | (Err f, w2) \<Rightarrow> if cf_code f = CODE_NOT_FOUND then (Ok (), w2) else (Err (g f), w2)
      | (Panic, w2) \<Rightarrow> (Panic, w2))))" if "G d (tables w1)" for p a w1 g
    using step_ports(6) [OF assms(1) that, of c p a] by (auto split: prod.split res.split)
  show ?thesis
    unfolding disconnect_def using assms rev by (auto intro!: stepping)
qed

text \<open>A transaction whose statements keep the guarantee keeps it when it commits.\<close>

lemma tx_keeps_begin: "begin_tx w = (Ok t, w') \<Longrightarrow> tx_keeps G t"
  by (auto dest!: begin_tx_Ok simp: tx_keeps_def)

lemma tx_keeps_bind: "bind_ambient_org_scope b t w = (Ok t', w') \<Longrightarrow> tx_keeps G t \<Longrightarrow> tx_keeps G t'"
  by (auto dest!: bind_scope_Ok)

lemma tx_keeps_execute:
  assumes "execute_in s t w = (Ok (a, t'), w')" and "tx_keeps G t"
    and "\<And>d x d'. s (clock w) d = Inr (x, d') \<Longrightarrow> G d d'"
  shows "tx_keeps G t'"
  unfolding tx_keeps_def
proof
  fix d
  have t': "t' d = (case s (clock w) (t d) of Inl _ \<Rightarrow> t d | Inr (_, d') \<Rightarrow> d')"
    using execute_in_Ok [OF assms(1)] by simp
  show "G d (t' d)"
  proof (cases "s (clock w) (t d)")
    case (Inl e)
    with assms(2) show ?thesis by (simp add: t' tx_keeps_def)
  next
    case (Inr p)
    obtain x d' where p: "p = (x, d')" by fastforce
    have "G d (t d)" using assms(2) by (simp add: tx_keeps_def)
    moreover have "G (t d) d'" using assms(3) Inr p by blast
    ultimately show ?thesis unfolding t' using join Inr p by simp
  qed
qed

lemma step_commit:
  assumes "tx_keeps G t" and "G d (tables w)"
  shows "G d (tables (snd (commit t w)))"
  by (rule commit_keeps [OF assms(2)]) (use assms(1) in \<open>simp add: tx_keeps_def\<close>)

lemma step_authorize_writes:
  assumes "fresh i" and "G d (tables w)"
  shows "G d (tables (snd (authorize_writes sc i p a scopes v w)))"
  unfolding authorize_writes_def
proof (rule step_attempt)
  show "G d (tables (snd (begin_tx w)))" using assms(2) by (rule stepping)
  fix t1 w1 assume "begin_tx w = (Ok t1, w1)" and 1: "G d (tables w1)"
  then have t1: "tx_keeps G t1" by (simp add: tx_keeps_begin)
  show "G d (tables (snd (attempt (bind_ambient_org_scope sc t1 w1) (\<lambda>tx w.
      attempt (execute_in (delete_scope p a) tx w) (\<lambda>(_, tx) w.
      attempt (execute_in (insert_pending i p a scopes v) tx w) (\<lambda>(_, tx) w. commit tx w))))))"
  proof (rule step_attempt, rule stepping, rule 1)
    fix t2 w2 assume "bind_ambient_org_scope sc t1 w1 = (Ok t2, w2)" and 2: "G d (tables w2)"
    then have t2: "tx_keeps G t2" using tx_keeps_bind t1 by blast
    show "G d (tables (snd (attempt (execute_in (delete_scope p a) t2 w2) (\<lambda>(_, tx) w.
        attempt (execute_in (insert_pending i p a scopes v) tx w) (\<lambda>(_, tx) w. commit tx w)))))"
    proof (rule step_attempt, rule stepping, rule 2, clarsimp)
      fix n t3 w3 assume s3: "execute_in (delete_scope p a) t2 w2 = (Ok (n, t3), w3)"
        and 3: "G d (tables w3)"
      have t3: "tx_keeps G t3" by (rule tx_keeps_execute [OF s3 t2]) (erule delete_scope_moves)
      show "G d (tables (snd (attempt (execute_in (insert_pending i p a scopes v) t3 w3)
          (\<lambda>(_, tx) w. commit tx w))))"
      proof (rule step_attempt, rule stepping, rule 3, clarsimp)
        fix t4 w4 assume s4: "execute_in (insert_pending i p a scopes v) t3 w3 = (Ok ((), t4), w4)"
          and 4: "G d (tables w4)"
        have "tx_keeps G t4"
          by (rule tx_keeps_execute [OF s4 t3]) (erule insert_pending_moves, rule assms(1))
        with 4 show "G d (tables (snd (commit t4 w4)))" by (simp add: step_commit)
      qed
    qed
  qed
qed

lemma step_authorize:
  assumes "fresh i" and "G d (tables w)"
  shows "G d (tables (snd (authorize E s vb i nb req w)))"
  unfolding authorize_def Let_def
  using assms by (auto intro!: stepping step_authorize_writes split: prod.split)

lemma step_finish:
  assumes "tx_keeps G tx" and "G d (tables w)"
    and "\<And>t d x d'. stmt t d = Inr (x, d') \<Longrightarrow> G d d'"
  shows "G d (tables (snd (finish_with stmt tx sm w)))"
  unfolding finish_with_def
proof (rule step_attempt)
  show "G d (tables (snd (on_err Db (execute_in stmt tx w))))"
    using assms(2) by simp
  fix x w1 assume ok: "on_err Db (execute_in stmt tx w) = (Ok x, w1)" and 1: "G d (tables w1)"
  obtain n tx' where x: "x = (n, tx')" by fastforce
  have "execute_in stmt tx w = (Ok (n, tx'), w1)" using ok x by (simp add: on_err_eq_Ok)
  then have "tx_keeps G tx'" by (rule tx_keeps_execute [OF _ assms(1)]) (rule assms(3))
  with 1 show "G d (tables (snd ((case x of (_, tx) \<Rightarrow> \<lambda>w.
      attempt (on_err Db (commit tx w)) (\<lambda>_ w. (Ok sm, w))) w1)))"
    by (auto simp: x intro!: stepping step_commit)
qed

lemma step_expire:
  "tx_keeps G tx \<Longrightarrow> G d (tables w) \<Longrightarrow> G d (tables (snd (refresh_expire i tx sm w)))"
  unfolding refresh_expire_def by (rule step_finish) (auto dest: expire_moves)

lemma step_left_due:
  "G d (tables w) \<Longrightarrow> G d (tables (snd (refresh_left_due tx sm w)))"
  unfolding refresh_left_due_def by (auto intro!: stepping)

lemma step_refresh_store:
  assumes "ports_keep G s" and "tx_keeps G tx" and "G d (tables w)"
  shows "G d (tables (snd (refresh_store s tx c i p a prior resp e now sm w)))"
  unfolding refresh_store_def Let_def
proof (rule step_attempt)
  show "G d (tables (snd (on_err (Store \<circ> show_credential_failure)
      (st_rotate (sv_store s) c p a (successor_bundle resp prior e) e w))))"
    using assms by (auto intro!: stepping)
qed (rule step_finish [OF assms(2)], auto dest: mirror_refreshed_moves)

lemma step_refresh_exchange:
  assumes "ports_keep G s" and "tx_keeps G tx" and "G d (tables w)"
  shows "G d (tables (snd (refresh_exchange E s tx c i p a prior rt sm w)))"
proof -
  have x: "G d (tables w1)" if "tp_exchange (sv_transport s) e f w = (r, w1)" for e f r w1
    using step_ports(1) [OF assms(1,3), of e f] that by simp
  show ?thesis
    unfolding refresh_exchange_def Let_def
    using assms
    by (auto split: res.split prod.split option.split
        intro!: step_left_due step_expire step_refresh_store step_attempt dest: x)
qed

lemma step_refresh_claimed:
  assumes "ports_keep G s" and "tx_keeps G tx" and "G d (tables w)"
  shows "G d (tables (snd (refresh_claimed E s tx c i p a sm w)))"
proof -
  have x: "G d (tables w1)" if "st_read_token (sv_store s) c p a w = (r, w1)" for r w1
    using step_ports(4) [OF assms(1,3), of c p a] that by simp
  show ?thesis
    unfolding refresh_claimed_def
    using assms
    by (auto split: res.split prod.split option.split
        intro!: step_left_due step_expire step_refresh_exchange step_attempt step_finish
        dest: x mirror_expiry_moves)
qed

lemma claim_reads:
  "execute_in (claim_due wd held) tx w = (Ok (c, tx'), w') \<Longrightarrow> tx_keeps G tx \<Longrightarrow> tx_keeps G tx'"
  "execute_in (claim_active i held) tx w = (Ok (c, tx'), w') \<Longrightarrow> tx_keeps G tx \<Longrightarrow> tx_keeps G tx'"
  by (erule tx_keeps_execute; auto dest: select_step)+

text \<open>The three calls that open a claim.\<close>

lemma step_claim:
  assumes "G d (tables w)"
    and "\<And>held t d x d'. claim held t d = Inr (x, d') \<Longrightarrow> d' = d"
    and "\<And>c tx w. tx_keeps G tx \<Longrightarrow> G d (tables w) \<Longrightarrow> G d (tables (snd (k c tx w)))"
  shows "G d (tables (snd (attempt (on_err Db (begin_tx w)) (\<lambda>tx w.
    attempt (on_err Db (bind_ambient_org_scope sc tx w)) (\<lambda>tx w.
    attempt (on_err Db (execute_in (claim (locked w)) tx w)) (\<lambda>(c, tx) w. k c tx w))))))"
proof (rule step_attempt)
  show "G d (tables (snd (on_err Db (begin_tx w))))" using assms(1) by (simp add: stepping)
  fix t1 w1 assume "on_err Db (begin_tx w) = (Ok t1, w1)" and 1: "G d (tables w1)"
  then have t1: "tx_keeps G t1" by (auto simp: on_err_eq_Ok dest: tx_keeps_begin)
  show "G d (tables (snd (attempt (on_err Db (bind_ambient_org_scope sc t1 w1)) (\<lambda>tx w.
    attempt (on_err Db (execute_in (claim (locked w)) tx w)) (\<lambda>(c, tx) w. k c tx w)))))"
  proof (rule step_attempt)
    show "G d (tables (snd (on_err Db (bind_ambient_org_scope sc t1 w1))))" using 1 by (simp add: stepping)
    fix t2 w2 assume "on_err Db (bind_ambient_org_scope sc t1 w1) = (Ok t2, w2)" and 2: "G d (tables w2)"
    then have t2: "tx_keeps G t2" using t1 by (auto simp: on_err_eq_Ok dest: tx_keeps_bind)
    show "G d (tables (snd (attempt (on_err Db (execute_in (claim (locked w2)) t2 w2)) (\<lambda>(c, tx) w. k c tx w))))"
    proof (rule step_attempt)
      show "G d (tables (snd (on_err Db (execute_in (claim (locked w2)) t2 w2))))" using 2 by (simp add: stepping)
      fix x w3 assume x: "on_err Db (execute_in (claim (locked w2)) t2 w2) = (Ok x, w3)" and 3: "G d (tables w3)"
      obtain c t3 where c: "x = (c, t3)" by fastforce
      have e: "execute_in (claim (locked w2)) t2 w2 = (Ok (c, t3), w3)" using x c by (simp add: on_err_eq_Ok)
      have "tx_keeps G t3"
        by (rule tx_keeps_execute [OF e t2]) (use assms(2) in \<open>metis stay\<close>)
      with 3 assms(3) show "G d (tables (snd ((case x of (c, tx) \<Rightarrow> \<lambda>w. k c tx w) w3)))"
        by (simp add: c)
    qed
  qed
qed

lemma step_refresh_loop:
  "ports_keep G s \<Longrightarrow> G d (tables w) \<Longrightarrow>
    G d (tables (snd (refresh_loop E s c n sm w)))"
proof (induction n arbitrary: sm w)
  case (Suc n)
  show ?case
    unfolding refresh_loop.simps
    by (rule step_claim)
      (use Suc in \<open>auto split: option.split dest: select_step intro!: stepping step_commit step_attempt
        step_refresh_claimed\<close>)
qed simp

lemma step_refresh_due:
  "ports_keep G s \<Longrightarrow> G d (tables w) \<Longrightarrow> G d (tables (snd (refresh_due E s c w)))"
  unfolding refresh_due_def by (rule step_refresh_loop)

lemma step_lazy_refresh:
  assumes "ports_keep G s" and "G d (tables w)"
  shows "G d (tables (snd (lazy_refresh E s c i w)))"
  unfolding lazy_refresh_def
  by (rule step_claim)
    (use assms in \<open>auto split: option.split dest: select_step intro!: stepping step_commit step_attempt
      step_refresh_claimed\<close>)

lemma step_status: "G d (tables w) \<Longrightarrow> G d (tables (snd (status i w)))"
  unfolding status_def by (auto intro!: stepping)

lemma step_ensure_fresh:
  assumes "ports_keep G s" and "G d (tables w)"
  shows "G d (tables (snd (ensure_fresh E s c i w)))"
  unfolding ensure_fresh_def
  using assms by (auto split: option.split intro!: stepping step_lazy_refresh step_status)

end

interpretation life: account_work "accounts_step U" "\<lambda>i. i \<notin> U" for U
  by unfold_locales (erule delete_scope_step insert_pending_step activate_step revoke_step expire_step
      mirror_expiry_step mirror_refreshed_step; assumption?)+

end
