(* ===== verification/Oauth_Safety.thy ===== *)
theory Oauth_Safety
  imports Account_Work
begin

text \<open>
  What the OAuth operations guarantee: rejected completions write nothing, a state completes once, every
  operation moves the account rows along their lifecycle only, an authorization leaves one fresh
  pending row, and a disconnect revokes.
\<close>

subsection \<open>Quiet calls\<close>

text \<open>
  A step that leaves the tables, and what \<open>obs\<close> observes behind the ports, as they were.  The completion
  needs it of the transport, of a store read and of a refused store write.
\<close>

definition calm :: "('x \<Rightarrow> 'o) \<Rightarrow> 'x world \<Rightarrow> 'x world \<Rightarrow> bool" where
  "calm obs w w' \<longleftrightarrow> tables w' = tables w \<and> obs (ext w') = obs (ext w)"

definition quiet_ports :: "('x \<Rightarrow> 'o) \<Rightarrow> 'x service \<Rightarrow> bool" where
  "quiet_ports obs s \<longleftrightarrow>
    (\<forall>e f w. calm obs w (snd (tp_exchange (sv_transport s) e f w))) \<and>
    (\<forall>e t w. calm obs w (snd (tp_fetch_identity (sv_transport s) e t w))) \<and>
    (\<forall>c p a w. calm obs w (snd (st_read_token (sv_store s) c p a w))) \<and>
    (\<forall>c p a q b e w. tables (snd (st_issue (sv_store s) c p a q b e w)) = tables w) \<and>
    (\<forall>c p a b e w. tables (snd (st_rotate (sv_store s) c p a b e w)) = tables w) \<and>
    (\<forall>c p a q b e w f w'. st_issue (sv_store s) c p a q b e w = (Err f, w') \<longrightarrow> obs (ext w') = obs (ext w)) \<and>
    (\<forall>c p a b e w f w'. st_rotate (sv_store s) c p a b e w = (Err f, w') \<longrightarrow> obs (ext w') = obs (ext w))"

named_theorems calming \<open>steps that are calm\<close>

lemma calm_refl [calming, simp]: "calm obs w w"
  by (simp add: calm_def)

lemma calm_trans: "calm obs a b \<Longrightarrow> calm obs b c \<Longrightarrow> calm obs a c"
  by (simp add: calm_def)

lemma reads_calm: "reads w w' \<Longrightarrow> calm obs w w'"
  by (simp add: reads_def calm_def)

lemma calm_attempt [calming]:
  assumes "calm obs w (snd m)" and "\<And>x w1. m = (Ok x, w1) \<Longrightarrow> calm obs w w1 \<Longrightarrow> calm obs w (snd (k x w1))"
  shows "calm obs w (snd (attempt m k))"
  using assms by (rule attempt_keeps)

lemma calm_on_err [calming]: "calm obs w (snd r) \<Longrightarrow> calm obs w (snd (on_err f r))"
  by simp

lemma calm_account [calming]: "calm obs w w1 \<Longrightarrow> calm obs w (snd (complete_account E s t w1))"
  using reads_complete_account [OF reads_refl] reads_calm calm_trans by metis

lemma calm_verifier [calming]: "calm obs w w1 \<Longrightarrow> calm obs w (snd (pending_verifier a i w1))"
  using reads_pending_verifier [OF reads_refl] reads_calm calm_trans by metis

lemma calm_transport [calming]:
  assumes "quiet_ports obs s" and "calm obs w w1"
  shows "calm obs w (snd (tp_exchange (sv_transport s) e f w1))"
    and "calm obs w (snd (tp_fetch_identity (sv_transport s) e t w1))"
    and "calm obs w (snd (st_read_token (sv_store s) c p a w1))"
  using assms calm_trans unfolding quiet_ports_def by metis+

lemma calm_exchange:
  assumes "quiet_ports obs s" and "calm obs w w1"
  shows "calm obs w (snd (complete_exchange E s st a code w1))"
  unfolding complete_exchange_def Let_def
  using assms by (auto intro!: calming split: prod.split)

lemma calm_carried [calming]:
  assumes "quiet_ports obs s" and "calm obs w w1"
  shows "calm obs w (snd (carried_refresh s c a resp w1))"
  using calm_transport(3) [OF assms, of c "ar_provider a" "ar_account_ref a"] assms(2)
  by (auto simp: carried_refresh_def split: option.split prod.split res.split)

lemma store_bundle_tables:
  assumes "quiet_ports obs s"
  shows "tables (snd (store_bundle (sv_store s) c p a b e w)) = tables w"
proof -
  have i: "tables (snd (st_issue (sv_store s) c p a PURPOSE_OAUTH_TOKEN b e w)) = tables w"
    and r: "\<And>w. tables (snd (st_rotate (sv_store s) c p a b e w)) = tables w"
    using assms by (simp_all add: quiet_ports_def)
  have rt: "tables (snd (attempt (st_rotate (sv_store s) c p a b e w1) (\<lambda>_ w. (Ok (), w)))) = tables w1" for w1
    by (rule attempt_keeps [where I = "\<lambda>w. tables w = tables w1"]) (use r in auto)
  show ?thesis
    using i rt by (auto simp: store_bundle_def split: prod.split res.split)
qed

lemma store_bundle_Err_calm:
  assumes "quiet_ports obs s" and "store_bundle (sv_store s) c p a b e w = (Err f, w')"
  shows "calm obs w w'"
proof -
  obtain r w1 where i: "st_issue (sv_store s) c p a PURPOSE_OAUTH_TOKEN b e w = (r, w1)" by fastforce
  then obtain g where r: "r = Err g" using assms(2) by (cases r) (auto simp: store_bundle_def)
  have q: "obs (ext w1) = obs (ext w)" using assms(1) i r unfolding quiet_ports_def by blast
  have t: "tables w' = tables w" using store_bundle_tables [OF assms(1)] assms(2) by (metis snd_conv)
  show ?thesis
  proof (cases "cf_code g = CODE_DUPLICATE_ACTIVE")
    case True
    obtain r2 w2 where r2: "st_rotate (sv_store s) c p a b e w1 = (r2, w2)" by fastforce
    with assms(2) True i r have "r2 = Err f" "w2 = w'" by (cases r2; simp add: store_bundle_def)+
    with r2 assms(1) have "obs (ext w') = obs (ext w1)" unfolding quiet_ports_def by blast
    with q t show ?thesis by (simp add: calm_def)
  next
    case False
    with assms(2) i r q t show ?thesis by (simp add: store_bundle_def calm_def)
  qed
qed

subsection \<open>A rejected completion writes nothing\<close>

definition completed_concurrently :: oauth_error where
  "completed_concurrently = State (''authorization was completed concurrently'', [])"

lemma activate_miss:
  assumes "execute (activate_pending i sc e now) w = (r, w')" and "r \<noteq> Ok 1"
    and "distinct (map ac_id (accounts (tables w)))"
  shows "tables w' = tables w"
proof (cases r)
  case (Ok n)
  have "activate_pending i sc e now (clock w) (tables w) = Inr (n, tables w')"
    using execute_Ok [OF assms(1) [unfolded Ok]] .
  moreover have "n \<noteq> 1" using Ok assms(2) by simp
  ultimately show ?thesis
    unfolding activate_pending_def by (rule update_accounts_miss [OF _ _ assms(3)])
next
  case (Err e)
  with assms(1) execute_Err show ?thesis by blast
next
  case Panic
  with assms(1) show ?thesis by simp
qed

lemma complete_store_Err:
  assumes q: "quiet_ports obs s" and d: "distinct (map ac_id (accounts (tables w)))"
    and r: "complete_store s c st a adapter resp e now w = (Err err, w')"
  shows "tables w' = tables w \<and>
    (obs (ext w') = obs (ext w) \<or> err = completed_concurrently \<or> (\<exists>f. err = Db f))"
proof -
  obtain c1 w1 where c1: "carried_refresh s c a resp w = (c1, w1)" by fastforce
  have q1: "calm obs w w1" using calm_carried [OF q calm_refl, of w c a resp] c1 by simp
  show ?thesis
  proof (cases c1)
    case (Ok refresh)
    let ?b = "token_bundle_new (access_token resp) refresh e (granted_scope adapter resp)"
    obtain b1 w2 where b1: "store_bundle (sv_store s) c (ar_provider a) (ar_account_ref a) ?b e w1 = (b1, w2)"
      by fastforce
    have t2: "tables w2 = tables w"
      using store_bundle_tables [OF q] b1 q1 by (metis calm_def snd_conv)
    show ?thesis
    proof (cases b1)
      case Ok': (Ok u)
      let ?sc = "case scope resp of None \<Rightarrow> [] | Some sc \<Rightarrow> sc"
      obtain n w3 where n: "execute (activate_pending (os_account_id st) ?sc e now) w2 = (n, w3)" by fastforce
      with r c1 Ok b1 Ok' have "n \<noteq> Ok 1" "w3 = w'" and err: "err = completed_concurrently \<or> (\<exists>f. err = Db f)"
        by (cases n; auto simp: complete_store_def completed_concurrently_def split: if_splits)+
      with activate_miss [OF n] t2 d show ?thesis by simp
    next
      case (Err f)
      with r c1 Ok b1 have "w2 = w'" by (simp add: complete_store_def)
      with store_bundle_Err_calm [OF q b1 [unfolded Err]] q1 show ?thesis by (simp add: calm_def)
    next
      case Panic
      with r c1 Ok b1 show ?thesis by (simp add: complete_store_def)
    qed
  next
    case (Err f)
    with r c1 q1 show ?thesis by (simp add: complete_store_def calm_def)
  next
    case Panic
    with r c1 show ?thesis by (simp add: complete_store_def)
  qed
qed

text \<open>
  C10.  A rejected completion leaves the account table as it was, and the credential store too, unless the
  rejection is the database's (a failed statement) or the concurrent completion the last guarded
  update found: those two come after the store write.
\<close>

theorem complete_rejection_writes_nothing:
  assumes "quiet_ports obs s" and "distinct (map ac_id (accounts (tables w)))"
    and "complete E s company req w = (Err err, w')"
  shows "tables w' = tables w \<and>
    (obs (ext w') = obs (ext w) \<or> err = completed_concurrently \<or> (\<exists>f. err = Db f))"
proof -
  obtain r1 w1 where r1: "complete_account E s (cq_state req) w = (r1, w1)" by fastforce
  have q1: "calm obs w w1" using calm_account [OF calm_refl, of obs w E s "cq_state req"] r1 by simp
  show ?thesis
  proof (cases r1)
    case (Ok sa)
    obtain st a where sa: "sa = (st, a)" by fastforce
    obtain r2 w2 where r2: "complete_exchange E s st a (cq_code req) w1 = (r2, w2)" by fastforce
    have q2: "calm obs w w2" using calm_exchange [OF assms(1) q1, of E st a "cq_code req"] r2 by simp
    show ?thesis
    proof (cases r2)
      case Ok': (Ok x)
      obtain adapter resp e now where x: "x = (adapter, resp, e, now)" by (metis prod_cases4)
      have "complete_store s company st a adapter resp e now w2 = (Err err, w')"
        using assms(3) r1 Ok sa r2 Ok' x by (simp add: complete_def)
      with complete_store_Err [OF assms(1) _ this] q2 assms(2) show ?thesis by (simp add: calm_def)
    qed (use assms(3) r1 Ok sa r2 q2 in \<open>simp_all add: complete_def calm_def\<close>)
  qed (use assms(3) r1 q1 in \<open>simp_all add: complete_def calm_def\<close>)
qed

lemma demo_quiet: "quiet_ports fk_rows (demo_service r ident)"
  by (auto simp: quiet_ports_def calm_def demo_service_def answering_def lifted_store_def lift_call_def fake_verbs
      split: prod.splits option.splits if_splits)

subsection \<open>The in-memory store behind a world\<close>

text \<open>It is reachable, and its clock is the world's.\<close>

definition ready :: "datetime \<Rightarrow> fake_store \<Rightarrow> bool" where
  "ready t s \<longleftrightarrow> fk_fail_with s = None \<and> fk_now s = t"

lemma lifted_ext:
  "ext (snd (lift_call f w)) = snd (f (ext w))" "fst (lift_call f w) = fst (f (ext w))" "clock (snd (lift_call f w)) = clock w"
  by (simp_all add: lift_call_def split: prod.split)

lemma lifted_run: "lift_call f w = (r, w') \<Longrightarrow> f (ext w) = (r, ext w') \<and> clock w' = clock w"
  using lifted_ext [of f w] by (metis fst_conv snd_conv prod.collapse)

lemma ready_inv: "ready t s \<Longrightarrow> fake_inv s" "ready t s \<Longrightarrow> fk_now s = t"
  by (simp_all add: ready_def fake_inv_def)

lemma lifted_verbs:
  "st_issue lifted_store c p a q b e = lift_call (st_issue fake_port c p a q b e)"
  "st_rotate lifted_store c p a b e = lift_call (st_rotate fake_port c p a b e)"
  "st_revoke lifted_store c p a = lift_call (st_revoke fake_port c p a)"
  "st_read_token lifted_store c p a = lift_call (st_read_token fake_port c p a)"
  by (simp_all add: lifted_store_def fake_port_def)

lemma ready_kept:
  "ready t s \<Longrightarrow> ready t (snd (st_issue fake_port c p a q b e s))" "ready t s \<Longrightarrow> ready t (snd (st_rotate fake_port c p a b e s))"
  "ready t s \<Longrightarrow> ready t (snd (st_revoke fake_port c p a s))" "ready t s \<Longrightarrow> ready t (snd (st_read_token fake_port c p a s))"
  by (auto simp: ready_def fake_verbs split: option.splits)

interpretation lifted: credential_store lifted_store "\<lambda>w. fake_active (ext w)" clock "\<lambda>w. ready (clock w) (ext w)"
proof unfold_locales
  fix w w' :: "fake_store world" and c p a q b e i f u
  assume w: "ready (clock w) (ext w)"
  note inv = ready_inv(1) [OF w]
  show "fake_active (ext w) (c, p, a) = None \<and> fake_active (ext w') = (fake_active (ext w))((c, p, a) \<mapsto> b\<lparr>tb_expires_at := e\<rparr>)"
    if "st_issue lifted_store c p a q b e w = (Ok i, w')"
    using fake.issue_Ok [OF inv] lifted_run [OF that [unfolded lifted_verbs]] by blast
  show "fake_active (ext w') = fake_active (ext w) \<and> (cf_code f = CODE_DUPLICATE_ACTIVE \<longrightarrow> fake_active (ext w) (c, p, a) \<noteq> None)"
    if "st_issue lifted_store c p a q b e w = (Err f, w')"
    using fake.issue_Err [OF inv] lifted_run [OF that [unfolded lifted_verbs]] by blast
  show "fake_active (ext w) (c, p, a) \<noteq> None \<and> fake_active (ext w') = (fake_active (ext w))((c, p, a) \<mapsto> b\<lparr>tb_expires_at := e\<rparr>)"
    if "st_rotate lifted_store c p a b e w = (Ok i, w')"
    using fake.rotate_Ok [OF inv] lifted_run [OF that [unfolded lifted_verbs]] by blast
  show "fake_active (ext w') = fake_active (ext w)" if "st_rotate lifted_store c p a b e w = (Err f, w')"
    using fake.rotate_Err [OF inv] lifted_run [OF that [unfolded lifted_verbs]] by blast
  show "fake_active (ext w') = (fake_active (ext w))((c, p, a) := None)" if "st_revoke lifted_store c p a w = (Ok u, w')"
    using fake.revoke_Ok [OF inv] lifted_run [OF that [unfolded lifted_verbs]] by blast
  show "fake_active (ext w') = fake_active (ext w) \<and> (cf_code f = CODE_NOT_FOUND \<longrightarrow> fake_active (ext w) (c, p, a) = None)"
    if "st_revoke lifted_store c p a w = (Err f, w')"
    using fake.revoke_Err [OF inv] lifted_run [OF that [unfolded lifted_verbs]] by blast
  show "fake_active (ext (snd (st_read_token lifted_store c p a w))) = fake_active (ext w)"
    by (simp add: lifted_verbs lifted_ext fake.read_frame [OF inv])
  show "fake_active (ext w) (c, p, a) = Some b \<and> clock w < tb_expires_at b"
    if "st_read_token lifted_store c p a w = (Ok b, w')"
    using fake.read_Ok [OF inv] lifted_run [OF that [unfolded lifted_verbs]] ready_inv(2) [OF w] by metis
  show "case fake_active (ext w) (c, p, a) of None \<Rightarrow> cf_code f \<in> {CODE_NOT_FOUND, CODE_NOT_ACTIVE}
      | Some b \<Rightarrow> tb_expires_at b \<le> clock w \<and> cf_code f = CODE_EXPIRED"
    if "st_read_token lifted_store c p a w = (Err f, w')" "\<not> is_transport f"
    using fake.read_Err [OF inv _ that(2)] lifted_run [OF that(1) [unfolded lifted_verbs]] ready_inv(2) [OF w] by metis
qed (simp_all add: lifted_verbs lifted_ext ready_kept)

text \<open>A completion whose token is stored fails when its last statement does, or hits no row.\<close>

lemma complete_last_step:
  assumes "complete_account E s (cq_state req) w = (Ok (st, a), w1)"
    and "complete_exchange E s st a (cq_code req) w1 = (Ok (adapter, resp, e, now), w2)"
    and "carried_refresh s company a resp w2 = (Ok refresh, w3)"
    and "store_bundle (sv_store s) company (ar_provider a) (ar_account_ref a)
      (token_bundle_new (access_token resp) refresh e (granted_scope adapter resp)) e w3 = (Ok (), w4)"
    and "execute (activate_pending (os_account_id st) (case scope resp of None \<Rightarrow> [] | Some sc \<Rightarrow> sc) e now) w4 = (q, w')"
    and "q \<noteq> Ok 1"
  shows "complete E s company req w = (Err (case q of Err f \<Rightarrow> Db f | _ \<Rightarrow> completed_concurrently), w')"
  using assms by (cases q) (simp_all add: complete_def complete_store_def completed_concurrently_def)

abbreviation demo_bundle :: token_bundle where
  "demo_bundle \<equiv> token_bundle_new (access_token demo_token) (Some ''rt'') (micros 3600) (granted_scope GMAIL_ADAPTER demo_token)"

abbreviation demo_pending :: account_row where
  "demo_pending \<equiv> row_of (demo_account Pending None)"

abbreviation failing_at :: "bool list \<Rightarrow> fake_store world" where
  "failing_at fs \<equiv> demo_world [demo_account Pending None] fs"

lemma demo_row: "ar_provider demo_pending = ''gmail''" "ar_account_ref demo_pending = ''a@b.c''"
  by (simp_all add: row_of_def demo_account_def)

lemma demo_steps:
  obtains w' where
    "complete_account demo_env (demo_service (Ok demo_token) demo_identity) (cq_state demo_request) (failing_at [False, False, True])
       = (Ok (demo_state, demo_pending), failing_at [False, True])"
    "complete_exchange demo_env (demo_service (Ok demo_token) demo_identity) demo_state demo_pending (cq_code demo_request)
       (failing_at [False, True]) = (Ok (GMAIL_ADAPTER, demo_token, micros 3600, 0), failing_at [True])"
    "carried_refresh (demo_service (Ok demo_token) demo_identity) 1 demo_pending demo_token (failing_at [True])
       = (Ok (Some ''rt''), failing_at [True])"
    "store_bundle (sv_store (demo_service (Ok demo_token) demo_identity)) 1 (ar_provider demo_pending) (ar_account_ref demo_pending)
       demo_bundle (micros 3600) (failing_at [True]) = (Ok (), w')"
    "execute (activate_pending (os_account_id demo_state) (case scope demo_token of None \<Rightarrow> [] | Some sc \<Rightarrow> sc) (micros 3600) 0) w'
       = (Err DbFailure, w'\<lparr>faults := []\<rparr>)"
    "tables w' = tables (failing_at [True])"
proof -
  obtain w' where "store_bundle lifted_store 1 ''gmail'' ''a@b.c'' demo_bundle (micros 3600) (failing_at [True]) = (Ok (), w')"
      "faults w' = [True]" "tables w' = tables (failing_at [True])"
    using demo_store_bundle [of "failing_at [True]" demo_bundle "micros 3600"] by (fastforce simp: demo_world_def)
  then have st: "store_bundle (sv_store (demo_service (Ok demo_token) demo_identity)) 1 (ar_provider demo_pending)
      (ar_account_ref demo_pending) demo_bundle (micros 3600) (failing_at [True]) = (Ok (), w')"
    "faults w' = [True]" "tables w' = tables (failing_at [True])" by (simp_all add: demo_service_def demo_row)
  show ?thesis
  proof (rule that [OF _ _ _ st(1) _ st(3)])
    show "complete_account demo_env (demo_service (Ok demo_token) demo_identity) (cq_state demo_request) (failing_at [False, False, True])
       = (Ok (demo_state, demo_pending), failing_at [False, True])"
      using demo_complete_account [of "failing_at [False, False, True]"] by (simp add: demo_request_def demo_world_def)
    show "complete_exchange demo_env (demo_service (Ok demo_token) demo_identity) demo_state demo_pending (cq_code demo_request)
       (failing_at [False, True]) = (Ok (GMAIL_ADAPTER, demo_token, micros 3600, 0), failing_at [True])"
      using demo_complete_exchange [of "failing_at [False, True]"] by (simp add: demo_request_def demo_world_def)
    show "carried_refresh (demo_service (Ok demo_token) demo_identity) 1 demo_pending demo_token (failing_at [True])
       = (Ok (Some ''rt''), failing_at [True])" by (simp add: carried_refresh_def demo_token_def)
  qed (simp add: execute_def round_trip_def st(2))
qed

lemma demo_fails_after_store:
  "\<exists>w'. complete demo_env (demo_service (Ok demo_token) demo_identity) 1 demo_request (failing_at [False, False, True])
      = (Err (Db DbFailure), w')"
proof (rule demo_steps, goal_cases)
  case (1 w')
  from complete_last_step [OF this(1-5)] show ?case by simp
qed

theorem complete_rejection_writes_nothing_witness:
  "\<exists>w'. complete demo_env (demo_service (Ok demo_token) demo_identity) 1 demo_request
      (demo_world [demo_account Pending None] [False, False, True]) = (Err (Db DbFailure), w') \<and>
    tables w' = tables (demo_world [demo_account Pending None] [])"
proof -
  let ?w = "demo_world [demo_account Pending None] [False, False, True]"
  obtain w' where c: "complete demo_env (demo_service (Ok demo_token) demo_identity) 1 demo_request ?w
      = (Err (Db DbFailure), w')"
    using demo_fails_after_store by blast
  have "distinct (map ac_id (accounts (tables ?w)))" by (simp add: demo_world_def)
  from complete_rejection_writes_nothing [OF demo_quiet this c] c show ?thesis
    by (simp add: demo_world_def)
qed

text \<open>
  C31.  A completion can fail after its token was stored.  Whatever the request, the provider and the store
  (any that keeps the contract \<open>credential_store\<close>): when every step up to the store write succeeded and the
  row's transition then fails on the database, or finds no pending row, the caller gets that error and
  the accounts are as they were before the transition, the row pending if it was, but the scope's
  credential is live in the store: nothing takes it back.
\<close>

theorem complete_failure_leaves_credential:
  assumes "credential_store (sv_store s) (\<lambda>w. act (ext w)) clock (\<lambda>w. sound (clock w) (ext w))"
    and "complete_account E s (cq_state req) w = (Ok (st, a), w1)"
    and "complete_exchange E s st a (cq_code req) w1 = (Ok (adapter, resp, e, now), w2)"
    and "carried_refresh s company a resp w2 = (Ok refresh, w3)"
    and "store_bundle (sv_store s) company (ar_provider a) (ar_account_ref a)
      (token_bundle_new (access_token resp) refresh e (granted_scope adapter resp)) e w3 = (Ok (), w4)"
    and "sound (clock w3) (ext w3)"
    and "execute (activate_pending (os_account_id st) (case scope resp of None \<Rightarrow> [] | Some sc \<Rightarrow> sc) e now) w4 = (q, w')"
    and "q \<noteq> Ok 1" and "distinct (map ac_id (accounts (tables w4)))"
  shows "complete E s company req w = (Err (case q of Err f \<Rightarrow> Db f | _ \<Rightarrow> completed_concurrently), w') \<and>
    tables w' = tables w4 \<and>
    act (ext w') (company, ar_provider a, ar_account_ref a)
      = Some (token_bundle_new (access_token resp) refresh e (granted_scope adapter resp))"
proof -
  have "act (ext w4) (company, ar_provider a, ar_account_ref a)
      = Some (token_bundle_new (access_token resp) refresh e (granted_scope adapter resp))"
    using credential_store.store_bundle_Ok [OF assms(1,6,5)] by (simp add: token_bundle_new_def)
  moreover have "ext w' = ext w4" using execute_ext assms(7) by (metis snd_conv)
  moreover have "tables w' = tables w4" by (rule activate_miss [OF assms(7-9)])
  ultimately show ?thesis using complete_last_step [OF assms(2-5,7,8)] by simp
qed

theorem complete_failure_leaves_credential_witness:
  "\<exists>w'. complete demo_env (demo_service (Ok demo_token) demo_identity) 1 demo_request
      (demo_world [demo_account Pending None] [False, False, True]) = (Err (Db DbFailure), w') \<and>
    map ac_status (accounts (tables w')) = [Pending] \<and>
    fake_active (ext w') (1, ''gmail'', ''a@b.c'') = Some demo_bundle"
proof (rule demo_steps, goal_cases)
  case (1 w')
  have store: "credential_store (sv_store (demo_service (Ok demo_token) demo_identity))
      (\<lambda>w. fake_active (ext w)) clock (\<lambda>w. ready (clock w) (ext w))"
    using lifted.credential_store_axioms by (simp add: demo_service_def)
  have sound: "ready (clock (failing_at [True])) (ext (failing_at [True]))"
    by (simp add: ready_def demo_world_def demo_store_def)
  have ids: "distinct (map ac_id (accounts (tables w')))" by (simp add: 1(6) demo_world_def)
  from complete_failure_leaves_credential [OF store 1(1-4) sound 1(5) _ ids]
  show ?case by (simp add: 1(6) demo_row) (simp add: demo_world_def demo_account_def)
qed

subsection \<open>A state completes once\<close>

lemma signer_verify_same:
  assumes "signer_verify C K J key t token = Ok st" and "signer_verify C K J key t' token = Ok st'"
  shows "st' = st"
proof -
  have one: "split_once CHR ''.'' token = Some (p, m)" if "token = p @ ''.'' @ m" "CHR ''.'' \<notin> set p" for p m
    using that by simp
  from assms show ?thesis
    unfolding signer_verify_Ok using one by (metis option.inject prod.inject)
qed

lemma complete_account_stops:
  assumes "\<And>x w1. complete_account E s (cq_state req) w \<noteq> (Ok x, w1)"
  shows "\<not> is_ok (fst (complete E s company req w)) \<and> reads w (snd (complete E s company req w))"
proof -
  obtain r w1 where r: "complete_account E s (cq_state req) w = (r, w1)" by fastforce
  with reads_complete_account [OF reads_refl, of w E s "cq_state req"] have "reads w w1" by simp
  with r assms show ?thesis by (cases r) (auto simp: complete_def)
qed

text \<open>
  C8.  A signed state connects an account at most once.  After a completion succeeded, presenting the same
  state again never completes, whatever other tasks did to the tables in between within the account
  lifecycle, and the refused attempt makes no call on a port and writes nothing.
\<close>

theorem complete_once:
  assumes "complete E s company req w = (Ok out, w1)" and "accounts_ok (tables w1)" and "accounts_step U (tables w1) (tables w2)" and "cm_account_id out \<in> U"
    and "cq_state req' = cq_state req"
  shows "\<not> is_ok (fst (complete E s company' req' w2)) \<and> reads w2 (snd (complete E s company' req' w2))"
proof (rule complete_account_stops)
  from assms(1) obtain st a adapter resp e now u1 u2 where
    acc: "complete_account E s (cq_state req) w = (Ok (st, a), u1)" and
    sto: "complete_store s company st a adapter resp e now u2 = (Ok out, w1)"
    by (auto simp: complete_def attempt_eq_Ok split: prod.splits)
  have v: "signer_verify (e_chrono E) (e_codec E) (e_state E) (sv_key s) (clock w) (cq_state req) = Ok st"
    using complete_account_Ok [OF acc] by blast
  from complete_store_Ok [OF sto] obtain w5 scopes where
    up: "execute (activate_pending (os_account_id st) scopes e now) w5 = (Ok 1, w1)"
    and out: "cm_account_id out = os_account_id st" by auto
  from activate_one [OF up] obtain r where
    r: "r \<in> set (accounts (tables w1))" "ac_id r = os_account_id st" "ac_status r = Active" by blast
  fix x w3
  show "complete_account E s (cq_state req') w2 \<noteq> (Ok x, w3)"
    unfolding assms(5)
  proof
    assume again: "complete_account E s (cq_state req) w2 = (Ok x, w3)"
    obtain st' a' where x: "x = (st', a')" by fastforce
    from complete_account_Ok [OF again [unfolded x]] obtain r' where
      v': "signer_verify (e_chrono E) (e_codec E) (e_state E) (sv_key s) (clock w2) (cq_state req) = Ok st'"
      and r': "account_by_id (os_account_id st') (tables w2) = Some r'" "ac_status r' = Pending"
      by blast
    have "st' = st" using signer_verify_same [OF v v'] .
    with r'(1) have r'_in: "r' \<in> set (accounts (tables w2))" "ac_id r' = os_account_id st"
      using account_by_id_Some by auto
    then obtain q where q: "q \<in> set (accounts (tables w1))" "account_moves q r'"
      using assms(3,4) out by (auto simp: accounts_step_def)
    then have "ac_id q = ac_id r" using r'_in(2) r(2) by (simp add: account_moves_def)
    then have "q = r" using q(1) r(1) assms(2) account_by_id_unique by (metis accounts_ok_def option.inject)
    with q(2) r(3) r'(2) show False by (auto simp: account_moves_def)
  qed
qed

subsection \<open>The writes of an authorization\<close>

lemma authorize_writes_Ok:
  assumes "authorize_writes sc i p a scopes v w = (Ok u, w')"
  shows "\<exists>q. provider_of_label p = Some q \<and> i \<notin> ac_id ` set (filter (\<lambda>r. \<not> (ac_provider r = q \<and> ac_ref r = a)) (accounts (tables w)))
    \<and> accounts (tables w') = filter (\<lambda>r. \<not> (ac_provider r = q \<and> ac_ref r = a)) (accounts (tables w)) @
      [\<lparr>ac_id = i, ac_provider = q, ac_ref = a, ac_status = Pending, ac_scopes = scopes, ac_pkce = v,
        ac_expires_at = None, ac_last_refreshed = None, ac_metadata = stamp_insert (clock w) default_audit\<rparr>]
    \<and> ext w' = ext w \<and> clock w' = clock w"
proof -
  from assms obtain t1 w1 t2 w2 x3 t3 w3 x4 t4 w4 where
    s1: "begin_tx w = (Ok t1, w1)" and s2: "bind_ambient_org_scope sc t1 w1 = (Ok t2, w2)" and
    s3: "execute_in (delete_scope p a) t2 w2 = (Ok (x3, t3), w3)" and
    s4: "execute_in (insert_pending i p a scopes v) t3 w3 = (Ok (x4, t4), w4)" and
    s5: "commit t4 w4 = (Ok u, w')"
    by (auto simp: authorize_writes_def attempt_eq_Ok split: prod.splits)
  note f1 = begin_tx_Ok [OF s1] and f2 = bind_scope_Ok [OF s2] and f3 = execute_in_Ok [OF s3]
    and f4 = execute_in_Ok [OF s4] and f5 = commit_Ok [OF s5]
  from f2 f1 have t2: "t2 = id" by simp
  from f3 obtain q where q: "provider_of_label p = Some q"
    by (auto simp: delete_scope_def t2 split: option.splits)
  let ?keep = "\<lambda>r. \<not> (ac_provider r = q \<and> ac_ref r = a)"
  have del: "delete_scope p a t d = Inr (rows_affected (\<lambda>r. ac_provider r = q \<and> ac_ref r = a) (accounts d),
      d\<lparr>accounts := filter ?keep (accounts d)\<rparr>)" for t d
    by (simp add: delete_scope_def q Let_def)
  have t3: "t3 d = d\<lparr>accounts := filter ?keep (accounts d)\<rparr>" for d
    using f3 by (simp add: t2 del)
  from f4 f3 f2 f1 obtain d4 where d4: "insert_pending i p a scopes v (clock w) (t3 (tables w)) = Inr (x4, d4)"
    and t4: "t4 (tables w) = d4" by auto
  from d4 q have "i \<notin> ac_id ` set (filter ?keep (accounts (tables w)))"
    and "accounts d4 = filter ?keep (accounts (tables w)) @
      [\<lparr>ac_id = i, ac_provider = q, ac_ref = a, ac_status = Pending, ac_scopes = scopes, ac_pkce = v,
        ac_expires_at = None, ac_last_refreshed = None, ac_metadata = stamp_insert (clock w) default_audit\<rparr>]"
    by (auto simp: insert_pending_def Let_def t3 split: if_splits)
  moreover have "tables w' = d4" "ext w' = ext w" "clock w' = clock w"
    using f1 f2 f3 f4 f5 t4 by simp_all
  ultimately show ?thesis using q by blast
qed

subsection \<open>An authorization\<close>

text \<open>The stages an authorization that answers has passed.\<close>

lemma authorize_stages:
  assumes "authorize E s verifier_bytes i nonce_bytes req w = (Ok resp, w')"
  shows "\<exists>adapter account_ref client eps state u.
    registry_lookup (sv_registry s) (trim (aq_provider req)) = Some adapter \<and>
    endpoints_for s (trim (aq_provider req)) = Ok (eps, client) \<and>
    normalize_account_ref (aq_account_ref req) = Some account_ref \<and>
    authorize_writes (e_scoped E) i (trim (aq_provider req)) account_ref (requested_scopes adapter (aq_scopes req))
      (if pkce_s256 adapter then Some (b64_encode (e_codec E) verifier_bytes) else None) w = (Ok (), w') \<and>
    signer_mint (e_codec E) (e_state E) (sv_key s)
      \<lparr>os_account_id = i, os_provider = trim (aq_provider req), os_nonce = b64_encode (e_codec E) nonce_bytes,
       os_exp = timestamp (e_chrono E) (clock w') + 600\<rparr> = Ok state \<and>
    parse_url (e_url E) (url_as_str (e_url E) (ve_url (ep_authorize eps))) = Some u \<and>
    resp = \<lparr>ap_account_id = i,
      ap_authorize_url = url_as_str (e_url E) (append_pairs (e_url E)
        (authorize_pairs (e_codec E) client (redirect_uri s) (requested_scopes adapter (aq_scopes req))
          (if pkce_s256 adapter then Some (b64_encode (e_codec E) verifier_bytes) else None)
          (b64_encode (e_codec E) nonce_bytes) state) u),
      ap_state_expires_in = 600\<rparr>"
  using assms
  by (auto simp: authorize_def attempt_eq_Ok on_err_eq_Ok Let_def mint_pkce_verifier_def mint_nonce_def
      STATE_TTL_SECONDS_def endpoint_as_str_def split: if_splits prod.splits)

text \<open>
  C11.  A started authorization replaces the scope's row by one fresh pending row and touches nothing else:
  the other rows stay in place, the new row carries the new id, the scopes asked for and the minted
  verifier, the ports are not called, the identity is well formed, and the state in the returned URL
  is a signed binding of that row, that provider and that nonce for ten minutes.
\<close>

theorem authorize_fresh_pending:
  assumes "authorize E s verifier_bytes i nonce_bytes req w = (Ok resp, w')"
  shows "\<exists>adapter account_ref q client eps state u.
    registry_lookup (sv_registry s) (trim (aq_provider req)) = Some adapter \<and>
    endpoints_for s (trim (aq_provider req)) = Ok (eps, client) \<and>
    normalize_account_ref (aq_account_ref req) = Some account_ref \<and>
    oauth_provider_str q = trim (aq_provider req) \<and>
    accounts (tables w') = filter (\<lambda>r. \<not> (ac_provider r = q \<and> ac_ref r = account_ref)) (accounts (tables w)) @
      [\<lparr>ac_id = i, ac_provider = q, ac_ref = account_ref, ac_status = Pending,
        ac_scopes = requested_scopes adapter (aq_scopes req),
        ac_pkce = (if pkce_s256 adapter then Some (b64_encode (e_codec E) verifier_bytes) else None),
        ac_expires_at = None, ac_last_refreshed = None,
        ac_metadata = stamp_insert (clock w) default_audit\<rparr>] \<and>
    ext w' = ext w \<and>
    signer_mint (e_codec E) (e_state E) (sv_key s)
      \<lparr>os_account_id = i, os_provider = trim (aq_provider req), os_nonce = b64_encode (e_codec E) nonce_bytes,
       os_exp = timestamp (e_chrono E) (clock w) + 600\<rparr> = Ok state \<and>
    parse_url (e_url E) (url_as_str (e_url E) (ve_url (ep_authorize eps))) = Some u \<and>
    resp = \<lparr>ap_account_id = i,
      ap_authorize_url = url_as_str (e_url E) (append_pairs (e_url E)
        (authorize_pairs (e_codec E) client (redirect_uri s) (requested_scopes adapter (aq_scopes req))
          (if pkce_s256 adapter then Some (b64_encode (e_codec E) verifier_bytes) else None)
          (b64_encode (e_codec E) nonce_bytes) state) u),
      ap_state_expires_in = 600\<rparr>"
proof -
  let ?p = "trim (aq_provider req)"
  from authorize_stages [OF assms] obtain adapter account_ref client eps state u where
    a: "registry_lookup (sv_registry s) ?p = Some adapter" "endpoints_for s ?p = Ok (eps, client)"
      "normalize_account_ref (aq_account_ref req) = Some account_ref" and
    wr: "authorize_writes (e_scoped E) i ?p account_ref (requested_scopes adapter (aq_scopes req))
      (if pkce_s256 adapter then Some (b64_encode (e_codec E) verifier_bytes) else None) w = (Ok (), w')" and
    r: "signer_mint (e_codec E) (e_state E) (sv_key s)
        \<lparr>os_account_id = i, os_provider = ?p, os_nonce = b64_encode (e_codec E) nonce_bytes,
         os_exp = timestamp (e_chrono E) (clock w') + 600\<rparr> = Ok state"
      "parse_url (e_url E) (url_as_str (e_url E) (ve_url (ep_authorize eps))) = Some u" and
    resp: "resp = \<lparr>ap_account_id = i,
        ap_authorize_url = url_as_str (e_url E) (append_pairs (e_url E)
          (authorize_pairs (e_codec E) client (redirect_uri s) (requested_scopes adapter (aq_scopes req))
            (if pkce_s256 adapter then Some (b64_encode (e_codec E) verifier_bytes) else None)
            (b64_encode (e_codec E) nonce_bytes) state) u),
        ap_state_expires_in = 600\<rparr>"
    by blast
  from authorize_writes_Ok [OF wr] obtain q where q: "provider_of_label ?p = Some q" and w: "accounts (tables w') =
      filter (\<lambda>r. \<not> (ac_provider r = q \<and> ac_ref r = account_ref)) (accounts (tables w)) @
      [\<lparr>ac_id = i, ac_provider = q, ac_ref = account_ref, ac_status = Pending,
        ac_scopes = requested_scopes adapter (aq_scopes req),
        ac_pkce = (if pkce_s256 adapter then Some (b64_encode (e_codec E) verifier_bytes) else None),
        ac_expires_at = None, ac_last_refreshed = None,
        ac_metadata = stamp_insert (clock w) default_audit\<rparr>]" "ext w' = ext w" "clock w' = clock w"
    by blast
  have "oauth_provider_str q = ?p" using q by simp
  with a w r resp show ?thesis
    by (intro exI [of _ adapter] exI [of _ account_ref] exI [of _ q] exI [of _ client] exI [of _ eps]
        exI [of _ state] exI [of _ u]) simp
qed

lemma printable_any_ws: "list_all printable s \<Longrightarrow> \<not> any_ws s"
proof (induction s)
  case (Cons c s)
  then show ?case using printable_no_ws(1) [of "c # s"] by simp
qed simp

lemma plain_no_control: "list_all (\<lambda>c. 32 \<le> byte c \<and> byte c < 127) s \<Longrightarrow> \<not> any_control s"
  by (induction s) auto

lemma demo_authorize:
  "\<exists>resp w'. authorize demo_env (demo_service r ident) ''v'' 9 ''n'' \<lparr>aq_provider = ''gmail'',
      aq_account_ref = ''a@b.c'', aq_scopes = None\<rparr> (demo_world [] []) = (Ok resp, w')"
proof -
  have t: "trim ''gmail'' = ''gmail''" "trim ''a@b.c'' = ''a@b.c''"
    by (rule trim_printable, simp add: printable_def byte_def)+
  have n: "normalize_account_ref ''a@b.c'' = Some ''a@b.c''"
  proof -
    have "\<not> any_ws ''a@b.c''" by (rule printable_any_ws) (simp add: printable_def byte_def)
    then show ?thesis by (simp add: normalize_account_ref_def t del: any_ws.simps)
  qed
  have e: "looks_like_email ''a@b.c''"
    by (simp add: looks_like_email_def starts_with_def ends_with_def suffix_def)
  have c: "\<not> any_control (default_scopes GMAIL_ADAPTER)"
    by (rule plain_no_control) (simp add: GMAIL_ADAPTER_def byte_def)
  have l: "\<not> 2048 < length (default_scopes GMAIL_ADAPTER)" by (simp add: GMAIL_ADAPTER_def)
  have sc: "requested_scopes GMAIL_ADAPTER None = default_scopes GMAIL_ADAPTER"
    by (simp add: requested_scopes_def)
  have q: "provider_of_label ''gmail'' = Some Gmail" by simp
  have w: "\<exists>w'. authorize_writes False 9 ''gmail'' ''a@b.c'' sc v (demo_world [] []) = (Ok (), w')"
    if "case v of None \<Rightarrow> True | Some x \<Rightarrow> char_length x \<le> 256" for sc v
    unfolding authorize_writes_def using that
    by (simp add: no_fault_calls demo_world_def delete_scope_def insert_pending_def q Let_def
        account_checks_def non_blank_def char_length_def byte_def del: provider_of_label_Some)
  have v: "case if pkce_s256 GMAIL_ADAPTER then Some (mint_pkce_verifier hex_codec ''v'') else None of
      None \<Rightarrow> True | Some x \<Rightarrow> char_length x \<le> 256"
    by (simp add: mint_pkce_verifier_def hex_codec_def char_length_def byte_def hex_encode_def)
  have u: "\<exists>u. parse_url plain_url_lib (endpoint_as_str plain_url_lib (ep_authorize demo_endpoints)) = Some u"
    by (simp add: endpoint_as_str_def demo_endpoints_def demo_url_def plain_url_lib_def plain_parse_def Let_def)
  then obtain u where u: "parse_url plain_url_lib (endpoint_as_str plain_url_lib (ep_authorize demo_endpoints)) = Some u" ..
  obtain w' where w': "authorize_writes False 9 ''gmail'' ''a@b.c'' (default_scopes GMAIL_ADAPTER)
      (if pkce_s256 GMAIL_ADAPTER then Some (mint_pkce_verifier hex_codec ''v'') else None) (demo_world [] []) = (Ok (), w')"
    using w [OF v] by blast
  show ?thesis
    using c l e
    by (simp add: authorize_def t n sc Let_def demo_env_def w' signer_mint_def demo_codec_state_def u
        del: any_control.simps)
qed

theorem authorize_fresh_pending_witness:
  "\<exists>resp w' r. authorize demo_env (demo_service (Ok demo_token) demo_identity) ''v'' 9 ''n''
      \<lparr>aq_provider = ''gmail'', aq_account_ref = ''a@b.c'', aq_scopes = None\<rparr> (demo_world [] []) = (Ok resp, w') \<and>
    accounts (tables w') = [r] \<and> ac_id r = 9 \<and> ac_status r = Pending"
proof -
  obtain resp w' where a: "authorize demo_env (demo_service (Ok demo_token) demo_identity) ''v'' 9 ''n''
      \<lparr>aq_provider = ''gmail'', aq_account_ref = ''a@b.c'', aq_scopes = None\<rparr> (demo_world [] []) = (Ok resp, w')"
    using demo_authorize by blast
  from authorize_fresh_pending [OF a] obtain r where "accounts (tables w') = [r]" "ac_id r = 9" "ac_status r = Pending"
    by (auto simp: demo_world_def)
  with a show ?thesis by blast
qed

subsection \<open>A disconnect\<close>

lemma revoke_account_rows:
  assumes "revoke_account i t d = Inr (n, d')" and "r' \<in> set (accounts d')" and "ac_id r' = i"
  shows "ac_status r' \<in> {Expired, Revoked}"
proof -
  from assms(2) obtain r where r: "r \<in> set (accounts d)"
    and r': "r' = (if ac_id r = i \<and> ac_status r \<in> {Pending, Active}
      then r\<lparr>ac_status := Revoked, ac_pkce := None, ac_metadata := touch t (ac_metadata r)\<rparr> else r)"
    using assms(1) by (auto simp: revoke_account_def update_accounts_Inr set_update_where)
  show ?thesis using assms(3) unfolding r' by (cases "ac_status r") (auto split: if_splits)
qed

text \<open>
  C12.  A disconnect that succeeds leaves the account neither pending nor active, and reports success only
  for an account that exists: it was revoked before (nothing is written then), or the store
  acknowledged the revocation or had no credential to revoke.
\<close>

theorem disconnect_Ok:
  assumes "disconnect s company i w = (Ok (), w')" and "accounts_ok (tables w)"
  shows "\<exists>r. account_by_id i (tables w) = Some r \<and>
    list_all (\<lambda>r'. ac_id r' \<noteq> i \<or> ac_status r' \<in> {Expired, Revoked}) (accounts (tables w')) \<and>
    (if ac_status r = Revoked then reads w w'
     else \<exists>answer w1 w2. reads w w1 \<and>
       st_revoke (sv_store s) company (oauth_provider_str (ac_provider r)) (ac_ref r) w1 = (answer, w2) \<and>
       (answer = Ok () \<or> (\<exists>f. answer = Err f \<and> cf_code f = CODE_NOT_FOUND)))"
proof -
  from assms(1) obtain a w1 where f: "fetch_account i w = (Ok (Some a), w1)"
    by (auto simp: disconnect_def attempt_eq_Ok)
  from fetch_account_Ok [OF f] obtain r where r: "account_by_id i (tables w) = Some r" "a = row_of r"
    and w1: "reads w w1" by (metis map_option_eq_Some)
  have st: "(ar_status a = ''revoked'') = (ac_status r = Revoked)"
    unfolding r(2) row_of_def using account_status_str_inj [of "ac_status r" Revoked] by simp
  show ?thesis
  proof (cases "ac_status r = Revoked")
    case True
    with assms(1) f st have "w' = w1" by (auto simp: disconnect_def)
    moreover have "r' = r" if "r' \<in> set (accounts (tables w))" "ac_id r' = i" for r'
      using account_by_id_unique [of "tables w" r'] that r(1) assms(2) by (simp add: accounts_ok_def)
    ultimately show ?thesis using True r(1) w1 by (auto simp: list_all_iff reads_def)
  next
    case False
    obtain answer w2 where ans: "st_revoke (sv_store s) company (ar_provider a) (ar_account_ref a) w1 = (answer, w2)"
      by fastforce
    from assms(1) f st False ans obtain n where ok: "answer = Ok () \<or> (\<exists>f. answer = Err f \<and> cf_code f = CODE_NOT_FOUND)"
      and up: "execute (revoke_account i) w2 = (Ok n, w')"
      by (cases answer) (auto simp: disconnect_def attempt_eq_Ok on_err_eq_Ok split: if_splits)
    have "list_all (\<lambda>r'. ac_id r' \<noteq> i \<or> ac_status r' \<in> {Expired, Revoked}) (accounts (tables w'))"
      using revoke_account_rows [OF execute_Ok [OF up]] by (auto simp: list_all_iff)
    with ok ans w1 r False show ?thesis by (auto simp: row_of_def)
  qed
qed

theorem disconnect_Ok_witness:
  "\<exists>w'. disconnect (demo_service (Ok demo_token) demo_identity) 1 7 (demo_world [demo_account Active (Some 5)] []) = (Ok (), w')
    \<and> list_all (\<lambda>r'. ac_id r' \<noteq> 7 \<or> ac_status r' \<in> {Expired, Revoked}) (accounts (tables w'))"
proof -
  let ?w = "demo_world [demo_account Active (Some 5)] []"
  have "\<exists>w'. disconnect (demo_service (Ok demo_token) demo_identity) 1 7 ?w = (Ok (), w')"
    by (simp add: disconnect_def fetch_account_def no_fault_calls demo_world_def sql account_by_id_def
        demo_account_def row_of_def demo_service_def lifted_store_def lift_call_def fake_verbs demo_store_def
        failure_not_found_def update_accounts_def)
  then obtain w' where d: "disconnect (demo_service (Ok demo_token) demo_identity) 1 7 ?w = (Ok (), w')" ..
  have "accounts_ok (tables ?w)" by (simp add: accounts_ok_def account_ok_def demo_world_def demo_account_def)
  from disconnect_Ok [OF d this] d show ?thesis by blast
qed

text \<open>An expired account is answered \<open>Ok\<close> with its credential revoked, and stays \<open>expired\<close>.\<close>

lemma disconnect_expired_stays:
  "\<exists>w'. disconnect (demo_service (Ok demo_token) demo_identity) 1 7 (demo_world [demo_account Expired (Some 5)] []) = (Ok (), w')
    \<and> map ac_status (accounts (tables w')) = [Expired]"
  by (simp add: disconnect_def fetch_account_def no_fault_calls demo_world_def sql account_by_id_def
      demo_account_def row_of_def demo_service_def lifted_store_def lift_call_def fake_verbs demo_store_def
      failure_not_found_def update_accounts_def update_where_def)

subsection \<open>The concrete deployment keeps the lifecycle\<close>

lemma demo_ports_step: "ports_keep (accounts_step U) (demo_service r ident)"
  by (auto simp: ports_keep_def store_keeps_def transport_keeps_def demo_service_def answering_def
      lifted_store_def lift_call_def split: prod.split)

lemma demo_world_ok: "accounts_ok (tables (demo_world [demo_account Pending None] fs))"
  by (simp add: accounts_ok_def account_ok_def demo_world_def demo_account_def)

theorem complete_once_witness:
  "\<exists>out w1. complete demo_env (demo_service (Ok demo_token) demo_identity) 1 demo_request
      (demo_world [demo_account Pending None] []) = (Ok out, w1) \<and>
    \<not> is_ok (fst (complete demo_env (demo_service (Ok demo_token) demo_identity) 1 demo_request w1))"
proof -
  let ?s = "demo_service (Ok demo_token) demo_identity"
  let ?w = "demo_world [demo_account Pending None] []"
  obtain out w1 where c: "complete demo_env ?s 1 demo_request ?w = (Ok out, w1)"
    using demo_complete by blast
  have "accounts_step UNIV (tables ?w) (tables w1)"
    using life.step_complete [OF demo_ports_step [of UNIV "Ok demo_token" demo_identity] accounts_step_refl [of UNIV "tables ?w"], where E = demo_env
        and c = 1 and req = demo_request] c by simp
  then have ok: "accounts_ok (tables w1)" using demo_world_ok by (simp add: accounts_step_def)
  from complete_once [OF c ok accounts_step_refl [of UNIV] UNIV_I refl, of 1] c
  show ?thesis by blast
qed

end
