(* ===== verification/Refresh_Safety.thy ===== *)
theory Refresh_Safety
  imports Oauth_Safety
begin

text \<open>
  What the refresh code guarantees: when an account expires and when it is left due, how much of a batch one
  account can take, and what the gap between two ticks of the schedule does.
\<close>

subsection \<open>The outcomes of one refresh\<close>

lemma calls_locked [simp]:
  "locked (snd (begin_tx w)) = locked w" "locked (snd (bind_ambient_org_scope b tx w)) = locked w"
  "locked (snd (execute_in s tx w)) = locked w" "locked (snd (rollback tx w)) = locked w"
  "locked (snd (commit tx w)) = locked w"
  by (auto simp: begin_tx_def bind_ambient_org_scope_def execute_in_def rollback_def commit_def
      split: prod.splits bool.splits sum.splits dest!: round_trip_frame)

text \<open>From \<open>v\<close> on only the tables were written: no port was called, no time passed, no lock moved.\<close>

definition settles :: "'x world \<Rightarrow> 'x world \<Rightarrow> bool" where
  "settles v v' \<longleftrightarrow> ext v' = ext v \<and> clock v' = clock v \<and> locked v' = locked v"

lemma rollback_settles: "rollback tx w = (r, w') \<Longrightarrow> tables w' = tables w \<and> settles w w'"
  using rollback_frame [of tx w] calls_locked(4) [of tx w] by (simp add: settles_def)

lemma commit_settles: "execute_in stmt tx w = (r, w1) \<Longrightarrow> commit tx' w1 = (r', w') \<Longrightarrow> settles w w'"
  using execute_in_frame [of stmt tx w] commit_ext [of tx' w1] calls_locked(3) [of stmt tx w] calls_locked(5) [of tx' w1]
  by (simp add: settles_def)

lemma finish_with_Ok:
  assumes "finish_with stmt id sm w = (Ok sm', w')"
  shows "sm' = sm \<and> (\<exists>n. stmt (clock w) (tables w) = Inr (n, tables w')) \<and> settles w w'"
proof -
  from assms obtain n tx w1 where x: "execute_in stmt id w = (Ok (n, tx), w1)" and c: "commit tx w1 = (Ok (), w')"
    and sm: "sm' = sm"
    by (auto simp: finish_with_def attempt_eq_Ok on_err_eq_Ok split: prod.splits)
  from execute_in_Ok [OF x] commit_Ok [OF c] sm commit_settles [OF x c] show ?thesis by auto
qed

text \<open>
  The ways a connection is dead: the store holds no readable credential, the credential is inside the
  window and has no refresh token, or the provider answered its refresh token with \<open>invalid_grant\<close>.
\<close>

inductive grant_dead ::
  "env \<Rightarrow> 'x service \<Rightarrow> uuid \<Rightarrow> string \<Rightarrow> string \<Rightarrow> 'x world \<Rightarrow> 'x world \<Rightarrow> bool"
  for E s company provider account_ref w where
  unreadable: "st_read_token (sv_store s) company provider account_ref w = (Err f, w1) \<Longrightarrow>
    cf_code f \<in> {CODE_NOT_FOUND, CODE_NOT_ACTIVE, CODE_EXPIRED} \<Longrightarrow>
    grant_dead E s company provider account_ref w w1"
| no_refresh_token: "st_read_token (sv_store s) company provider account_ref w = (Ok prior, w1) \<Longrightarrow>
    minus_duration (e_chrono E) (tb_expires_at prior) (sv_refresh_window s) = Some t \<Longrightarrow> t < clock w1 \<Longrightarrow>
    tb_refresh_token prior = None \<Longrightarrow> grant_dead E s company provider account_ref w w1"
| invalid_grant: "st_read_token (sv_store s) company provider account_ref w = (Ok prior, w1) \<Longrightarrow>
    minus_duration (e_chrono E) (tb_expires_at prior) (sv_refresh_window s) = Some t \<Longrightarrow> t < clock w1 \<Longrightarrow>
    tb_refresh_token prior = Some rt \<Longrightarrow> endpoints_for s provider = Ok (eps, client) \<Longrightarrow>
    tp_exchange (sv_transport s) (ep_token eps) (refresh_grant_form s provider client rt) w1 = (Err f, w2) \<Longrightarrow>
    is_invalid_grant f \<Longrightarrow> grant_dead E s company provider account_ref w w2"

inductive_cases grant_deadE: "grant_dead E s company p a w w'"

text \<open>An outage is no death: an exchange refused for any other reason than the grant leaves the account.\<close>

lemma outage_no_death:
  assumes "st_read_token (sv_store s) company p a w = (Ok prior, w1)" and "tb_refresh_token prior = Some rt"
    and "endpoints_for s p = Ok (eps, client)"
    and "tp_exchange (sv_transport s) (ep_token eps) (refresh_grant_form s p client rt) w1 = (Err f, w2)"
    and "\<not> is_invalid_grant f"
  shows "\<not> grant_dead E s company p a w w'"
  using assms by (auto elim!: grant_deadE)

text \<open>
  The ways a refresh is unable to tell: the store fails to answer, the provider is not configured, the
  exchange is refused for another reason than the grant, or its answer has no positive lifetime.  The
  second world is the one the last port call left.
\<close>

inductive refresh_unable ::
  "env \<Rightarrow> 'x service \<Rightarrow> uuid \<Rightarrow> string \<Rightarrow> string \<Rightarrow> 'x world \<Rightarrow> 'x world \<Rightarrow> bool"
  for E s company provider account_ref w where
  store_failed: "st_read_token (sv_store s) company provider account_ref w = (Err f, w1) \<Longrightarrow>
    cf_code f \<notin> {CODE_NOT_FOUND, CODE_NOT_ACTIVE, CODE_EXPIRED} \<Longrightarrow>
    refresh_unable E s company provider account_ref w w1"
| unconfigured: "st_read_token (sv_store s) company provider account_ref w = (Ok prior, w1) \<Longrightarrow>
    minus_duration (e_chrono E) (tb_expires_at prior) (sv_refresh_window s) = Some t \<Longrightarrow> t < clock w1 \<Longrightarrow>
    tb_refresh_token prior \<noteq> None \<Longrightarrow> \<not> is_ok (endpoints_for s provider) \<Longrightarrow>
    refresh_unable E s company provider account_ref w w1"
| outage: "st_read_token (sv_store s) company provider account_ref w = (Ok prior, w1) \<Longrightarrow>
    minus_duration (e_chrono E) (tb_expires_at prior) (sv_refresh_window s) = Some t \<Longrightarrow> t < clock w1 \<Longrightarrow>
    tb_refresh_token prior = Some rt \<Longrightarrow> endpoints_for s provider = Ok (eps, client) \<Longrightarrow>
    tp_exchange (sv_transport s) (ep_token eps) (refresh_grant_form s provider client rt) w1 = (Err f, w2) \<Longrightarrow>
    \<not> is_invalid_grant f \<Longrightarrow> refresh_unable E s company provider account_ref w w2"
| no_lifetime: "st_read_token (sv_store s) company provider account_ref w = (Ok prior, w1) \<Longrightarrow>
    minus_duration (e_chrono E) (tb_expires_at prior) (sv_refresh_window s) = Some t \<Longrightarrow> t < clock w1 \<Longrightarrow>
    tb_refresh_token prior = Some rt \<Longrightarrow> endpoints_for s provider = Ok (eps, client) \<Longrightarrow>
    tp_exchange (sv_transport s) (ep_token eps) (refresh_grant_form s provider client rt) w1 = (Ok resp, w2) \<Longrightarrow>
    (\<And>secs. expires_in resp = Some secs \<Longrightarrow> secs \<le> 0) \<Longrightarrow> refresh_unable E s company provider account_ref w w2"

inductive_cases refresh_unableE: "refresh_unable E s company p a w w'"

text \<open>
  The four ways a refresh can end: the counter it moves, why, and exactly what it then wrote over what the
  last port call left.
\<close>

definition ends_expired ::
  "env \<Rightarrow> 'x service \<Rightarrow> uuid \<Rightarrow> uuid \<Rightarrow> string \<Rightarrow> string \<Rightarrow> refresh_summary \<Rightarrow> 'x world
    \<Rightarrow> refresh_summary \<Rightarrow> 'x world \<Rightarrow> bool" where
  "ends_expired E s company i p a sm w sm' w' \<longleftrightarrow>
    sm' = sm\<lparr>sm_expired := sm_expired sm + 1\<rparr> \<and>
    (\<exists>w1 n. grant_dead E s company p a w w1 \<and> settles w1 w' \<and>
       expire_active i (clock w1) (tables w1) = Inr (n, tables w'))"

definition ends_left_due ::
  "env \<Rightarrow> 'x service \<Rightarrow> uuid \<Rightarrow> string \<Rightarrow> string \<Rightarrow> refresh_summary \<Rightarrow> 'x world \<Rightarrow> refresh_summary \<Rightarrow> 'x world \<Rightarrow> bool" where
  "ends_left_due E s company p a sm w sm' w' \<longleftrightarrow>
    sm' = sm\<lparr>sm_failures := sm_failures sm + 1\<rparr> \<and>
    (\<exists>w1. refresh_unable E s company p a w w1 \<and> settles w1 w' \<and> tables w' = tables w1)"

definition ends_resynced ::
  "env \<Rightarrow> 'x service \<Rightarrow> uuid \<Rightarrow> uuid \<Rightarrow> string \<Rightarrow> string \<Rightarrow> refresh_summary \<Rightarrow> 'x world
    \<Rightarrow> refresh_summary \<Rightarrow> 'x world \<Rightarrow> bool" where
  "ends_resynced E s company i p a sm w sm' w' \<longleftrightarrow>
    sm' = sm\<lparr>sm_resynced := sm_resynced sm + 1\<rparr> \<and>
    (\<exists>prior w1 t n. st_read_token (sv_store s) company p a w = (Ok prior, w1) \<and>
       minus_duration (e_chrono E) (tb_expires_at prior) (sv_refresh_window s) = Some t \<and> clock w1 \<le> t \<and>
       settles w1 w' \<and> mirror_expiry i (tb_expires_at prior) (clock w1) (tables w1) = Inr (n, tables w'))"

definition ends_refreshed ::
  "env \<Rightarrow> 'x service \<Rightarrow> uuid \<Rightarrow> uuid \<Rightarrow> string \<Rightarrow> string \<Rightarrow> refresh_summary \<Rightarrow> 'x world
    \<Rightarrow> refresh_summary \<Rightarrow> 'x world \<Rightarrow> bool" where
  "ends_refreshed E s company i p a sm w sm' w' \<longleftrightarrow>
    sm' = sm\<lparr>sm_refreshed := sm_refreshed sm + 1\<rparr> \<and>
    (\<exists>prior w1 t rt eps client resp w2 secs rid w3 n.
       st_read_token (sv_store s) company p a w = (Ok prior, w1) \<and>
       minus_duration (e_chrono E) (tb_expires_at prior) (sv_refresh_window s) = Some t \<and> t < clock w1 \<and>
       tb_refresh_token prior = Some rt \<and>
       endpoints_for s p = Ok (eps, client) \<and>
       tp_exchange (sv_transport s) (ep_token eps) (refresh_grant_form s p client rt) w1 = (Ok resp, w2) \<and>
       expires_in resp = Some secs \<and> 0 < secs \<and>
       st_rotate (sv_store s) company p a (successor_bundle resp prior (clock w2 + micros secs))
         (clock w2 + micros secs) w2 = (Ok rid, w3) \<and> settles w3 w' \<and>
       mirror_refreshed i (clock w2 + micros secs) (tb_scope (successor_bundle resp prior (clock w2 + micros secs)))
         (clock w2) (clock w3) (tables w3) = Inr (n, tables w'))"

lemma refresh_expire_Ok:
  assumes "refresh_expire i id sm w1 = (Ok sm', w')" and "grant_dead E s company p a w w1"
  shows "ends_expired E s company i p a sm w sm' w'"
  using finish_with_Ok [OF assms(1) [unfolded refresh_expire_def]] assms(2)
  by (auto simp: ends_expired_def)

lemma refresh_left_due_Ok:
  "refresh_left_due tx sm w1 = (Ok sm', w') \<Longrightarrow> refresh_unable E s company p a w w1 \<Longrightarrow>
    ends_left_due E s company p a sm w sm' w'"
  using rollback_settles [of tx w1]
  by (auto simp: refresh_left_due_def ends_left_due_def attempt_eq_Ok on_err_eq_Ok)

lemma expires_at_None: "expires_at C r now = Ok None \<Longrightarrow> expires_in r = Some secs \<Longrightarrow> secs \<le> 0"
  by (auto simp: expires_at_def and_then_eq_Ok split: if_splits)

lemma refresh_store_Ok:
  assumes "refresh_store s id company i p a prior resp expires (clock w2) sm w2 = (Ok sm', w')"
    and "st_read_token (sv_store s) company p a w = (Ok prior, w1)"
    and "minus_duration (e_chrono E) (tb_expires_at prior) (sv_refresh_window s) = Some t" "t < clock w1"
    and "tb_refresh_token prior = Some rt" and "endpoints_for s p = Ok (eps, client)"
    and "tp_exchange (sv_transport s) (ep_token eps) (refresh_grant_form s p client rt) w1 = (Ok resp, w2)"
    and "expires_in resp = Some secs" "0 < secs" "expires = clock w2 + micros secs"
  shows "ends_refreshed E s company i p a sm w sm' w'"
proof -
  from assms(1) obtain rid w3 where
    rot: "st_rotate (sv_store s) company p a (successor_bundle resp prior expires) expires w2 = (Ok rid, w3)" and
    fin: "finish_with (mirror_refreshed i expires (tb_scope (successor_bundle resp prior expires)) (clock w2)) id
      (sm\<lparr>sm_refreshed := sm_refreshed sm + 1\<rparr>) w3 = (Ok sm', w')"
    by (auto simp: refresh_store_def attempt_eq_Ok on_err_eq_Ok Let_def)
  show ?thesis
    unfolding ends_refreshed_def using finish_with_Ok [OF fin] rot assms(2-) by auto
qed

lemma refresh_exchange_Ok:
  assumes "refresh_exchange E s id company i p a prior rt sm w1 = (Ok sm', w')" and "chrono_laws (e_chrono E)"
    and "st_read_token (sv_store s) company p a w = (Ok prior, w1)"
    and "minus_duration (e_chrono E) (tb_expires_at prior) (sv_refresh_window s) = Some t" "t < clock w1"
    and "tb_refresh_token prior = Some rt"
  shows "ends_expired E s company i p a sm w sm' w' \<or> ends_left_due E s company p a sm w sm' w' \<or>
    ends_refreshed E s company i p a sm w sm' w'"
proof (cases "endpoints_for s p")
  case (Ok ec)
  obtain eps client where ec: "ec = (eps, client)" by fastforce
  obtain r w2 where x: "tp_exchange (sv_transport s) (ep_token eps) (refresh_grant_form s p client rt) w1 = (r, w2)"
    by fastforce
  show ?thesis
  proof (cases r)
    case Ok': (Ok resp)
    with assms(1) Ok ec x obtain expiry where
      e: "(expires_at (e_chrono E) resp (clock w2) :: (oauth_error, _) res) = Ok expiry" and
      rest: "(case expiry of None \<Rightarrow> refresh_left_due id sm w2
        | Some expires \<Rightarrow> refresh_store s id company i p a prior resp expires (clock w2) sm w2) = (Ok sm', w')"
      by (auto simp: refresh_exchange_def attempt_eq_Ok Let_def)
    show ?thesis
    proof (cases expiry)
      case None
      have "refresh_unable E s company p a w w2"
        using no_lifetime [OF assms(3-6) Ok [unfolded ec] x [unfolded Ok']] expires_at_None [OF e [unfolded None]] by blast
      with rest None refresh_left_due_Ok show ?thesis by auto
    next
      case (Some expires)
      from expires_at_Some [OF e [unfolded Some] assms(2)] obtain secs where
        secs: "expires_in resp = Some secs" "0 < secs" "expires = clock w2 + micros secs" by blast
      from rest Some have "ends_refreshed E s company i p a sm w sm' w'"
        using refresh_store_Ok [OF _ assms(3-6) Ok [unfolded ec] x [unfolded Ok'] secs] by simp
      then show ?thesis by blast
    qed
  next
    case (Err f)
    show ?thesis
    proof (cases "is_invalid_grant f")
      case True
      have "grant_dead E s company p a w w2"
        by (rule invalid_grant [OF assms(3-6) Ok [unfolded ec] x [unfolded Err] True])
      moreover have "refresh_expire i id sm w2 = (Ok sm', w')"
        using assms(1) Ok ec x Err True by (simp add: refresh_exchange_def)
      ultimately show ?thesis using refresh_expire_Ok by blast
    next
      case False
      then have "refresh_left_due id sm w2 = (Ok sm', w')"
        using assms(1) Ok ec x Err by (simp add: refresh_exchange_def)
      moreover have "refresh_unable E s company p a w w2"
        by (rule outage [OF assms(3-6) Ok [unfolded ec] x [unfolded Err] False])
      ultimately show ?thesis using refresh_left_due_Ok by blast
    qed
  next
    case Panic
    with assms(1) Ok ec x show ?thesis by (simp add: refresh_exchange_def)
  qed
qed (use assms(1,6) refresh_left_due_Ok [OF _ unconfigured [OF assms(3-5)]] in \<open>auto simp: refresh_exchange_def\<close>)

text \<open>A credential the store reads is re-synced while it is fresh, and exchanged or given up after.\<close>

lemma refresh_readable_ends:
  assumes run: "(if clock w1 \<le> t then finish_with (mirror_expiry i (tb_expires_at prior)) id
        (sm\<lparr>sm_resynced := sm_resynced sm + 1\<rparr>) w1
      else (case tb_refresh_token prior of None \<Rightarrow> refresh_expire i id sm w1
        | Some rt \<Rightarrow> refresh_exchange E s id company i p a prior rt sm w1)) = (Ok sm', w')"
    and laws: "chrono_laws (e_chrono E)" and x: "st_read_token (sv_store s) company p a w = (Ok prior, w1)"
    and t: "minus_duration (e_chrono E) (tb_expires_at prior) (sv_refresh_window s) = Some t"
  shows "ends_expired E s company i p a sm w sm' w' \<or> ends_left_due E s company p a sm w sm' w' \<or>
    ends_resynced E s company i p a sm w sm' w' \<or> ends_refreshed E s company i p a sm w sm' w'"
proof (cases "clock w1 \<le> t")
  case True
  with run have fin: "finish_with (mirror_expiry i (tb_expires_at prior)) id
      (sm\<lparr>sm_resynced := sm_resynced sm + 1\<rparr>) w1 = (Ok sm', w')" by simp
  have "ends_resynced E s company i p a sm w sm' w'"
    unfolding ends_resynced_def using finish_with_Ok [OF fin] True x t by auto
  then show ?thesis by blast
next
  case False
  then have due: "t < clock w1" by simp
  show ?thesis
  proof (cases "tb_refresh_token prior")
    case None
    with run False have "refresh_expire i id sm w1 = (Ok sm', w')" by simp
    moreover have "grant_dead E s company p a w w1" by (rule no_refresh_token [OF x t due None])
    ultimately show ?thesis using refresh_expire_Ok by blast
  next
    case (Some rt)
    with run False have "refresh_exchange E s id company i p a prior rt sm w1 = (Ok sm', w')" by simp
    from refresh_exchange_Ok [OF this laws x t due Some] show ?thesis by blast
  qed
qed

lemma refresh_claimed_ends:
  assumes "refresh_claimed E s id company i p a sm w = (Ok sm', w')" and "chrono_laws (e_chrono E)"
  shows "ends_expired E s company i p a sm w sm' w' \<or> ends_left_due E s company p a sm w sm' w' \<or>
    ends_resynced E s company i p a sm w sm' w' \<or> ends_refreshed E s company i p a sm w sm' w'"
proof -
  obtain r w1 where x: "st_read_token (sv_store s) company p a w = (r, w1)" by fastforce
  show ?thesis
  proof (cases r)
    case (Ok prior)
    with assms(1) x obtain t where
      t: "minus_duration (e_chrono E) (tb_expires_at prior) (sv_refresh_window s) = Some t" and
      rest: "(if clock w1 \<le> t then finish_with (mirror_expiry i (tb_expires_at prior)) id
            (sm\<lparr>sm_resynced := sm_resynced sm + 1\<rparr>) w1
          else (case tb_refresh_token prior of None \<Rightarrow> refresh_expire i id sm w1
            | Some rt \<Rightarrow> refresh_exchange E s id company i p a prior rt sm w1)) = (Ok sm', w')"
      by (auto simp: refresh_claimed_def attempt_eq_Ok)
    from rest show ?thesis by (rule refresh_readable_ends [OF _ assms(2) x [unfolded Ok] t])
  next
    case (Err f)
    show ?thesis
    proof (cases "cf_code f \<in> {CODE_NOT_FOUND, CODE_NOT_ACTIVE, CODE_EXPIRED}")
      case True
      have "grant_dead E s company p a w w1" by (rule unreadable [OF x [unfolded Err] True])
      moreover have "refresh_expire i id sm w1 = (Ok sm', w')"
        using assms(1) x Err True by (auto simp: refresh_claimed_def)
      ultimately show ?thesis using refresh_expire_Ok by blast
    next
      case False
      then have "refresh_left_due id sm w1 = (Ok sm', w')"
        using assms(1) x Err by (simp add: refresh_claimed_def)
      moreover have "refresh_unable E s company p a w w1" by (rule store_failed [OF x [unfolded Err] False])
      ultimately show ?thesis using refresh_left_due_Ok by blast
    qed
  next
    case Panic
    with assms(1) x show ?thesis by (simp add: refresh_claimed_def)
  qed
qed

text \<open>The reasons exclude each other: what the ports answer decides.\<close>

lemma dead_excludes:
  assumes "grant_dead E s company p a w w1"
  shows "\<not> ends_left_due E s company p a sm w sm' w'" "\<not> ends_resynced E s company i p a sm w sm' w'"
    "\<not> ends_refreshed E s company i p a sm w sm' w'"
  using assms
  by (auto simp: ends_left_due_def ends_resynced_def ends_refreshed_def elim!: grant_deadE refresh_unableE)

lemma refresh_dead_iff:
  assumes "refresh_claimed E s id company i p a sm w = (Ok sm', w')" and "chrono_laws (e_chrono E)"
  shows "sm_expired sm' = sm_expired sm + 1 \<longleftrightarrow> (\<exists>w1. grant_dead E s company p a w w1)"
proof -
  show ?thesis
  proof (cases "ends_expired E s company i p a sm w sm' w'")
    case True
    then show ?thesis by (auto simp: ends_expired_def)
  next
    case False
    with refresh_claimed_ends [OF assms] have other: "ends_left_due E s company p a sm w sm' w' \<or>
      ends_resynced E s company i p a sm w sm' w' \<or> ends_refreshed E s company i p a sm w sm' w'" by blast
    then have "sm_expired sm' = sm_expired sm"
      by (auto simp: ends_left_due_def ends_resynced_def ends_refreshed_def)
    moreover have "\<not> grant_dead E s company p a w w1" for w1
      using other dead_excludes [of E s company p a w w1] by blast
    ultimately show ?thesis by simp
  qed
qed

text \<open>
  C7.  Refreshing a claimed account ends in exactly the counter it reports, for the reason that counter
  stands for, and has then written exactly this.  It reports an expiry if and only if the connection is
  dead (no readable credential, no refresh token, or the provider's \<open>invalid_grant\<close>), and runs the
  guarded expiry statement.  While the stored credential is still fresh it only re-syncs the row's
  expiry: nothing is called after the read, so no exchange happens.  A refresh stores the successor under
  an expiry counted from the provider's answer, with a positive lifetime, and mirrors that expiry on the
  row.  In every other case (the store failed, the provider is not configured, an outage, an answer
  without a lifetime) it reports a failure, and the tables are as the last port call left them: the
  account stays due.
\<close>

theorem refresh_claimed_outcomes:
  assumes "refresh_claimed E s id company i p a sm w = (Ok sm', w')" and "chrono_laws (e_chrono E)"
  shows "(ends_expired E s company i p a sm w sm' w' \<or> ends_left_due E s company p a sm w sm' w' \<or>
      ends_resynced E s company i p a sm w sm' w' \<or> ends_refreshed E s company i p a sm w sm' w') \<and>
    (sm_expired sm' = sm_expired sm + 1 \<longleftrightarrow> (\<exists>w1. grant_dead E s company p a w w1))"
  using refresh_claimed_ends [OF assms] refresh_dead_iff [OF assms] by blast

lemma demo_refresh_dead:
  "\<exists>w'. refresh_claimed demo_env (demo_service (Ok demo_token) demo_identity) id 1 7 ''gmail'' ''a@b.c'' empty_summary
      (demo_world [demo_account Active (Some 5)] []) = (Ok (empty_summary\<lparr>sm_expired := 1\<rparr>), w')"
  by (simp add: refresh_claimed_def demo_service_def lifted_store_def lift_call_def fake_verbs demo_world_def
      demo_store_def active_row_index_def failure_not_found_def refresh_expire_def finish_with_def no_fault_calls
      sql update_accounts_def empty_summary_def)

theorem refresh_claimed_outcomes_witness:
  "\<exists>w'. ends_expired demo_env (demo_service (Ok demo_token) demo_identity) 1 7 ''gmail'' ''a@b.c'' empty_summary
      (demo_world [demo_account Active (Some 5)] []) (empty_summary\<lparr>sm_expired := 1\<rparr>) w'"
proof -
  obtain w' where r: "refresh_claimed demo_env (demo_service (Ok demo_token) demo_identity) id 1 7 ''gmail'' ''a@b.c''
      empty_summary (demo_world [demo_account Active (Some 5)] []) = (Ok (empty_summary\<lparr>sm_expired := 1\<rparr>), w')"
    using demo_refresh_dead by blast
  have "chrono_laws (e_chrono demo_env)" by (simp add: demo_env_def ranged_chrono_laws)
  from refresh_claimed_outcomes [OF r this]
  have "ends_expired demo_env (demo_service (Ok demo_token) demo_identity) 1 7 ''gmail'' ''a@b.c'' empty_summary
      (demo_world [demo_account Active (Some 5)] []) (empty_summary\<lparr>sm_expired := 1\<rparr>) w'"
    by (auto simp: ends_left_due_def ends_resynced_def ends_refreshed_def empty_summary_def)
  then show ?thesis by blast
qed

subsection \<open>The batch\<close>

definition summary_total :: "refresh_summary \<Rightarrow> nat" where
  "summary_total sm = sm_refreshed sm + sm_resynced sm + sm_expired sm + sm_failures sm"

lemma finish_with_summary: "finish_with stmt tx sm w = (Ok sm', w') \<Longrightarrow> sm' = sm"
  by (auto simp: finish_with_def attempt_eq_Ok on_err_eq_Ok split: prod.splits)

lemma refresh_claimed_total:
  assumes "refresh_claimed E s tx company i p a sm w = (Ok sm', w')"
  shows "summary_total sm' = Suc (summary_total sm)"
proof -
  have ex: "summary_total sm' = Suc (summary_total sm)"
    if "refresh_exchange E s tx company i p a prior rt sm w1 = (Ok sm', w')" for prior rt w1
    using that
    by (auto simp: refresh_exchange_def refresh_left_due_def refresh_expire_def refresh_store_def Let_def
        attempt_eq_Ok on_err_eq_Ok summary_total_def dest!: finish_with_summary
        split: res.splits prod.splits option.splits if_splits)
  from assms show ?thesis
    by (auto simp: refresh_claimed_def refresh_left_due_def refresh_expire_def attempt_eq_Ok on_err_eq_Ok
        summary_total_def dest!: finish_with_summary dest: ex [unfolded summary_total_def]
        split: res.splits prod.splits option.splits if_splits)
qed

lemma refresh_loop_total:
  "refresh_loop E s company n sm w = (Ok sm', w') \<Longrightarrow> summary_total sm' \<le> summary_total sm + n"
proof (induction n arbitrary: sm w)
  case (Suc n)
  from Suc.prems obtain c :: "account option" and tx w1 where
    "(case c of None \<Rightarrow> attempt (on_err Db (commit tx w1)) (\<lambda>_ w. (Ok sm, w))
      | Some r \<Rightarrow> attempt (refresh_claimed E s tx company (ac_id r) (oauth_provider_str (ac_provider r)) (ac_ref r) sm w1)
          (\<lambda>sm w. refresh_loop E s company n sm w)) = (Ok sm', w')"
    by (auto simp: attempt_eq_Ok split: prod.splits)
  then show ?case
    using Suc.IH refresh_claimed_total
    by (fastforce simp: attempt_eq_Ok split: option.splits)
qed simp

text \<open>A claim inside a fresh transaction leaves the buffer empty.\<close>

lemma claim_due_quiet:
  assumes "faults w = []"
  shows "execute_in (claim_due wd held) id w =
    (Ok (oldest (filter (\<lambda>r. due wd (clock w) r \<and> ac_id r \<notin> set held) (accounts (tables w))), id), w)"
  using assms by (simp add: no_fault_calls claim_due_def fun_eq_iff)

text \<open>One turn of the sweep when the database answers.\<close>

lemma refresh_loop_turn:
  assumes "faults w = []" and "num_seconds (e_chrono E) (sv_refresh_window s) = wd"
    and "oldest (filter (\<lambda>r. due wd (clock w) r \<and> ac_id r \<notin> set (locked w)) (accounts (tables w))) = c"
  shows "refresh_loop E s company (Suc n) sm w =
    (case c of
       None \<Rightarrow> (Ok sm, w)
     | Some r \<Rightarrow> attempt (refresh_claimed E s id company (ac_id r) (oauth_provider_str (ac_provider r)) (ac_ref r) sm w)
         (\<lambda>sm w. refresh_loop E s company n sm w))"
  unfolding refresh_loop.simps
  by (simp add: no_fault_calls(2,3,5) [OF assms(1)] claim_due_quiet [OF assms(1)] assms(2,3) split: option.split)

lemma refresh_loop_stuck:
  assumes "num_seconds (e_chrono E) (sv_refresh_window s) = wd"
    and "oldest (filter (\<lambda>r. due wd now r \<and> ac_id r \<notin> set held) (accounts d)) = Some r"
    and same: "\<And>w1. I w1 \<Longrightarrow> tables w1 = d \<and> clock w1 = now \<and> locked w1 = held \<and> faults w1 = []"
    and stuck: "\<And>sm w1. I w1 \<Longrightarrow> \<exists>w2. refresh_claimed E s id company (ac_id r)
      (oauth_provider_str (ac_provider r)) (ac_ref r) sm w1 = (Ok (sm\<lparr>sm_failures := sm_failures sm + 1\<rparr>), w2) \<and> I w2"
    and "I w"
  shows "\<exists>w2. refresh_loop E s company n sm w = (Ok (sm\<lparr>sm_failures := sm_failures sm + n\<rparr>), w2) \<and> I w2"
  using assms(5)
proof (induction n arbitrary: sm w)
  case (Suc n)
  note eq = same [OF Suc.prems]
  have f: "faults w = []" using eq by simp
  have c: "oldest (filter (\<lambda>r. due wd (clock w) r \<and> ac_id r \<notin> set (locked w)) (accounts (tables w))) = Some r"
    using assms(2) eq by simp
  obtain w2 where w2: "refresh_claimed E s id company (ac_id r) (oauth_provider_str (ac_provider r)) (ac_ref r) sm w
      = (Ok (sm\<lparr>sm_failures := sm_failures sm + 1\<rparr>), w2)" "I w2"
    using stuck [OF Suc.prems] by blast
  obtain w3 where w3: "refresh_loop E s company n (sm\<lparr>sm_failures := sm_failures sm + 1\<rparr>) w2 =
      (Ok (sm\<lparr>sm_failures := sm_failures sm + 1 + n\<rparr>), w3)" "I w3"
    using Suc.IH [OF w2(2), of "sm\<lparr>sm_failures := sm_failures sm + 1\<rparr>"] by auto
  have "refresh_loop E s company (Suc n) sm w = (Ok (sm\<lparr>sm_failures := sm_failures sm + Suc n\<rparr>), w3)"
    unfolding refresh_loop_turn [OF f assms(1) c] using w2(1) w3(1) by simp
  with w3(2) show ?case by blast
qed auto

text \<open>
  C26.  The service's sweep has no memory of the accounts it tried.  When the oldest due account cannot be
  refreshed now (every attempt leaves the tables as they were and the account due), the sweep claims
  that account again on every turn: it reports a full batch of failures and no other account, however
  many are due, is touched.
\<close>

theorem refresh_due_stuck:
  assumes "num_seconds (e_chrono E) (sv_refresh_window s) = wd"
    and "oldest (filter (\<lambda>r. due wd now r \<and> ac_id r \<notin> set held) (accounts d)) = Some r"
    and "\<And>w1. I w1 \<Longrightarrow> tables w1 = d \<and> clock w1 = now \<and> locked w1 = held \<and> faults w1 = []"
    and "\<And>sm w1. I w1 \<Longrightarrow> \<exists>w2. refresh_claimed E s id company (ac_id r)
      (oauth_provider_str (ac_provider r)) (ac_ref r) sm w1 = (Ok (sm\<lparr>sm_failures := sm_failures sm + 1\<rparr>), w2) \<and> I w2"
    and "I w"
  shows "\<exists>w'. refresh_due E s company w =
    (Ok (empty_summary\<lparr>sm_failures := nat (sv_refresh_batch_size s)\<rparr>), w') \<and> tables w' = tables w"
proof -
  obtain w' where "refresh_loop E s company (nat (sv_refresh_batch_size s)) empty_summary w =
      (Ok (empty_summary\<lparr>sm_failures := sm_failures empty_summary + nat (sv_refresh_batch_size s)\<rparr>), w')" "I w'"
    using refresh_loop_stuck [where I = I, OF assms] by blast
  then show ?thesis using assms(3) [OF \<open>I w'\<close>] assms(3) [OF assms(5)]
    by (simp add: refresh_due_def empty_summary_def)
qed

text \<open>Two due accounts: an Outlook one without a configured client, and a Gmail one behind it.\<close>

definition outlook_account :: account where
  "outlook_account = (demo_account Active (Some 5))\<lparr>ac_id := 6, ac_provider := Outlook\<rparr>"

definition credential_row :: "string \<Rightarrow> datetime \<Rightarrow> stored_credential" where
  "credential_row p e = fake_row 1 p ''a@b.c'' (token_bundle_new ''at'' (Some ''rt'') e None) e"

definition two_due :: "fake_store world" where
  "two_due = (demo_world [outlook_account, demo_account Active (Some 6)] [])\<lparr>ext :=
     demo_store\<lparr>fk_rows := [credential_row ''outlook'' 5, credential_row ''gmail'' 6]\<rparr>\<rparr>"

lemma outlook_unconfigured:
  "endpoints_for (demo_service r ident) ''outlook'' = Err (ProviderUnconfigured (''unknown provider {provider:?}'', [''outlook'']))"
  by (simp add: endpoints_for_def demo_service_def)

text \<open>The refresh of an unconfigured provider's account: the read is logged, the account left due.\<close>

definition two_due_alike :: "fake_store world \<Rightarrow> bool" where
  "two_due_alike w \<longleftrightarrow> tables w = tables two_due \<and> clock w = 0 \<and> locked w = [] \<and> faults w = [] \<and>
     fk_rows (ext w) = fk_rows (ext two_due) \<and> fk_now (ext w) = 0 \<and> fk_fail_with (ext w) = None"

lemma outlook_left_due:
  assumes "two_due_alike w1"
  shows "\<exists>w2. refresh_claimed demo_env (demo_service r ident) id 1 6 ''outlook'' ''a@b.c'' sm w1
    = (Ok (sm\<lparr>sm_failures := sm_failures sm + 1\<rparr>), w2) \<and> two_due_alike w2"
proof -
  have st: "sv_store (demo_service r ident) = lifted_store" "sv_refresh_window (demo_service r ident) = micros 600"
    "e_chrono demo_env = ranged_chrono" by (simp_all add: demo_service_def demo_env_def)
  note w1 = assms [unfolded two_due_alike_def]
  have i: "active_row_index (fk_rows (ext w1)) 1 ''outlook'' ''a@b.c'' = Some 0"
    by (simp add: w1 two_due_def credential_row_def fake_row_def active_row_index_def fake_matches_def)
  have b: "fk_rows (ext w1) ! 0 = credential_row ''outlook'' 5"
    by (simp add: w1 two_due_def)
  have rd: "st_read_token lifted_store 1 ''outlook'' ''a@b.c'' w1 =
      (Ok (token_bundle_new ''at'' (Some ''rt'') 5 None), w1\<lparr>ext := fake_log (Read 1 ''outlook'' ''a@b.c'') (ext w1)\<rparr>)"
    using i b w1
    by (simp add: lifted_store_def lift_call_def fake_read_token_def fake_gate_def fake_log_def Let_def
        credential_row_def fake_row_def token_bundle_new_def)
  have m: "minus_duration ranged_chrono 5 (micros 600) = Some (5 - micros 600)" "\<not> 0 \<le> 5 - micros 600"
    by (simp_all add: ranged_chrono_def calendar_def micros_def)
  show ?thesis
    using w1 m(2)
    by (simp add: refresh_claimed_def st rd m(1) token_bundle_new_def refresh_exchange_def outlook_unconfigured
        refresh_left_due_def no_fault_calls two_due_alike_def fake_log_def)
qed

theorem refresh_due_stuck_witness:
  "\<exists>w'. refresh_due demo_env (demo_service (Ok demo_token) demo_identity) 1 two_due =
      (Ok (empty_summary\<lparr>sm_failures := 2\<rparr>), w') \<and> tables w' = tables two_due"
proof -
  let ?s = "demo_service (Ok demo_token) demo_identity"
  have wd: "num_seconds (e_chrono demo_env) (sv_refresh_window ?s) = 600"
    by (simp add: demo_env_def demo_service_def ranged_chrono_def micros_def)
  have old: "oldest (filter (\<lambda>r. due 600 0 r \<and> ac_id r \<notin> set []) (accounts (tables two_due))) = Some outlook_account"
    by (simp add: two_due_def demo_world_def outlook_account_def demo_account_def due_def micros_def oldest_def
        expiry_key_def)
  have same: "two_due_alike w1 \<Longrightarrow>
      tables w1 = tables two_due \<and> clock w1 = 0 \<and> locked w1 = [] \<and> faults w1 = []" for w1
    by (simp add: two_due_alike_def)
  have stuck: "two_due_alike w1 \<Longrightarrow> \<exists>w2. refresh_claimed demo_env ?s id 1 (ac_id outlook_account)
      (oauth_provider_str (ac_provider outlook_account)) (ac_ref outlook_account) sm w1
      = (Ok (sm\<lparr>sm_failures := sm_failures sm + 1\<rparr>), w2) \<and> two_due_alike w2" for sm w1
    using outlook_left_due [of w1 "Ok demo_token" demo_identity sm] by (simp add: outlook_account_def demo_account_def)
  have "two_due_alike two_due" by (simp add: two_due_alike_def two_due_def demo_world_def demo_store_def)
  from refresh_due_stuck [where I = two_due_alike, OF wd old same stuck this]
  show ?thesis by (simp add: demo_service_def)
qed

text \<open>
  A sweep reports at most one outcome per turn: the four counters together never exceed the batch
  size of the service.
\<close>

lemma refresh_due_bounded:
  assumes "refresh_due E s company w = (Ok sm, w')"
  shows "summary_total sm \<le> nat (sv_refresh_batch_size s)"
  using refresh_loop_total [OF assms [unfolded refresh_due_def]]
  by (simp add: empty_summary_def summary_total_def)

subsection \<open>The gap between two ticks\<close>

text \<open>
  One active account and its credential, with a refresh token, both expiring at \<open>e\<close>; the clock at \<open>t\<close>.
\<close>

definition gap_world :: "datetime \<Rightarrow> datetime \<Rightarrow> fake_store world" where
  "gap_world t e = (demo_world [demo_account Active (Some e)] [])\<lparr>clock := t, ext :=
     demo_store\<lparr>fk_rows := [credential_row ''gmail'' e], fk_now := t\<rparr>\<rparr>"

lemma gap_read:
  assumes "e \<le> t"
  shows "st_read_token lifted_store 1 ''gmail'' ''a@b.c'' (gap_world t e) =
    (Err failure_expired, (gap_world t e)\<lparr>ext := fake_log (Read 1 ''gmail'' ''a@b.c'') (ext (gap_world t e))\<rparr>)"
  using assms
  by (simp add: lifted_store_def lift_call_def fake_read_token_def fake_gate_def fake_log_def Let_def gap_world_def
      credential_row_def fake_row_def demo_store_def demo_world_def active_row_index_def fake_matches_def)

lemma finish_quiet:
  assumes "faults w = []" and "stmt (clock w) (tables w) = Inr (n, d')"
  shows "finish_with stmt id sm w = (Ok sm, w\<lparr>tables := d'\<rparr>)"
  using assms by (simp add: finish_with_def no_fault_calls)

lemma gap_expires:
  assumes "e \<le> micros 900"
  shows "\<exists>w'. refresh_due demo_env (demo_service r ident) 1 (gap_world (micros 900) e) =
      (Ok (empty_summary\<lparr>sm_expired := 1\<rparr>), w') \<and> map ac_status (accounts (tables w')) = [Expired] \<and>
      fk_rows (ext w') = [credential_row ''gmail'' e]"
proof -
  let ?w = "gap_world (micros 900) e"
  have f: "faults ?w = []" by (simp add: gap_world_def demo_world_def)
  have n: "nat (sv_refresh_batch_size (demo_service r ident)) = Suc (Suc 0)" by (simp add: demo_service_def)
  have wd: "num_seconds (e_chrono demo_env) (sv_refresh_window (demo_service r ident)) = 600"
    by (simp add: demo_env_def demo_service_def ranged_chrono_def micros_def)
  have c: "oldest (filter (\<lambda>r. due 600 (clock ?w) r \<and> ac_id r \<notin> set (locked ?w)) (accounts (tables ?w)))
      = Some (demo_account Active (Some e))"
    using assms by (simp add: gap_world_def demo_world_def due_def demo_account_def oldest_def micros_def)
  have st: "sv_store (demo_service r ident) = lifted_store" by (simp add: demo_service_def)
  define w0 where "w0 = ?w\<lparr>ext := fake_log (Read 1 ''gmail'' ''a@b.c'') (ext ?w)\<rparr>"
  define w1 where "w1 = w0\<lparr>tables := (tables w0)\<lparr>accounts := [(demo_account Expired (Some e))\<lparr>ac_metadata :=
    touch (clock w0) default_audit\<rparr>]\<rparr>\<rparr>"
  have w0: "faults w0 = []" by (simp add: w0_def f)
  have x: "\<exists>n. expire_active 7 (clock w0) (tables w0) = Inr (n, (tables w0)\<lparr>accounts :=
      [(demo_account Expired (Some e))\<lparr>ac_metadata := touch (clock w0) default_audit\<rparr>]\<rparr>)"
    by (simp add: w0_def expire_active_def update_accounts_Inr update_where_def gap_world_def demo_world_def
        demo_account_def)
  then have fin: "refresh_expire 7 id empty_summary w0 = (Ok (empty_summary\<lparr>sm_expired := 1\<rparr>), w1)"
    using finish_quiet [OF w0] by (auto simp: refresh_expire_def w1_def empty_summary_def)
  have r: "refresh_claimed demo_env (demo_service r ident) id 1 7 ''gmail'' ''a@b.c'' empty_summary ?w
      = (Ok (empty_summary\<lparr>sm_expired := 1\<rparr>), w1)"
    using fin by (simp add: refresh_claimed_def st gap_read [OF assms] failure_expired_def w0_def)
  have w1: "faults w1 = []" "map ac_status (accounts (tables w1)) = [Expired]"
    "fk_rows (ext w1) = [credential_row ''gmail'' e]"
    by (simp_all add: w1_def w0_def demo_account_def gap_world_def demo_world_def fake_log_def)
  have "\<not> due 600 t r" if "r \<in> set (accounts (tables w1))" for t r
    using that w1(2) by (auto simp: due_def map_eq_Cons_conv)
  then have c1: "oldest (filter (\<lambda>r. due 600 (clock w1) r \<and> ac_id r \<notin> set (locked w1)) (accounts (tables w1))) = None"
    by (simp add: filter_empty_conv)
  have a: "ac_id (demo_account Active (Some e)) = 7" "oauth_provider_str (ac_provider (demo_account Active (Some e))) = ''gmail''"
    "ac_ref (demo_account Active (Some e)) = ''a@b.c''" by (simp_all add: demo_account_def)
  have res: "refresh_due demo_env (demo_service r ident) 1 ?w = (Ok (empty_summary\<lparr>sm_expired := 1\<rparr>), w1)"
    unfolding refresh_due_def n refresh_loop_turn [OF f wd c] option.case a r attempt.simps
      refresh_loop_turn [OF w1(1) wd c1] ..
  show ?thesis by (intro exI [of _ w1] conjI res w1(2,3))
qed

lemma refresh_due_bounded_demo:
  "summary_total (empty_summary\<lparr>sm_expired := 1\<rparr>) \<le> 2"
proof -
  obtain w' where "refresh_due demo_env (demo_service (Ok demo_token) demo_identity) 1 (gap_world (micros 900) 5) =
      (Ok (empty_summary\<lparr>sm_expired := 1\<rparr>), w')"
    using gap_expires [of 5 "Ok demo_token" demo_identity] by (auto simp: micros_def)
  from refresh_due_bounded [OF this] show ?thesis by (simp add: demo_service_def)
qed

end
