(* ===== verification/Job_Safety.thy ===== *)
theory Job_Safety
  imports Refresh_Job Refresh_Safety
begin

text \<open>
  The properties of the refresh job: how one account's refresh ends, that a run attempts each account at
  most once and leaves no due account unattempted while its batch lasts, and that it keeps the account
  lifecycle.
\<close>

subsection \<open>How one refresh ends\<close>

text \<open>The endpoints and the client the job refreshes an account with.\<close>

definition job_party :: "'x job \<Rightarrow> due_account \<Rightarrow> validated_endpoints \<Rightarrow> client_config \<Rightarrow> bool" where
  "job_party J a eps cl \<longleftrightarrow>
     resolve_endpoints (e_url (jb_env J)) (jb_registry J) (da_provider a) (jb_overrides J) = Ok eps \<and>
     clients_get (jb_clients J) (da_provider a) = Some cl"

text \<open>
  The ways a connection is dead for the job: the store refuses to read the credential, the credential
  has no refresh token, the provider answers \<open>invalid_grant\<close>, or the store refuses the successor.
\<close>

inductive job_dead :: "'x job \<Rightarrow> uuid \<Rightarrow> due_account \<Rightarrow> 'x world \<Rightarrow> 'x world \<Rightarrow> bool"
  for J company a w where
  unreadable: "job_party J a eps cl \<Longrightarrow>
    st_read_token (jb_store J) company (da_provider a) (da_account_ref a) w = (Err f, w1) \<Longrightarrow>
    \<not> is_transport f \<Longrightarrow> job_dead J company a w w1"
| no_refresh_token: "job_party J a eps cl \<Longrightarrow>
    st_read_token (jb_store J) company (da_provider a) (da_account_ref a) w = (Ok b, w1) \<Longrightarrow>
    tb_refresh_token b = None \<Longrightarrow> job_dead J company a w w1"
| rejected: "st_read_token (jb_store J) company (da_provider a) (da_account_ref a) w = (Ok b, w1) \<Longrightarrow>
    tb_refresh_token b = Some rt \<Longrightarrow> job_party J a eps cl \<Longrightarrow>
    tp_exchange (jb_transport J) (ep_token eps) (refresh_form (client_id cl) (client_secret cl) rt) w1 = (Err f, w2) \<Longrightarrow>
    tf_kind f = InvalidGrant \<Longrightarrow> job_dead J company a w w2"
| rotate_refused: "st_read_token (jb_store J) company (da_provider a) (da_account_ref a) w = (Ok b, w1) \<Longrightarrow>
    tb_refresh_token b = Some rt \<Longrightarrow> job_party J a eps cl \<Longrightarrow>
    tp_exchange (jb_transport J) (ep_token eps) (refresh_form (client_id cl) (client_secret cl) rt) w1 = (Ok resp, w2) \<Longrightarrow>
    expires_in resp = Some secs \<Longrightarrow> 0 < secs \<Longrightarrow> e = clock w1 + micros secs \<Longrightarrow>
    st_rotate (jb_store J) company (da_provider a) (da_account_ref a) (job_successor resp b e) e w2 = (Err f, w3) \<Longrightarrow>
    \<not> is_transport f \<Longrightarrow> job_dead J company a w w3"

inductive_cases job_deadE: "job_dead J company a w w'"

text \<open>An outage is no death: an exchange refused for any other reason than the grant leaves the account.\<close>

lemma job_outage_no_death:
  assumes "st_read_token (jb_store J) company (da_provider a) (da_account_ref a) w = (Ok b, w1)"
    and "tb_refresh_token b = Some rt" and "job_party J a eps cl"
    and "tp_exchange (jb_transport J) (ep_token eps) (refresh_form (client_id cl) (client_secret cl) rt) w1 = (Err f, w2)"
    and "tf_kind f \<noteq> InvalidGrant"
  shows "\<not> job_dead J company a w w'"
  using assms by (auto simp: job_party_def elim!: job_deadE)

text \<open>
  The ways the job is unable to tell: the guard or the configuration refuses the provider, the store or the
  provider is unreachable, the answer has no positive lifetime, or the successor was stored but not
  exactly one row is there to mirror it.  The second world is the one the last port call left.
\<close>

inductive job_unable :: "'x job \<Rightarrow> uuid \<Rightarrow> due_account \<Rightarrow> 'x world \<Rightarrow> 'x world \<Rightarrow> bool"
  for J company a w where
  no_party: "(\<And>eps cl. \<not> job_party J a eps cl) \<Longrightarrow> job_unable J company a w w"
| store_down: "job_party J a eps cl \<Longrightarrow>
    st_read_token (jb_store J) company (da_provider a) (da_account_ref a) w = (Err f, w1) \<Longrightarrow>
    is_transport f \<Longrightarrow> job_unable J company a w w1"
| job_outage: "job_party J a eps cl \<Longrightarrow>
    st_read_token (jb_store J) company (da_provider a) (da_account_ref a) w = (Ok b, w1) \<Longrightarrow>
    tb_refresh_token b = Some rt \<Longrightarrow>
    tp_exchange (jb_transport J) (ep_token eps) (refresh_form (client_id cl) (client_secret cl) rt) w1 = (Err f, w2) \<Longrightarrow>
    tf_kind f \<noteq> InvalidGrant \<Longrightarrow> job_unable J company a w w2"
| no_job_lifetime: "job_party J a eps cl \<Longrightarrow>
    st_read_token (jb_store J) company (da_provider a) (da_account_ref a) w = (Ok b, w1) \<Longrightarrow>
    tb_refresh_token b = Some rt \<Longrightarrow>
    tp_exchange (jb_transport J) (ep_token eps) (refresh_form (client_id cl) (client_secret cl) rt) w1 = (Ok resp, w2) \<Longrightarrow>
    (\<And>secs. expires_in resp = Some secs \<Longrightarrow> secs \<le> 0) \<Longrightarrow> job_unable J company a w w2"
| rotate_down: "job_party J a eps cl \<Longrightarrow>
    st_read_token (jb_store J) company (da_provider a) (da_account_ref a) w = (Ok b, w1) \<Longrightarrow>
    tb_refresh_token b = Some rt \<Longrightarrow>
    tp_exchange (jb_transport J) (ep_token eps) (refresh_form (client_id cl) (client_secret cl) rt) w1 = (Ok resp, w2) \<Longrightarrow>
    expires_in resp = Some secs \<Longrightarrow> 0 < secs \<Longrightarrow> e = clock w1 + micros secs \<Longrightarrow>
    st_rotate (jb_store J) company (da_provider a) (da_account_ref a) (job_successor resp b e) e w2 = (Err f, w3) \<Longrightarrow>
    is_transport f \<Longrightarrow> job_unable J company a w w3"
| row_gone: "job_party J a eps cl \<Longrightarrow>
    st_read_token (jb_store J) company (da_provider a) (da_account_ref a) w = (Ok b, w1) \<Longrightarrow>
    tb_refresh_token b = Some rt \<Longrightarrow>
    tp_exchange (jb_transport J) (ep_token eps) (refresh_form (client_id cl) (client_secret cl) rt) w1 = (Ok resp, w2) \<Longrightarrow>
    expires_in resp = Some secs \<Longrightarrow> 0 < secs \<Longrightarrow> e = clock w1 + micros secs \<Longrightarrow>
    st_rotate (jb_store J) company (da_provider a) (da_account_ref a) (job_successor resp b e) e w2 = (Ok rid, w3) \<Longrightarrow>
    rows_affected (\<lambda>r. ac_id r = da_id a) (accounts (tables w3)) \<noteq> 1 \<Longrightarrow> job_unable J company a w w3"

inductive_cases job_unableE: "job_unable J company a w w'"

definition job_ends_expired ::
  "'x job \<Rightarrow> uuid \<Rightarrow> due_account \<Rightarrow> refresh_report \<Rightarrow> 'x world \<Rightarrow> refresh_report \<Rightarrow> 'x world \<Rightarrow> bool" where
  "job_ends_expired J company a rep w rep' w' \<longleftrightarrow> rep' = rep\<lparr>rp_expired := rp_expired rep + 1\<rparr> \<and>
     (\<exists>w1 n. job_dead J company a w w1 \<and> settles w1 w' \<and>
        job_expire (da_id a) (clock w1) (tables w1) = Inr (n, tables w'))"

definition job_ends_skipped ::
  "'x job \<Rightarrow> uuid \<Rightarrow> due_account \<Rightarrow> refresh_report \<Rightarrow> 'x world \<Rightarrow> refresh_report \<Rightarrow> 'x world \<Rightarrow> bool" where
  "job_ends_skipped J company a rep w rep' w' \<longleftrightarrow> rep' = rep\<lparr>rp_skipped := rp_skipped rep + 1\<rparr> \<and>
     (\<exists>w1. job_unable J company a w w1 \<and> settles w1 w' \<and> tables w' = tables w1)"

definition job_ends_refreshed ::
  "'x job \<Rightarrow> uuid \<Rightarrow> due_account \<Rightarrow> refresh_report \<Rightarrow> 'x world \<Rightarrow> refresh_report \<Rightarrow> 'x world \<Rightarrow> bool" where
  "job_ends_refreshed J company a rep w rep' w' \<longleftrightarrow> rep' = rep\<lparr>rp_refreshed := rp_refreshed rep + 1\<rparr> \<and>
     (\<exists>eps cl b w1 rt resp w2 secs rid w3.
        job_party J a eps cl \<and>
        st_read_token (jb_store J) company (da_provider a) (da_account_ref a) w = (Ok b, w1) \<and>
        tb_refresh_token b = Some rt \<and>
        tp_exchange (jb_transport J) (ep_token eps) (refresh_form (client_id cl) (client_secret cl) rt) w1 = (Ok resp, w2) \<and>
        expires_in resp = Some secs \<and> 0 < secs \<and>
        st_rotate (jb_store J) company (da_provider a) (da_account_ref a)
          (job_successor resp b (clock w1 + micros secs)) (clock w1 + micros secs) w2 = (Ok rid, w3) \<and> settles w3 w' \<and>
        job_mirror (da_id a) (clock w1 + micros secs) (clock w3) (tables w3) = Inr (1, tables w'))"

text \<open>The claim leaves the transaction's buffer empty.\<close>

definition empty_tx :: "tx \<Rightarrow> bool" where
  "empty_tx tx \<longleftrightarrow> (\<forall>d. tx d = d)"

lemma job_expired_Ok:
  assumes "job_expired tx i rep w = (Ok rep', w')" and "empty_tx tx"
  shows "rep' = rep\<lparr>rp_expired := rp_expired rep + 1\<rparr> \<and> settles w w' \<and>
    (\<exists>n. job_expire i (clock w) (tables w) = Inr (n, tables w'))"
proof -
  from assms(1) obtain n tx' w1 where x: "execute_in (job_expire i) tx w = (Ok (n, tx'), w1)"
      and c: "commit tx' w1 = (Ok (), w')" and r: "rep' = rep\<lparr>rp_expired := rp_expired rep + 1\<rparr>"
    by (auto simp: job_expired_def expire_account_def attempt_eq_Ok)
  from execute_in_Ok [OF x] commit_Ok [OF c] commit_settles [OF x c] r assms(2) show ?thesis
    by (auto simp: empty_tx_def)
qed

lemma job_dead_expired:
  assumes "job_dead J company a w w1" and "job_expired tx (da_id a) rep w1 = (Ok rep', w')" and "empty_tx tx"
  shows "job_ends_expired J company a rep w rep' w'"
  using job_expired_Ok [OF assms(2,3)] assms(1) by (auto simp: job_ends_expired_def)

lemma job_skipped_Ok:
  "job_skipped tx rep w = (Ok rep', w') \<Longrightarrow>
    rep' = rep\<lparr>rp_skipped := rp_skipped rep + 1\<rparr> \<and> settles w w' \<and> tables w' = tables w"
  using rollback_settles [of tx w] by (auto simp: job_skipped_def attempt_eq_Ok)

lemma job_unable_skipped:
  assumes "job_unable J company a w w1" and "job_skipped tx rep w1 = (Ok rep', w')"
  shows "job_ends_skipped J company a rep w rep' w'"
  using job_skipped_Ok [OF assms(2)] assms(1) by (auto simp: job_ends_skipped_def)

lemma job_mirrored_Ok:
  assumes "job_mirrored tx i e rep w = (Ok rep', w')" and "empty_tx tx"
  shows "settles w w' \<and>
    (if rows_affected (\<lambda>r. ac_id r = i) (accounts (tables w)) = 1
     then rep' = rep\<lparr>rp_refreshed := rp_refreshed rep + 1\<rparr> \<and> job_mirror i e (clock w) (tables w) = Inr (1, tables w')
     else rep' = rep\<lparr>rp_skipped := rp_skipped rep + 1\<rparr> \<and> tables w' = tables w)"
proof -
  from assms(1) obtain n tx' w1 where x: "execute_in (job_mirror i e) tx w = (Ok (n, tx'), w1)"
      and rest: "(if n \<noteq> 1 then job_skipped tx' rep w1
        else attempt (commit tx' w1) (\<lambda>_ w. (Ok (rep\<lparr>rp_refreshed := rp_refreshed rep + 1\<rparr>), w))) = (Ok rep', w')"
    by (auto simp: job_mirrored_def attempt_eq_Ok)
  have n: "n = rows_affected (\<lambda>r. ac_id r = i) (accounts (tables w))"
    using execute_in_Ok [OF x] assms(2) by (auto simp: empty_tx_def job_mirror_def update_accounts_Inr)
  have same: "tables w1 = tables w" "settles w w1"
    using execute_in_Ok [OF x] calls_locked(3) [of "job_mirror i e" tx w] x by (auto simp: settles_def)
  show ?thesis
  proof (cases "n = 1")
    case True
    with rest obtain u where c: "commit tx' w1 = (Ok u, w')" and r: "rep' = rep\<lparr>rp_refreshed := rp_refreshed rep + 1\<rparr>"
      by (auto simp: attempt_eq_Ok)
    have "job_mirror i e (clock w) (tables w) = Inr (1, tables w')"
      using execute_in_Ok [OF x] commit_Ok [OF c] True assms(2) by (auto simp: empty_tx_def)
    then show ?thesis using commit_settles [OF x c] r n True by simp
  next
    case False
    with rest have "job_skipped tx' rep w1 = (Ok rep', w')" by simp
    from job_skipped_Ok [OF this] same n False show ?thesis by (simp add: settles_def)
  qed
qed

text \<open>The store of an exchanged token ends one way or the other.\<close>

lemma job_store_Ok:
  assumes run: "job_store J tx company a b resp expires rep w2 = (Ok rep', w')" and tx: "empty_tx tx"
    and party: "job_party J a eps cl"
    and read: "st_read_token (jb_store J) company (da_provider a) (da_account_ref a) w = (Ok b, w1)"
    and rt: "tb_refresh_token b = Some rt"
    and x: "tp_exchange (jb_transport J) (ep_token eps) (refresh_form (client_id cl) (client_secret cl) rt) w1 = (Ok resp, w2)"
    and secs: "expires_in resp = Some secs" "0 < secs" "expires = clock w1 + micros secs"
  shows "job_ends_expired J company a rep w rep' w' \<or> job_ends_skipped J company a rep w rep' w' \<or>
    job_ends_refreshed J company a rep w rep' w'"
proof -
  obtain q w3 where rot: "st_rotate (jb_store J) company (da_provider a) (da_account_ref a)
      (job_successor resp b expires) expires w2 = (q, w3)" by fastforce
  show ?thesis
  proof (cases q)
    case (Ok rid)
    with run rot have "job_mirrored tx (da_id a) expires rep w3 = (Ok rep', w')" by (simp add: job_store_def)
    note m = job_mirrored_Ok [OF this tx]
    show ?thesis
    proof (cases "rows_affected (\<lambda>r. ac_id r = da_id a) (accounts (tables w3)) = 1")
      case True
      with m party read rt x secs rot Ok have "job_ends_refreshed J company a rep w rep' w'"
        unfolding job_ends_refreshed_def
        by (intro conjI exI [of _ eps] exI [of _ cl] exI [of _ b] exI [of _ w1] exI [of _ rt] exI [of _ resp]
            exI [of _ w2] exI [of _ secs] exI [of _ rid] exI [of _ w3]) simp_all
      then show ?thesis by blast
    next
      case False
      have "job_unable J company a w w3" by (rule row_gone [OF party read rt x secs rot [unfolded Ok] False])
      with m False have "job_ends_skipped J company a rep w rep' w'" by (auto simp: job_ends_skipped_def)
      then show ?thesis by blast
    qed
  next
    case (Err f)
    show ?thesis
    proof (cases "is_transport f")
      case True
      with run rot Err have "job_skipped tx rep w3 = (Ok rep', w')" by (simp add: job_store_def)
      with rotate_down [OF party read rt x secs rot [unfolded Err] True] show ?thesis using job_unable_skipped by blast
    next
      case False
      with run rot Err have "job_expired tx (da_id a) rep w3 = (Ok rep', w')" by (simp add: job_store_def)
      with rotate_refused [OF read rt party x secs rot [unfolded Err] False] show ?thesis using job_dead_expired tx by blast
    qed
  next
    case Panic
    with run rot show ?thesis by (simp add: job_store_def)
  qed
qed

lemma job_exchange_Ok:
  assumes run: "job_exchange J tx company a eps cl b rt rep w1 = (Ok rep', w')" and tx: "empty_tx tx"
    and laws: "chrono_laws (e_chrono (jb_env J))" and party: "job_party J a eps cl"
    and read: "st_read_token (jb_store J) company (da_provider a) (da_account_ref a) w = (Ok b, w1)"
    and rt: "tb_refresh_token b = Some rt"
  shows "job_ends_expired J company a rep w rep' w' \<or> job_ends_skipped J company a rep w rep' w' \<or>
    job_ends_refreshed J company a rep w rep' w'"
proof -
  obtain r w2 where x: "tp_exchange (jb_transport J) (ep_token eps) (refresh_form (client_id cl) (client_secret cl) rt) w1 = (r, w2)"
    by fastforce
  show ?thesis
  proof (cases r)
    case (Ok resp)
    with run x obtain expiry where e: "(expires_at (e_chrono (jb_env J)) resp (clock w1) :: (db_error, _) res) = Ok expiry"
        and rest: "(case expiry of None \<Rightarrow> job_skipped tx rep w2
          | Some expires \<Rightarrow> job_store J tx company a b resp expires rep w2) = (Ok rep', w')"
      by (auto simp: job_exchange_def attempt_eq_Ok)
    show ?thesis
    proof (cases expiry)
      case None
      have "job_unable J company a w w2"
        using no_job_lifetime [OF party read rt x [unfolded Ok]] expires_at_None [OF e [unfolded None]] by blast
      with rest None show ?thesis using job_unable_skipped by auto
    next
      case (Some expires)
      from expires_at_Some [OF e [unfolded Some] laws] obtain secs where
        secs: "expires_in resp = Some secs" "0 < secs" "expires = clock w1 + micros secs" by blast
      from rest Some have "job_store J tx company a b resp expires rep w2 = (Ok rep', w')" by simp
      then show ?thesis by (rule job_store_Ok [OF _ tx party read rt x [unfolded Ok] secs])
    qed
  next
    case (Err f)
    show ?thesis
    proof (cases "tf_kind f = InvalidGrant")
      case True
      with run x Err have "job_expired tx (da_id a) rep w2 = (Ok rep', w')" by (simp add: job_exchange_def)
      with rejected [OF read rt party x [unfolded Err] True] show ?thesis using job_dead_expired tx by blast
    next
      case False
      with run x Err have "job_skipped tx rep w2 = (Ok rep', w')" by (simp add: job_exchange_def)
      with job_outage [OF party read rt x [unfolded Err] False] show ?thesis using job_unable_skipped by blast
    qed
  next
    case Panic
    with run x show ?thesis by (simp add: job_exchange_def)
  qed
qed

lemma refresh_one_party:
  assumes run: "refresh_one J tx company a rep w = (Ok rep', w')" and tx: "empty_tx tx"
    and laws: "chrono_laws (e_chrono (jb_env J))" and party: "job_party J a eps cl"
  shows "job_ends_expired J company a rep w rep' w' \<or> job_ends_skipped J company a rep w rep' w' \<or>
    job_ends_refreshed J company a rep w rep' w'"
proof -
  note p = party [unfolded job_party_def]
  obtain r w1 where read: "st_read_token (jb_store J) company (da_provider a) (da_account_ref a) w = (r, w1)" by fastforce
  show ?thesis
  proof (cases r)
    case r: (Ok b)
    show ?thesis
    proof (cases "tb_refresh_token b")
      case None
      with run p read r have "job_expired tx (da_id a) rep w1 = (Ok rep', w')" by (simp add: refresh_one_def)
      with no_refresh_token [OF party read [unfolded r] None] show ?thesis using job_dead_expired tx by blast
    next
      case (Some rt)
      with run p read r have "job_exchange J tx company a eps cl b rt rep w1 = (Ok rep', w')"
        by (simp add: refresh_one_def)
      then show ?thesis by (rule job_exchange_Ok [OF _ tx laws party read [unfolded r] Some])
    qed
  next
    case (Err f)
    show ?thesis
    proof (cases "is_transport f")
      case True
      with run p read Err have "job_skipped tx rep w1 = (Ok rep', w')" by (simp add: refresh_one_def)
      with store_down [OF party read [unfolded Err] True] show ?thesis using job_unable_skipped by blast
    next
      case False
      with run p read Err have "job_expired tx (da_id a) rep w1 = (Ok rep', w')" by (simp add: refresh_one_def)
      with unreadable [OF party read [unfolded Err] False] show ?thesis using job_dead_expired tx by blast
    qed
  next
    case Panic
    with run p read show ?thesis by (simp add: refresh_one_def)
  qed
qed

lemma refresh_one_ends:
  assumes run: "refresh_one J tx company a rep w = (Ok rep', w')" and tx: "empty_tx tx"
    and laws: "chrono_laws (e_chrono (jb_env J))"
  shows "job_ends_expired J company a rep w rep' w' \<or> job_ends_skipped J company a rep w rep' w' \<or>
    job_ends_refreshed J company a rep w rep' w'"
proof (cases "\<exists>eps cl. job_party J a eps cl")
  case True
  then show ?thesis using refresh_one_party [OF run tx laws] by blast
next
  case False
  with run have "job_skipped tx rep w = (Ok rep', w')"
    by (auto simp: refresh_one_def job_party_def split: res.splits option.splits)
  with no_party False show ?thesis using job_unable_skipped by blast
qed

text \<open>The reasons exclude each other: what the ports answer decides.\<close>

lemma job_party_unique: "job_party J a eps cl \<Longrightarrow> job_party J a eps' cl' \<Longrightarrow> eps' = eps \<and> cl' = cl"
  by (simp add: job_party_def)

lemma job_dead_excludes:
  assumes "job_dead J company a w w1"
  shows "\<not> job_ends_skipped J company a rep w rep' w'" "\<not> job_ends_refreshed J company a rep w rep' w'"
  using assms
  by (auto simp: job_ends_skipped_def job_ends_refreshed_def elim!: job_deadE job_unableE dest: job_party_unique)

lemma job_dead_iff:
  assumes "refresh_one J tx company a rep w = (Ok rep', w')" and "empty_tx tx" and "chrono_laws (e_chrono (jb_env J))"
  shows "rp_expired rep' = rp_expired rep + 1 \<longleftrightarrow> (\<exists>w1. job_dead J company a w w1)"
proof (cases "job_ends_expired J company a rep w rep' w'")
  case True
  then show ?thesis by (auto simp: job_ends_expired_def)
next
  case False
  with refresh_one_ends [OF assms]
  have other: "job_ends_skipped J company a rep w rep' w' \<or> job_ends_refreshed J company a rep w rep' w'" by blast
  then have "rp_expired rep' = rp_expired rep" by (auto simp: job_ends_skipped_def job_ends_refreshed_def)
  moreover have "\<not> job_dead J company a w w1" for w1
    using other job_dead_excludes [of J company a w w1] by blast
  ultimately show ?thesis by simp
qed

text \<open>
  C13.  The job's refresh of one claimed account ends in exactly the counter it reports, for the reason that
  counter stands for, and has then written exactly this.  It reports an expiry if and only if the
  connection is dead: the store refuses the read or the rotation for a reason that is not a transport
  failure, the credential carries no refresh token, or the provider answers \<open>invalid_grant\<close>; it then runs
  the expiry statement.  It counts as refreshed only when the guard accepted the provider's endpoints, the
  successor was stored under an expiry counted from before the exchange with a positive lifetime, and
  exactly one row now mirrors it.  In every other case (no accepted endpoints or client, an unreachable
  store or provider, an answer without a lifetime, no row to mirror the successor on) it counts as skipped
  and the tables are as the last port call left them: the account stays due.
\<close>

theorem job_refresh_outcomes:
  assumes "refresh_one J id company a rep w = (Ok rep', w')" and "chrono_laws (e_chrono (jb_env J))"
  shows "(job_ends_expired J company a rep w rep' w' \<or> job_ends_skipped J company a rep w rep' w' \<or>
      job_ends_refreshed J company a rep w rep' w') \<and>
    (rp_expired rep' = rp_expired rep + 1 \<longleftrightarrow> (\<exists>w1. job_dead J company a w w1))"
proof -
  have "empty_tx id" by (simp add: empty_tx_def)
  with refresh_one_ends [OF assms(1) _ assms(2)] job_dead_iff [OF assms(1) _ assms(2)] show ?thesis by blast
qed

subsection \<open>One counter per attempt\<close>

definition report_total :: "refresh_report \<Rightarrow> nat" where
  "report_total r = rp_refreshed r + rp_expired r + rp_skipped r"

lemma total_one:
  assumes "refresh_one J tx company a rep w = (Ok rep', w')" and "empty_tx tx" and "chrono_laws (e_chrono (jb_env J))"
  shows "report_total rep' = Suc (report_total rep)"
  using refresh_one_ends [OF assms]
  by (auto simp: job_ends_expired_def job_ends_skipped_def job_ends_refreshed_def report_total_def)

subsection \<open>The turns of a run\<close>

text \<open>A turn either finds nothing to claim, or refreshes one due account that was not attempted yet.\<close>

definition claimable :: "'x job \<Rightarrow> uuid list \<Rightarrow> 'x world \<Rightarrow> account \<Rightarrow> bool" where
  "claimable J attempted w r \<longleftrightarrow> r \<in> set (accounts (tables w))
     \<and> due (rs_refresh_window_seconds (jb_schedule J)) (clock w) r
     \<and> ac_id r \<notin> set attempted \<and> ac_id r \<notin> set (locked w)"

lemma job_loop_turn:
  assumes "job_loop J company (Suc n) att rep w = (Ok (att', rep'), w')"
  obtains (idle) "\<And>r. \<not> claimable J att w r" "att' = att" "rep' = rep"
      "tables w' = tables w" "settles w w'"
    | (turn) r tx w3 rep1 w4 where "claimable J att w r" "empty_tx tx"
      "tables w3 = tables w" "clock w3 = clock w" "locked w3 = locked w"
      "refresh_one J tx company (claimed_account r) rep w3 = (Ok rep1, w4)"
      "job_loop J company n (ac_id r # att) rep1 w4 = (Ok (att', rep'), w')"
      "ext w3 = ext w" "\<And>r'. claimable J att w r' \<Longrightarrow> expiry_key r \<le> expiry_key r'"
proof -
  from assms obtain t1 w1 t2 w2 c t3 w3 where
      b: "begin_tx w = (Ok t1, w1)" "bind_ambient_org_scope (e_scoped (jb_env J)) t1 w1 = (Ok t2, w2)"
    and x: "execute_in (claim_due_excluding (rs_refresh_window_seconds (jb_schedule J)) att (locked w2)) t2 w2 = (Ok (c, t3), w3)"
    and rest: "(case c of None \<Rightarrow> attempt (rollback t3 w3) (\<lambda>_ w. (Ok (att, rep), w))
      | Some r \<Rightarrow> attempt (refresh_one J t3 company (claimed_account r) rep w3)
          (\<lambda>rep w. job_loop J company n (ac_id r # att) rep w)) = (Ok (att', rep'), w')"
    by (auto simp: attempt_eq_Ok)
  have 2: "t2 = id" "tables w2 = tables w" "clock w2 = clock w" "ext w2 = ext w"
    using begin_tx_Ok [OF b(1)] bind_scope_Ok [OF b(2)] by auto
  have l: "locked w2 = locked w"
    using calls_locked(1) [of w] calls_locked(2) [of "e_scoped (jb_env J)" t1 w1] b by simp
  have l3: "locked w3 = locked w"
    using arg_cong [OF x, of "\<lambda>p. locked (snd p)"] l by simp
  have 3: "tables w3 = tables w" "clock w3 = clock w" "empty_tx t3" "ext w3 = ext w"
      "c = oldest (filter (\<lambda>r. due (rs_refresh_window_seconds (jb_schedule J)) (clock w) r
         \<and> ac_id r \<notin> set att \<and> ac_id r \<notin> set (locked w)) (accounts (tables w)))"
    using execute_in_Ok [OF x] 2 l by (auto simp: claim_due_excluding_def empty_tx_def)
  show thesis
  proof (cases c)
    case None
    have "\<not> claimable J att w r" for r using 3(5) [symmetric] None by (auto simp: claimable_def filter_empty_conv)
    moreover have "att' = att" "rep' = rep" "tables w' = tables w" "settles w w'"
      using rest None rollback_settles [of t3 w3] 3(1,2,4) l3 by (auto simp: attempt_eq_Ok settles_def)
    ultimately show ?thesis by (rule idle)
  next
    case (Some r)
    note o = oldest_Some [OF 3(5) [unfolded Some, symmetric]]
    have "claimable J att w r" using o(1) by (simp add: claimable_def)
    moreover have "expiry_key r \<le> expiry_key r'" if "claimable J att w r'" for r'
      using o(2) that by (simp add: claimable_def)
    moreover from rest Some obtain rep1 w4 where "refresh_one J t3 company (claimed_account r) rep w3 = (Ok rep1, w4)"
        "job_loop J company n (ac_id r # att) rep1 w4 = (Ok (att', rep'), w')"
      by (auto simp: attempt_eq_Ok)
    ultimately show ?thesis using turn 3(1-4) l3 by blast
  qed
qed

text \<open>
  What every refresh of a claimed account keeps, a whole run keeps, whatever its result: \<open>I\<close> looks at the
  tables only.
\<close>

lemma job_loop_invariant:
  assumes frame: "\<And>w w'. I w \<Longrightarrow> tables w' = tables w \<Longrightarrow> I w'"
    and turn: "\<And>r tx rep w. I w \<Longrightarrow> empty_tx tx \<Longrightarrow> r \<in> set (accounts (tables w)) \<Longrightarrow> ac_status r = Active \<Longrightarrow>
      I (snd (refresh_one J tx company (claimed_account r) rep w))"
  shows "I w \<Longrightarrow> I (snd (job_loop J company n att rep w))"
proof (induction n arbitrary: att rep w)
  case (Suc n)
  have claimed: "I (snd (case c of None \<Rightarrow> attempt (rollback tx w3) (\<lambda>_ w. (Ok (att, rep), w))
      | Some r \<Rightarrow> attempt (refresh_one J tx company (claimed_account r) rep w3)
          (\<lambda>rep w. job_loop J company n (ac_id r # att) rep w)))"
    if x: "execute_in (claim_due_excluding wd att held) id w2 = (Ok (c, tx), w3)" and w2: "I w2" for wd held w2 c tx w3
  proof -
    from execute_in_Ok [OF x] have 3: "empty_tx tx" "tables w3 = tables w2"
        "\<And>r. c = Some r \<Longrightarrow> r \<in> set (accounts (tables w3)) \<and> ac_status r = Active"
      by (auto simp: claim_due_excluding_def empty_tx_def due_def dest!: oldest_Some(1))
    have w3: "I w3" by (rule frame [OF w2 3(2)])
    show ?thesis
    proof (cases c)
      case None
      have "I (snd (attempt (rollback tx w3) (\<lambda>_ w. (Ok (att, rep), w))))"
        by (rule attempt_keeps) (simp_all add: frame [OF w3])
      with None show ?thesis by simp
    next
      case (Some r)
      have "I (snd (attempt (refresh_one J tx company (claimed_account r) rep w3)
          (\<lambda>rep w. job_loop J company n (ac_id r # att) rep w)))"
        by (rule attempt_keeps) (use turn [OF w3 3(1)] 3(3) Some Suc.IH in auto)
      with Some show ?thesis by simp
    qed
  qed
  show ?case
    unfolding job_loop.simps
  proof (intro attempt_keeps [where I = I])
    fix t1 w1 assume w1: "begin_tx w = (Ok t1, w1)" "I w1"
    then have t1: "t1 = id" using begin_tx_Ok by blast
    show "I (snd (bind_ambient_org_scope (e_scoped (jb_env J)) t1 w1))" by (simp add: frame [OF w1(2)])
    fix t2 w2 assume w2: "bind_ambient_org_scope (e_scoped (jb_env J)) t1 w1 = (Ok t2, w2)" "I w2"
    then have t2: "t2 = id" using bind_scope_Ok t1 by blast
    show "I (snd (execute_in (claim_due_excluding (rs_refresh_window_seconds (jb_schedule J)) att (locked w2)) t2 w2))"
      by (simp add: frame [OF w2(2)])
    fix x w3
    assume "execute_in (claim_due_excluding (rs_refresh_window_seconds (jb_schedule J)) att (locked w2)) t2 w2 = (Ok x, w3)"
    then show "I (snd ((case x of (claimed, tx) \<Rightarrow> \<lambda>w.
        case claimed of None \<Rightarrow> attempt (rollback tx w) (\<lambda>_ w. (Ok (att, rep), w))
        | Some r \<Rightarrow> attempt (refresh_one J tx company (claimed_account r) rep w)
            (\<lambda>rep w. job_loop J company n (ac_id r # att) rep w)) w3))"
      using claimed w2(2) by (cases x) (simp add: t2)
  qed (simp add: frame [OF Suc.prems])
qed simp

lemma fan_out_invariant:
  assumes "\<And>w w'. I w \<Longrightarrow> tables w' = tables w \<Longrightarrow> I w'"
    and "\<And>r tx c rep w. I w \<Longrightarrow> empty_tx tx \<Longrightarrow> r \<in> set (accounts (tables w)) \<Longrightarrow> ac_status r = Active \<Longrightarrow>
      I (snd (refresh_one J tx c (claimed_account r) rep w))"
  shows "I w \<Longrightarrow> I (snd (refresh_for_companies J cs w))"
proof (induction cs arbitrary: w)
  case (Cons c cs)
  obtain x w1 where x: "refresh_oauth_credentials J c w = (x, w1)" by fastforce
  have "I (snd (refresh_oauth_credentials J c w))"
    unfolding refresh_oauth_credentials_def job_run_def
    by (rule attempt_keeps) (auto intro: job_loop_invariant [OF assms(1,2) Cons.prems])
  then have w1: "I w1" using x by simp
  have "I (snd (attempt (refresh_for_companies J cs w1) (\<lambda>out w. (Ok (f out), w))))" for f
    by (rule attempt_keeps) (use Cons.IH [OF w1] in auto)
  then show ?case using x w1 by (cases x) simp_all
qed simp

lemma job_loop_attempts:
  "job_loop J company n att rep w = (Ok (att', rep'), w') \<Longrightarrow> chrono_laws (e_chrono (jb_env J)) \<Longrightarrow>
    distinct att \<Longrightarrow> report_total rep = length att \<Longrightarrow>
    distinct att' \<and> report_total rep' = length att' \<and> length att' \<le> length att + n \<and> set att \<subseteq> set att'"
proof (induction n arbitrary: att rep w)
  case (Suc n)
  from Suc.prems(1) show ?case
  proof (cases rule: job_loop_turn)
    case (turn r tx w3 rep1 w4)
    have "report_total rep1 = Suc (report_total rep)" by (rule total_one [OF turn(6,2) Suc.prems(2)])
    with Suc.IH [OF turn(7) Suc.prems(2)] turn(1) Suc.prems(3,4) show ?thesis by (auto simp: claimable_def)
  qed (use Suc.prems in auto)
qed auto

lemma job_run_attempts:
  "job_run J company w = (Ok (att, rep), w') \<Longrightarrow> chrono_laws (e_chrono (jb_env J)) \<Longrightarrow>
    distinct att \<and> report_total rep = length att \<and> length att \<le> nat (rs_refresh_batch_size (jb_schedule J))"
  unfolding job_run_def
  by (drule (1) job_loop_attempts) (simp_all add: empty_report_def report_total_def)

text \<open>
  C23.  One run attempts each account at most once and counts each attempt once: the accounts it attempted
  are pairwise distinct, the three counters sum to their number, and that is at most the batch size (none
  for a negative one).
\<close>

theorem job_attempts_once:
  assumes "job_run J company w = (Ok (att, rep), w')" and "chrono_laws (e_chrono (jb_env J))"
  shows "distinct att \<and> rp_refreshed rep + rp_expired rep + rp_skipped rep = length att
    \<and> length att \<le> nat (rs_refresh_batch_size (jb_schedule J))"
  using job_run_attempts [OF assms] by (simp add: report_total_def)

subsection \<open>A concrete run\<close>

text \<open>
  The in-memory store, the built-in providers and a provider that answers with a fresh token; one
  active account inside the window, its credential still readable.
\<close>

definition demo_job :: "fake_store job" where
  "demo_job = \<lparr>jb_env = demo_env, jb_registry = registry_with_builtin, jb_overrides = [],
     jb_clients = [(''gmail'', \<lparr>client_id = ''id'', client_secret = None\<rparr>)], jb_store = lifted_store,
     jb_transport = answering (Ok demo_token) demo_identity, jb_schedule = default_schedule\<rparr>"

abbreviation soon :: datetime where
  "soon \<equiv> micros 300"

abbreviation due_soon :: account where
  "due_soon \<equiv> demo_account Active (Some soon)"

definition refreshed_once :: refresh_report where
  "refreshed_once = \<lparr>rp_refreshed = 1, rp_expired = 0, rp_skipped = 0\<rparr>"

lemma demo_refresh_one:
  "\<exists>w'. refresh_one demo_job id 1 (claimed_account due_soon) empty_report (gap_world 0 soon) = (Ok refreshed_once, w')
     \<and> map ac_id (accounts (tables w')) = [7] \<and> faults w' = [] \<and> locked w' = []"
proof -
  let ?w = "gap_world 0 soon"
  obtain eps where eps: "resolve_endpoints plain_url_lib registry_with_builtin ''gmail'' [] = Ok eps"
    using builtin_resolves [of "''gmail''"] by auto
  have i: "active_row_index (fk_rows (ext ?w)) 1 ''gmail'' ''a@b.c'' = Some 0"
    by (simp add: gap_world_def credential_row_def fake_row_def active_row_index_def fake_matches_def)
  define w1 where "w1 = ?w\<lparr>ext := fake_log (Read 1 ''gmail'' ''a@b.c'') (ext ?w)\<rparr>"
  have rd: "st_read_token lifted_store 1 ''gmail'' ''a@b.c'' ?w = (Ok (token_bundle_new ''at'' (Some ''rt'') soon None), w1)"
    using i by (simp add: lifted_store_def lift_call_def fake_read_token_def fake_gate_def fake_log_def Let_def w1_def
        gap_world_def credential_row_def fake_row_def token_bundle_new_def demo_store_def micros_def)
  have f1: "clock w1 = 0" "faults w1 = []" "tables w1 = tables ?w" "locked w1 = []"
      "fk_rows (ext w1) = fk_rows (ext ?w)" "fk_fail_with (ext w1) = None"
    by (simp_all add: w1_def gap_world_def demo_world_def fake_log_def demo_store_def)
  define b where "b = job_successor demo_token (token_bundle_new ''at'' (Some ''rt'') soon None) (micros 3600)"
  obtain rid w2 where rot: "st_rotate lifted_store 1 ''gmail'' ''a@b.c'' b (micros 3600) w1 = (Ok rid, w2)"
      and f2: "clock w2 = 0" "faults w2 = []" "tables w2 = tables ?w" "locked w2 = []"
    using i f1 by (simp add: lifted_store_def lift_call_def fake_rotate_def fake_gate_def fake_log_def fake_new_id_def Let_def)
  define w3 where "w3 = w2\<lparr>tables := snd (projr (job_mirror 7 (micros 3600) 0 (tables ?w)))\<rparr>"
  have m: "job_mirrored id 7 (micros 3600) empty_report w2 = (Ok refreshed_once, w3)"
    using f2 by (simp add: job_mirrored_def no_fault_calls job_mirror_def update_accounts_def rows_affected_def
        gap_world_def demo_world_def demo_account_def w3_def empty_report_def refreshed_once_def)
  have "refresh_one demo_job id 1 (claimed_account due_soon) empty_report ?w = (Ok refreshed_once, w3)"
    using eps rd rot m f1
    by (simp add: refresh_one_def job_exchange_def job_store_def demo_job_def demo_env_def claimed_account_def
        clients_get_def btree_get_def answering_def demo_expires b_def demo_account_def token_bundle_new_def)
  moreover have "map ac_id (accounts (tables w3)) = [7]" "faults w3 = []" "locked w3 = []"
    using f2 by (simp_all add: w3_def job_mirror_def update_accounts_def update_where_def gap_world_def demo_world_def
        demo_account_def)
  ultimately show ?thesis by (intro exI [of _ w3] conjI)
qed

theorem job_refresh_outcomes_witness:
  "\<exists>rep w'. refresh_one demo_job id 1 (claimed_account due_soon) empty_report (gap_world 0 soon) = (Ok rep, w')
     \<and> job_ends_refreshed demo_job 1 (claimed_account due_soon) empty_report (gap_world 0 soon) rep w'"
proof -
  obtain w' where w': "refresh_one demo_job id 1 (claimed_account due_soon) empty_report (gap_world 0 soon)
      = (Ok refreshed_once, w')" using demo_refresh_one by blast
  have "chrono_laws (e_chrono (jb_env demo_job))" by (simp add: demo_job_def demo_env_def ranged_chrono_laws)
  from job_refresh_outcomes [OF w' this] w' show ?thesis
    by (auto simp: job_ends_expired_def job_ends_skipped_def refreshed_once_def empty_report_def)
qed

text \<open>One turn of the run when the database answers.\<close>

lemma job_loop_quiet_turn:
  assumes "faults w = []"
    and "oldest (filter (\<lambda>r. due (rs_refresh_window_seconds (jb_schedule J)) (clock w) r
      \<and> ac_id r \<notin> set att \<and> ac_id r \<notin> set (locked w)) (accounts (tables w))) = c"
  shows "job_loop J company (Suc n) att rep w =
    (case c of
       None \<Rightarrow> (Ok (att, rep), w)
     | Some r \<Rightarrow> attempt (refresh_one J id company (claimed_account r) rep w)
         (\<lambda>rep w. job_loop J company n (ac_id r # att) rep w))"
proof -
  have x: "execute_in (claim_due_excluding (rs_refresh_window_seconds (jb_schedule J)) att (locked w)) id w = (Ok (c, id), w)"
    using assms by (simp add: no_fault_calls claim_due_excluding_def fun_eq_iff)
  show ?thesis unfolding job_loop.simps
    by (simp add: no_fault_calls(2,4,5) [OF assms(1)] x split: option.split)
qed

lemma demo_job_run: "\<exists>w'. job_run demo_job 1 (gap_world 0 soon) = (Ok ([7], refreshed_once), w')"
proof -
  let ?w = "gap_world 0 soon"
  have f: "faults ?w = []" by (simp add: gap_world_def demo_world_def)
  have n: "nat (rs_refresh_batch_size (jb_schedule demo_job)) = Suc (Suc 98)"
    by (simp add: demo_job_def default_schedule_def)
  have c: "oldest (filter (\<lambda>r. due (rs_refresh_window_seconds (jb_schedule demo_job)) (clock ?w) r
      \<and> ac_id r \<notin> set [] \<and> ac_id r \<notin> set (locked ?w)) (accounts (tables ?w))) = Some due_soon"
    by (simp add: gap_world_def demo_world_def due_def demo_account_def oldest_def micros_def demo_job_def default_schedule_def)
  obtain w1 where w1: "refresh_one demo_job id 1 (claimed_account due_soon) empty_report ?w = (Ok refreshed_once, w1)"
      "map ac_id (accounts (tables w1)) = [7]" "faults w1 = []"
    by (rule exE [OF demo_refresh_one]) (elim conjE)
  have "\<forall>r \<in> set (accounts (tables w1)). ac_id r = 7" using w1(2) by (auto simp: map_eq_Cons_conv)
  then have c1: "oldest (filter (\<lambda>r. due (rs_refresh_window_seconds (jb_schedule demo_job)) (clock w1) r
      \<and> ac_id r \<notin> set [7] \<and> ac_id r \<notin> set (locked w1)) (accounts (tables w1))) = None"
    by (auto simp: filter_empty_conv)
  have i: "ac_id due_soon = 7" by (simp add: demo_account_def)
  have "job_run demo_job 1 ?w = (Ok ([7], refreshed_once), w1)"
    unfolding job_run_def n job_loop_quiet_turn [OF f c] option.case w1(1) attempt.simps i
      job_loop_quiet_turn [OF w1(3) c1] ..
  then show ?thesis by blast
qed

theorem job_attempts_once_witness:
  "\<exists>w'. job_run demo_job 1 (gap_world 0 soon) = (Ok ([7], refreshed_once), w')
     \<and> rp_refreshed refreshed_once + rp_expired refreshed_once + rp_skipped refreshed_once = length [7 :: uuid]"
proof -
  obtain w' where w': "job_run demo_job 1 (gap_world 0 soon) = (Ok ([7], refreshed_once), w')" using demo_job_run by blast
  have "chrono_laws (e_chrono (jb_env demo_job))" by (simp add: demo_job_def demo_env_def ranged_chrono_laws)
  from job_attempts_once [OF w' this] w' show ?thesis by blast
qed

end
