(* ===== verification/Event_Ledger.thy ===== *)
theory Event_Ledger
  imports Account_Ledger
begin

text \<open>
  The tables \<open>integrations.integration_connectors\<close> and \<open>integrations.integration_events\<close>: one
  definition per SQL statement of the two repositories (\<open>infrastructure/persistence\<close>), the ledger's
  invariant, and the guarantee every statement gives.  The migrations' constraints are part of the
  statements: primary keys, the dedup index on (connector, business key), the foreign key, the enum
  casts and the declared checks.  The audit triggers are too.
\<close>

subsection \<open>The declared checks\<close>

definition connector_checks :: "connector \<Rightarrow> bool" where
  "connector_checks c \<longleftrightarrow> non_blank (co_provider c) \<and> char_length (co_provider c) \<le> 60"

definition event_checks :: "event \<Rightarrow> bool" where
  "event_checks r \<longleftrightarrow>
     non_blank (ev_type r) \<and> char_length (ev_type r) \<le> 80
   \<and> non_blank (ev_external_id r) \<and> char_length (ev_external_id r) \<le> 200
   \<and> non_blank (ev_business_key r) \<and> char_length (ev_business_key r) \<le> 200
   \<and> non_blank (ev_payload r) \<and> char_length (ev_payload r) \<le> 20000
   \<and> (case ev_ref_type r of None \<Rightarrow> True | Some s \<Rightarrow> char_length s \<le> 60)
   \<and> (case ev_error r of None \<Rightarrow> True | Some s \<Rightarrow> char_length s \<le> 1000)"

subsection \<open>IntegrationConnectorRepository\<close>

record new_connector_row =
  ncr_id :: uuid
  ncr_provider :: string
  ncr_kind :: string
  ncr_direction :: string

record connector_gate_row =
  cg_kind :: string
  cg_status :: string

text \<open>
  \<open>unit_unique\<close> says whether the deployment's tenancy decorator has re-declared the
  one-connector-per-provider index; the module's own migrations drop it.
\<close>

definition insert_connector :: "bool \<Rightarrow> new_connector_row \<Rightarrow> unit stmt" where
  [sql]: "insert_connector unit_unique c t d =
    (case (kind_of_label (ncr_kind c), direction_of_label (ncr_direction c)) of
       (Some k, Some dir) \<Rightarrow>
         (let row = \<lparr>co_id = ncr_id c, co_provider = ncr_provider c, co_kind = k, co_direction = dir,
                co_status = Enabled, co_metadata = stamp_insert t default_audit\<rparr>
          in if \<not> connector_checks row then Inl DbFailure
             else if ncr_id c \<in> co_id ` set (connectors d) then Inl UniqueViolation
             else if unit_unique \<and> ncr_provider c \<in> co_provider ` set (connectors d) then Inl UniqueViolation
             else Inr ((), d\<lparr>connectors := connectors d @ [row]\<rparr>))
     | _ \<Rightarrow> Inl DbFailure)"

definition fetch_gate :: "uuid \<Rightarrow> connector_gate_row option stmt" where
  [sql]: "fetch_gate i t d =
    Inr (map_option (\<lambda>c. \<lparr>cg_kind = connector_kind_str (co_kind c), cg_status = connector_status_str (co_status c)\<rparr>)
           (find (\<lambda>c. co_id c = i \<and> deleted_at (co_metadata c) = None) (connectors d)), d)"

definition fetch_for_retry :: "uuid \<Rightarrow> string option stmt" where
  [sql]: "fetch_for_retry i t d =
    Inr (map_option (connector_kind_str \<circ> co_kind) (find (\<lambda>c. co_id c = i) (connectors d)), d)"

subsection \<open>IntegrationEventRepository\<close>

record new_event_row =
  ner_id :: uuid
  ner_connector_id :: uuid
  ner_event_type :: string
  ner_external_id :: string
  ner_business_key :: string
  ner_raw :: string

record event_outcome_row =
  eo_id :: uuid
  eo_status :: string
  eo_mapped_ref_id :: "uuid option"

record failed_event_row =
  fer_id :: uuid
  fer_event_type :: string
  fer_external_id :: string
  fer_business_key :: string
  fer_error_detail :: "string option"
  fer_payload :: string

definition received_row :: "new_event_row \<Rightarrow> datetime \<Rightarrow> event" where
  "received_row e t = \<lparr>ev_id = ner_id e, ev_connector = ner_connector_id e, ev_type = ner_event_type e,
     ev_external_id = ner_external_id e, ev_business_key = ner_business_key e, ev_status = Received,
     ev_payload = ner_raw e, ev_ref_type = None, ev_ref_id = None, ev_error = None,
     ev_metadata = stamp_insert t default_audit\<rparr>"

definition same_key :: "uuid \<Rightarrow> string \<Rightarrow> event \<Rightarrow> bool" where
  "same_key c k r \<longleftrightarrow> ev_connector r = c \<and> ev_business_key r = k"

definition claim_event :: "new_event_row \<Rightarrow> uuid option stmt" where
  [sql]: "claim_event e t d =
    (let row = received_row e t
     in if \<not> event_checks row then Inl DbFailure
        else if list_ex (same_key (ner_connector_id e) (ner_business_key e)) (events d) then Inr (None, d)
        else if ner_id e \<in> ev_id ` set (events d) then Inl UniqueViolation
        else if ner_connector_id e \<notin> co_id ` set (connectors d) then Inl DbFailure
        else Inr (Some (ner_id e), d\<lparr>events := events d @ [row]\<rparr>))"

definition fetch_by_business_key :: "uuid \<Rightarrow> string \<Rightarrow> event_outcome_row stmt" where
  [sql]: "fetch_by_business_key c k t d =
    (case find (same_key c k) (events d) of
       None \<Rightarrow> Inl DbFailure
     | Some r \<Rightarrow> Inr (\<lparr>eo_id = ev_id r, eo_status = integration_status_str (ev_status r),
                      eo_mapped_ref_id = ev_ref_id r\<rparr>, d))"

definition update_events :: "(event \<Rightarrow> bool) \<Rightarrow> (event \<Rightarrow> event) \<Rightarrow> nat stmt" where
  "update_events p f t d =
    (if list_all (\<lambda>r. event_checks (f r)) (filter p (events d)) then
       Inr (rows_affected p (events d),
            d\<lparr>events := update_where p (\<lambda>r. f r\<lparr>ev_metadata := touch t (ev_metadata (f r))\<rparr>) (events d)\<rparr>)
     else Inl DbFailure)"

definition mark_mapped :: "uuid \<Rightarrow> string \<Rightarrow> uuid \<Rightarrow> nat stmt" where
  [sql]: "mark_mapped i ref_type ref_id =
    update_events (\<lambda>r. ev_id r = i \<and> ev_status r = Received)
      (\<lambda>r. r\<lparr>ev_status := Mapped, ev_ref_type := Some ref_type, ev_ref_id := Some ref_id\<rparr>)"

definition mark_ignored :: "uuid \<Rightarrow> string \<Rightarrow> nat stmt" where
  [sql]: "mark_ignored i reason =
    update_events (\<lambda>r. ev_id r = i \<and> ev_status r = Received)
      (\<lambda>r. r\<lparr>ev_status := Ignored, ev_error := Some reason\<rparr>)"

definition mark_failed :: "uuid \<Rightarrow> string \<Rightarrow> nat stmt" where
  [sql]: "mark_failed i detail =
    update_events (\<lambda>r. ev_id r = i \<and> ev_status r = Received)
      (\<lambda>r. r\<lparr>ev_status := Failed, ev_error := Some detail\<rparr>)"

text \<open>
  The failed events of a connector, oldest first.  The order reads the text of the creation instant;
  rows of equal instants keep the table's order.
\<close>

definition created_key :: "event \<Rightarrow> int" where
  "created_key r = (case created_at (ev_metadata r) of None \<Rightarrow> 0 | Some t \<Rightarrow> t)"

definition failed_row :: "event \<Rightarrow> failed_event_row" where
  "failed_row r = \<lparr>fer_id = ev_id r, fer_event_type = ev_type r, fer_external_id = ev_external_id r,
     fer_business_key = ev_business_key r, fer_error_detail = ev_error r, fer_payload = ev_payload r\<rparr>"

definition fetch_failed :: "uuid \<Rightarrow> failed_event_row list stmt" where
  [sql]: "fetch_failed c t d =
    (let rows = filter (\<lambda>r. ev_connector r = c \<and> ev_status r = Failed) (events d);
         dated = (\<lambda>r. created_at (ev_metadata r) \<noteq> None)
     in Inr (map failed_row (filter (\<lambda>r. \<not> dated r) rows @ sort_key created_key (filter dated rows)), d))"

definition retry_mark_mapped :: "uuid \<Rightarrow> string \<Rightarrow> uuid \<Rightarrow> nat stmt" where
  [sql]: "retry_mark_mapped i ref_type ref_id =
    update_events (\<lambda>r. ev_id r = i \<and> ev_status r = Failed)
      (\<lambda>r. r\<lparr>ev_status := Mapped, ev_ref_type := Some ref_type, ev_ref_id := Some ref_id, ev_error := None\<rparr>)"

definition retry_mark_ignored :: "uuid \<Rightarrow> string \<Rightarrow> nat stmt" where
  [sql]: "retry_mark_ignored i reason =
    update_events (\<lambda>r. ev_id r = i \<and> ev_status r = Failed)
      (\<lambda>r. r\<lparr>ev_status := Ignored, ev_error := Some reason\<rparr>)"

definition set_error_detail :: "uuid \<Rightarrow> string \<Rightarrow> nat stmt" where
  [sql]: "set_error_detail i detail =
    update_events (\<lambda>r. ev_id r = i \<and> ev_status r = Failed) (\<lambda>r. r\<lparr>ev_error := Some detail\<rparr>)"

subsection \<open>The invariant of the ledger\<close>

text \<open>
  A received event carries no outcome, a mapped one its internal record, an ignored or failed one its
  reason; ids and (connector, business key) pairs are unique, and every event has its connector.
\<close>

definition event_ok :: "event \<Rightarrow> bool" where
  "event_ok r \<longleftrightarrow> (case ev_status r of
       Received \<Rightarrow> ev_ref_type r = None \<and> ev_ref_id r = None \<and> ev_error r = None
     | Mapped \<Rightarrow> ev_ref_type r \<noteq> None \<and> ev_ref_id r \<noteq> None \<and> ev_error r = None
     | _ \<Rightarrow> ev_ref_type r = None \<and> ev_ref_id r = None \<and> ev_error r \<noteq> None)"

definition event_key :: "event \<Rightarrow> uuid \<times> string" where
  "event_key r = (ev_connector r, ev_business_key r)"

definition events_ok :: "db \<Rightarrow> bool" where
  "events_ok d \<longleftrightarrow> distinct (map ev_id (events d)) \<and> distinct (map event_key (events d))
     \<and> (\<forall>r \<in> set (events d). event_ok r \<and> ev_connector r \<in> co_id ` set (connectors d))"

text \<open>
  Every settled event has its record in the outbox; an event ignored at a retry has the one of its
  failure.
\<close>

fun announcements :: "integration_status \<Rightarrow> string list" where
  "announcements Received = []"
| "announcements Mapped = [''IntegrationEventMapped'']"
| "announcements Failed = [''IntegrationEventFailed'']"
| "announcements Ignored = [''IntegrationEventIgnored'', ''IntegrationEventFailed'']"

definition announces :: "uuid_text \<Rightarrow> event \<Rightarrow> outbox_record \<Rightarrow> bool" where
  "announces X r b \<longleftrightarrow> ob_aggregate_type b = ''IntegrationEvent''
     \<and> ob_aggregate_id b = show_uuid X (ev_id r) \<and> ob_event_type b \<in> set (announcements (ev_status r))"

definition announced :: "uuid_text \<Rightarrow> db \<Rightarrow> bool" where
  "announced X d \<longleftrightarrow>
     (\<forall>r \<in> set (events d). ev_status r \<noteq> Received \<longrightarrow> (\<exists>b \<in> set (outbox d). announces X r b))"

text \<open>
  What a task may do to the ledger: keep the two invariants, never remove an event, and move one only
  along its lifecycle; a mapped or ignored event is final, to the byte.
\<close>

definition event_moves :: "event \<Rightarrow> event \<Rightarrow> bool" where
  "event_moves r r' \<longleftrightarrow> ev_id r' = ev_id r \<and> event_key r' = event_key r \<and> ev_type r' = ev_type r
     \<and> ev_external_id r' = ev_external_id r \<and> ev_payload r' = ev_payload r
     \<and> ev_status r \<le> ev_status r' \<and> (ev_status r \<in> {Mapped, Ignored} \<longrightarrow> r' = r)"

definition ledger_step :: "uuid_text \<Rightarrow> db \<Rightarrow> db \<Rightarrow> bool" where
  "ledger_step X d d' \<longleftrightarrow> (events_ok d \<longrightarrow> events_ok d') \<and> (announced X d \<longrightarrow> announced X d')
     \<and> (\<forall>r \<in> set (events d). \<exists>r' \<in> set (events d'). event_moves r r')"

lemma event_moves_refl [simp]: "event_moves r r"
  by (simp add: event_moves_def)

lemma event_moves_trans: "event_moves a b \<Longrightarrow> event_moves b c \<Longrightarrow> event_moves a c"
  by (auto simp: event_moves_def intro: order_trans)

lemma event_stays [intro]: "r \<in> S \<Longrightarrow> \<exists>r' \<in> S. event_moves r r'"
  using event_moves_refl by blast

lemma ledger_step_refl [simp]: "ledger_step X d d"
  by (auto simp: ledger_step_def)

lemma ledger_step_trans: "ledger_step X a b \<Longrightarrow> ledger_step X b c \<Longrightarrow> ledger_step X a c"
  unfolding ledger_step_def by (meson event_moves_trans)

interpretation ledger: table_guarantee "ledger_step X" for X
  by unfold_locales (rule ledger_step_refl, rule ledger_step_trans)

lemma ledger_step_moves:
  "ledger_step X d d' \<Longrightarrow> r \<in> set (events d) \<Longrightarrow> \<exists>r' \<in> set (events d'). event_moves r r'"
  by (simp add: ledger_step_def)

text \<open>A task that leaves the ledger's three tables alone makes a step of it.\<close>

lemma ledger_step_frame:
  "events d' = events d \<Longrightarrow> connectors d' = connectors d \<Longrightarrow> outbox d' = outbox d \<Longrightarrow> ledger_step X d d'"
  by (auto simp: ledger_step_def events_ok_def announced_def)

text \<open>Reading statements.\<close>

lemma ledger_reads:
  "fetch_gate i t d = Inr (a, d') \<Longrightarrow> d' = d"
  "fetch_for_retry i t d = Inr (b, d') \<Longrightarrow> d' = d"
  "fetch_by_business_key i k t d = Inr (c, d') \<Longrightarrow> d' = d"
  "fetch_failed i t d = Inr (e, d') \<Longrightarrow> d' = d"
  by (auto simp: sql Let_def split: option.splits)

lemma insert_connector_step:
  "insert_connector q c t d = Inr (u, d') \<Longrightarrow> ledger_step X d d'"
  using event_moves_refl
  by (fastforce simp: insert_connector_def Let_def ledger_step_def events_ok_def announced_def
      split: option.splits if_splits)

lemma claim_event_step:
  assumes "claim_event e t d = Inr (c, d')"
  shows "ledger_step X d d'"
proof (cases "d' = d")
  case False
  with assms have new: "d' = d\<lparr>events := events d @ [received_row e t]\<rparr>"
      "\<not> list_ex (same_key (ner_connector_id e) (ner_business_key e)) (events d)"
      "ner_id e \<notin> ev_id ` set (events d)" "ner_connector_id e \<in> co_id ` set (connectors d)"
    by (auto simp: claim_event_def Let_def split: if_splits)
  have key: "event_key (received_row e t) \<notin> event_key ` set (events d)"
    using new(2) by (auto simp: event_key_def same_key_def received_row_def list_ex_iff)
  have shape: "ev_id (received_row e t) = ner_id e" "ev_connector (received_row e t) = ner_connector_id e"
      "event_ok (received_row e t)" "ev_status (received_row e t) = Received"
    by (simp_all add: received_row_def event_ok_def)
  have "\<exists>r' \<in> set (events d'). event_moves r r'" if "r \<in> set (events d)" for r
    using that event_moves_refl [of r] by (auto simp: new(1))
  moreover have "events_ok d \<Longrightarrow> events_ok d'" "announced X d \<Longrightarrow> announced X d'"
    using new(3,4) key shape by (auto simp: new(1) events_ok_def announced_def)
  ultimately show ?thesis by (simp add: ledger_step_def)
qed simp

subsection \<open>Moving a row\<close>

lemma update_events_Inr:
  "update_events p f t d = Inr (n, d') \<longleftrightarrow>
    list_all (\<lambda>r. event_checks (f r)) (filter p (events d)) \<and> n = rows_affected p (events d) \<and>
    d' = d\<lparr>events := update_where p (\<lambda>r. f r\<lparr>ev_metadata := touch t (ev_metadata (f r))\<rparr>) (events d)\<rparr>"
  by (auto simp: update_events_def)

text \<open>
  An update moves the ledger when it moves every row it hits; the records it owes to the outbox are in
  \<open>d''\<close>, which extends the updated tables by them.
\<close>

lemma update_events_step:
  assumes upd: "update_events p f t d = Inr (n, d')"
    and moves: "\<And>r. p r \<Longrightarrow> event_moves r (f r) \<and> ev_status r \<notin> {Mapped, Ignored}"
    and ok: "\<And>r. p r \<Longrightarrow> event_ok r \<Longrightarrow> event_ok (f r)"
    and ext: "events d'' = events d'" "connectors d'' = connectors d'" "set (outbox d) \<subseteq> set (outbox d'')"
    and told: "\<And>r. r \<in> set (events d) \<Longrightarrow> p r \<Longrightarrow> ev_status r \<noteq> Received \<and> (\<forall>b. announces X r b \<longrightarrow> announces X (f r) b)
                  \<or> (\<exists>b \<in> set (outbox d''). announces X (f r) b)"
  shows "ledger_step X d d''"
proof -
  define g where "g r = (if p r then f r\<lparr>ev_metadata := touch t (ev_metadata (f r))\<rparr> else r)" for r
  have ev: "events d'' = map g (events d)" and co: "connectors d'' = connectors d"
    using upd ext by (auto simp: update_events_Inr update_where_def g_def [abs_def])
  have gm: "event_moves r (g r)" for r
    using moves [of r] by (auto simp: g_def event_moves_def event_key_def)
  have go: "event_ok (g r)" if "event_ok r" for r
    using ok [of r] that by (auto simp: g_def event_ok_def split: integration_status.splits)
  have ids: "map ev_id (map g (events d)) = map ev_id (events d)"
      "map event_key (map g (events d)) = map event_key (events d)"
    using gm by (auto simp: event_moves_def)
  have con: "ev_connector (g r) = ev_connector r" for r
    using gm [of r] by (simp add: event_moves_def event_key_def)
  have "events_ok d''" if "events_ok d"
    using that go unfolding events_ok_def ev co ids by (auto simp: con)
  moreover have "announced X d''" if "announced X d"
    unfolding announced_def ev
  proof (intro ballI impI)
    fix r' assume "r' \<in> set (map g (events d))" "ev_status r' \<noteq> Received"
    then obtain r where r: "r \<in> set (events d)" "r' = g r" by auto
    have same: "announces X (g r) b = announces X (if p r then f r else r) b" for b
      by (simp add: g_def announces_def)
    show "\<exists>b\<in>set (outbox d''). announces X r' b"
    proof (cases "p r \<and> (\<exists>b \<in> set (outbox d''). announces X (f r) b)")
      case False
      with told [OF r(1)] have "ev_status r \<noteq> Received"
          and keep: "\<And>b. announces X r b \<Longrightarrow> announces X (if p r then f r else r) b"
        using \<open>ev_status r' \<noteq> Received\<close> r(2) by (auto simp: g_def split: if_splits)
      then obtain b where "b \<in> set (outbox d)" "announces X r b"
        using \<open>announced X d\<close> r(1) by (auto simp: announced_def)
      then show ?thesis using keep [of b] ext(3) same [of b] r(2) by (intro bexI [of _ b]) auto
    qed (use r same in auto)
  qed
  moreover have "\<exists>r' \<in> set (events d''). event_moves r r'" if "r \<in> set (events d)" for r
    using gm that by (auto simp: ev)
  ultimately show ?thesis by (simp add: ledger_step_def)
qed

lemma update_events_outbox: "update_events p f t d = Inr (n, d') \<Longrightarrow> outbox d' = outbox d"
  by (auto simp: update_events_Inr)

lemmas event_row_defs = event_moves_def event_key_def event_ok_def announces_def

lemma set_error_detail_step:
  assumes "set_error_detail i s t d = Inr (n, d')"
  shows "ledger_step X d d'"
proof -
  note upd = assms [unfolded set_error_detail_def]
  show ?thesis
    by (rule update_events_step [OF upd]) (auto simp: event_row_defs update_events_outbox [OF upd])
qed

lemma retry_mark_ignored_step:
  assumes "retry_mark_ignored i s t d = Inr (n, d')"
  shows "ledger_step X d d'"
proof -
  note upd = assms [unfolded retry_mark_ignored_def]
  show ?thesis
    by (rule update_events_step [OF upd]) (auto simp: event_row_defs update_events_outbox [OF upd])
qed

lemma ledger_read_steps:
  "fetch_gate i t d = Inr (a, d') \<Longrightarrow> ledger_step X d d'"
  "fetch_for_retry i t d = Inr (b, d') \<Longrightarrow> ledger_step X d d'"
  "fetch_by_business_key i k t d = Inr (c, d') \<Longrightarrow> ledger_step X d d'"
  "fetch_failed i t d = Inr (e, d') \<Longrightarrow> ledger_step X d d'"
  by (auto dest: ledger_reads)

lemmas ledger_stmt_steps = ledger_read_steps insert_connector_step claim_event_step
  set_error_detail_step retry_mark_ignored_step

end
