(* ===== verification/Write_Service.thy ===== *)
theory Write_Service
  imports Event_Ledger
begin

text \<open>
  The hand-written write path of \<open>application/service\<close>: \<open>integrations_write_service.rs\<close> with the event
  types of \<open>integrations_events.rs\<close> and the target port of \<open>integrations_ports.rs\<close>.  The target port
  and the event sink are functions on worlds; the outbox package's \<open>stage\<close> is a statement the service
  record carries, with its documented effect as \<open>outbox_laws\<close>.
\<close>

named_theorems write_ops \<open>definitions of the write service's operations\<close>

subsection \<open>Events and ports\<close>

record event_mapped =
  em_event_id :: uuid
  em_company_id :: uuid
  em_connector_id :: uuid
  em_event_type :: string
  em_external_id :: string
  em_internal_ref_type :: string
  em_internal_ref_id :: uuid

record event_settled =
  es_event_id :: uuid
  es_company_id :: uuid
  es_connector_id :: uuid
  es_external_id :: string
  es_reason :: string

datatype integration_event =
    IntegrationEventMapped event_mapped
  | IntegrationEventFailed event_settled
  | IntegrationEventIgnored event_settled

text \<open>The derived serializer: internally tagged by \<open>type\<close>.\<close>

definition settled_fields :: "uuid_text \<Rightarrow> event_settled \<Rightarrow> (string \<times> json) list" where
  "settled_fields X e =
    [(''event_id'', JString (show_uuid X (es_event_id e))), (''company_id'', JString (show_uuid X (es_company_id e))),
     (''connector_id'', JString (show_uuid X (es_connector_id e))), (''external_id'', JString (es_external_id e)),
     (''reason'', JString (es_reason e))]"

fun event_to_value :: "uuid_text \<Rightarrow> integration_event \<Rightarrow> json" where
  "event_to_value X (IntegrationEventMapped e) = JObject
    [(''type'', JString ''IntegrationEventMapped''), (''event_id'', JString (show_uuid X (em_event_id e))),
     (''company_id'', JString (show_uuid X (em_company_id e))),
     (''connector_id'', JString (show_uuid X (em_connector_id e))),
     (''event_type'', JString (em_event_type e)), (''external_id'', JString (em_external_id e)),
     (''internal_ref_type'', JString (em_internal_ref_type e)),
     (''internal_ref_id'', JString (show_uuid X (em_internal_ref_id e)))]"
| "event_to_value X (IntegrationEventFailed e) =
    JObject ((''type'', JString ''IntegrationEventFailed'') # settled_fields X e)"
| "event_to_value X (IntegrationEventIgnored e) =
    JObject ((''type'', JString ''IntegrationEventIgnored'') # settled_fields X e)"

record 'w event_sink =
  sk_publish :: "integration_event \<Rightarrow> 'w \<Rightarrow> 'w"

text \<open>\<open>LoggingSink\<close> writes a log line: nothing the module can read.\<close>

definition logging_sink :: "'w event_sink" where
  "logging_sink = \<lparr>sk_publish = (\<lambda>_ w. w)\<rparr>"

record map_request =
  mq_company_id :: uuid
  mq_connector_kind :: string
  mq_event_type :: string
  mq_external_id :: string
  mq_idempotency_key :: string
  mq_payload :: json

record mapped_ref =
  mr_ref_type :: string
  mr_ref_id :: uuid

datatype map_outcome = MappedTo mapped_ref | IgnoredFor string

record map_rejected =
  mj_code :: string
  mj_message :: string

record 'w target_port =
  tp_map :: "map_request \<Rightarrow> 'w \<Rightarrow> (map_rejected, map_outcome) res \<times> 'w"

subsection \<open>The service\<close>

datatype integration_error =
    DbError db_error
  | Missing string
  | InvalidState string
  | InvalidInput msg
  | MappingRejected string

record new_connector =
  nc_provider :: string
  nc_kind :: string
  nc_direction :: string

record inbound_event =
  ie_company_id :: uuid
  ie_connector_id :: uuid
  ie_event_type :: string
  ie_external_id :: string
  ie_business_key :: string
  ie_raw :: string
  ie_payload :: json

record receive_outcome =
  ro_event_id :: uuid
  ro_status :: string
  ro_mapped_ref_id :: "uuid option"
  ro_duplicate :: bool

record failed_event =
  fe_event_id :: uuid
  fe_event_type :: string
  fe_external_id :: string
  fe_business_key :: string
  fe_error_detail :: "string option"

text \<open>
  What a call of the service reads besides its arguments: whether the composing service resolved an
  organisation scope, whether it re-declared the provider index, and the packages.
\<close>

record write_service =
  ws_scoped :: bool
  ws_unit_unique :: bool
  ws_codec :: codec
  ws_uuids :: uuid_text
  ws_stage :: "outbox_record \<Rightarrow> unit stmt"

text \<open>What \<open>backbone_outbox::outbox::stage\<close> promises: it adds the record to the outbox, or fails.\<close>

definition outbox_laws :: "(outbox_record \<Rightarrow> unit stmt) \<Rightarrow> bool" where
  "outbox_laws f \<longleftrightarrow> (\<forall>b t d. case f b t d of
     Inl _ \<Rightarrow> True | Inr (_, d') \<Rightarrow> d' = d\<lparr>outbox := outbox d @ [b]\<rparr>)"

definition append_outbox :: "outbox_record \<Rightarrow> unit stmt" where
  "append_outbox b t d = Inr ((), d\<lparr>outbox := outbox d @ [b]\<rparr>)"

lemma append_outbox_laws: "outbox_laws append_outbox"
  by (simp add: outbox_laws_def append_outbox_def)

definition register_connector ::
  "write_service \<Rightarrow> uuid \<Rightarrow> new_connector \<Rightarrow> 'x world \<Rightarrow> (integration_error, uuid) res \<times> 'x world" where
  [write_ops]: "register_connector S i c w =
    (if trim (nc_provider c) = [] then (Err (InvalidInput (''connector needs a provider'', [])), w)
     else case execute (insert_connector (ws_unit_unique S)
            \<lparr>ncr_id = i, ncr_provider = nc_provider c, ncr_kind = nc_kind c, ncr_direction = nc_direction c\<rparr>) w of
         (Ok _, w) \<Rightarrow> (Ok i, w)
       | (Err UniqueViolation, w) \<Rightarrow>
           (Err (InvalidInput (''a connector for this provider already exists'', [])), w)
       | (Err e, w) \<Rightarrow> (Err (DbError e), w)
       | (Panic, w) \<Rightarrow> (Panic, w))"

text \<open>\<open>stage\<close>: the outbox record of an event, and its statement inside the transaction.\<close>

fun event_kind :: "integration_event \<Rightarrow> string \<times> uuid" where
  "event_kind (IntegrationEventMapped e) = (''IntegrationEventMapped'', em_event_id e)"
| "event_kind (IntegrationEventFailed e) = (''IntegrationEventFailed'', es_event_id e)"
| "event_kind (IntegrationEventIgnored e) = (''IntegrationEventIgnored'', es_event_id e)"

definition outbox_record_of ::
  "uuid_text \<Rightarrow> datetime \<Rightarrow> integration_event \<Rightarrow> (integration_error, outbox_record) res" where
  [write_ops]: "outbox_record_of X now ev =
    (let (etype, agg) = event_kind ev; payload = event_to_value X ev
     in and_then (ok_or (InvalidInput (''integration event missing company_id'', []))
          (Option.bind (json_get payload ''company_id'') json_as_str)) (\<lambda>s.
        and_then (ok_or (InvalidInput (''company_id parse: {e}'', [s])) (read_uuid X s)) (\<lambda>company.
        Ok \<lparr>ob_event_type = etype, ob_aggregate_type = ''IntegrationEvent'', ob_aggregate_id = show_uuid X agg,
            ob_company = company, ob_payload = payload, ob_occurred_at = now\<rparr>)))"

definition stage ::
  "write_service \<Rightarrow> integration_event \<Rightarrow> tx \<Rightarrow> 'x world \<Rightarrow> (integration_error, tx) res \<times> 'x world" where
  [write_ops]: "stage S ev t w =
    attempt (outbox_record_of (ws_uuids S) (clock w) ev, w) (\<lambda>record w.
    attempt (on_err (\<lambda>_. InvalidInput (''outbox stage: {e}'', [])) (execute_in (ws_stage S record) t w))
      (\<lambda>(_, t) w. (Ok t, w)))"

text \<open>The tail each outcome of the target shares: the transition and the outbox record in one
  transaction, then the publication.\<close>

definition record_outcome ::
  "write_service \<Rightarrow> nat stmt \<Rightarrow> integration_event \<Rightarrow> 'x world \<Rightarrow> (integration_error, unit) res \<times> 'x world" where
  [write_ops]: "record_outcome S mark ev w =
    attempt (on_err DbError (begin_tx w)) (\<lambda>t w.
    attempt (on_err DbError (bind_ambient_org_scope (ws_scoped S) t w)) (\<lambda>t w.
    attempt (on_err DbError (execute_in mark t w)) (\<lambda>(_, t) w.
    attempt (stage S ev t w) (\<lambda>t w.
    on_err DbError (commit t w)))))"

definition settle ::
  "write_service \<Rightarrow> 'x world event_sink \<Rightarrow> nat stmt \<Rightarrow> integration_event \<Rightarrow> 'x world
    \<Rightarrow> (integration_error, unit) res \<times> 'x world" where
  [write_ops]: "settle S sink mark ev w =
    attempt (record_outcome S mark ev w) (\<lambda>_ w. (Ok (), sk_publish sink ev w))"

definition map_request_of :: "inbound_event \<Rightarrow> string \<Rightarrow> map_request" where
  [write_ops]: "map_request_of e kind = \<lparr>mq_company_id = ie_company_id e, mq_connector_kind = kind,
     mq_event_type = ie_event_type e, mq_external_id = ie_external_id e,
     mq_idempotency_key = ie_business_key e, mq_payload = ie_payload e\<rparr>"

definition settled_of :: "uuid \<Rightarrow> inbound_event \<Rightarrow> string \<Rightarrow> event_settled" where
  [write_ops]: "settled_of i e reason = \<lparr>es_event_id = i, es_company_id = ie_company_id e,
     es_connector_id = ie_connector_id e, es_external_id = ie_external_id e, es_reason = reason\<rparr>"

definition drive_claimed ::
  "write_service \<Rightarrow> inbound_event \<Rightarrow> string \<Rightarrow> 'x world target_port \<Rightarrow> 'x world event_sink \<Rightarrow> uuid \<Rightarrow> 'x world
    \<Rightarrow> (integration_error, receive_outcome) res \<times> 'x world" where
  [write_ops]: "drive_claimed S e kind mapper sink i w =
    (case tp_map mapper (map_request_of e kind) w of
       (Ok (MappedTo m), w) \<Rightarrow>
         attempt (settle S sink (mark_mapped i (mr_ref_type m) (mr_ref_id m))
             (IntegrationEventMapped \<lparr>em_event_id = i, em_company_id = ie_company_id e,
                em_connector_id = ie_connector_id e, em_event_type = ie_event_type e,
                em_external_id = ie_external_id e, em_internal_ref_type = mr_ref_type m,
                em_internal_ref_id = mr_ref_id m\<rparr>) w) (\<lambda>_ w.
           (Ok \<lparr>ro_event_id = i, ro_status = ''mapped'', ro_mapped_ref_id = Some (mr_ref_id m), ro_duplicate = False\<rparr>, w))
     | (Ok (IgnoredFor reason), w) \<Rightarrow>
         attempt (settle S sink (mark_ignored i reason) (IntegrationEventIgnored (settled_of i e reason)) w) (\<lambda>_ w.
           (Ok \<lparr>ro_event_id = i, ro_status = ''ignored'', ro_mapped_ref_id = None, ro_duplicate = False\<rparr>, w))
     | (Err rej, w) \<Rightarrow>
         attempt (settle S sink (mark_failed i (mj_message rej)) (IntegrationEventFailed (settled_of i e (mj_code rej))) w) (\<lambda>_ w.
           (Ok \<lparr>ro_event_id = i, ro_status = ''failed'', ro_mapped_ref_id = None, ro_duplicate = False\<rparr>, w))
     | (Panic, w) \<Rightarrow> (Panic, w))"

definition new_row_of :: "uuid \<Rightarrow> inbound_event \<Rightarrow> new_event_row" where
  [write_ops]: "new_row_of i e = \<lparr>ner_id = i, ner_connector_id = ie_connector_id e, ner_event_type = ie_event_type e,
     ner_external_id = ie_external_id e, ner_business_key = ie_business_key e, ner_raw = ie_raw e\<rparr>"

definition receive_event ::
  "write_service \<Rightarrow> uuid \<Rightarrow> inbound_event \<Rightarrow> 'x world target_port \<Rightarrow> 'x world event_sink \<Rightarrow> 'x world
    \<Rightarrow> (integration_error, receive_outcome) res \<times> 'x world" where
  [write_ops]: "receive_event S i e mapper sink w =
    (if trim (ie_external_id e) = [] then
       (Err (InvalidInput (''an inbound event needs an external_id'', [])), w)
     else if trim (ie_business_key e) = [] then
       (Err (InvalidInput (''an inbound event needs a business_key (the order/transaction ref + state)'', [])), w)
     else
       attempt (on_err DbError (execute (fetch_gate (ie_connector_id e)) w)) (\<lambda>gate w.
       attempt (ok_or (Missing ''connector'') gate, w) (\<lambda>conn w.
       if cg_status conn \<noteq> ''active'' then (Err (InvalidState ''connector is not active''), w)
       else
         attempt (on_err DbError (execute (claim_event (new_row_of i e)) w)) (\<lambda>inserted w.
         case inserted of
           None \<Rightarrow>
             attempt (on_err DbError (execute (fetch_by_business_key (ie_connector_id e) (ie_business_key e)) w))
               (\<lambda>row w. (Ok \<lparr>ro_event_id = eo_id row, ro_status = eo_status row,
                            ro_mapped_ref_id = eo_mapped_ref_id row, ro_duplicate = True\<rparr>, w))
         | Some event_id \<Rightarrow> drive_claimed S e (cg_kind conn) mapper sink event_id w))))"

definition failures :: "uuid \<Rightarrow> 'x world \<Rightarrow> (integration_error, failed_event list) res \<times> 'x world" where
  [write_ops]: "failures c w =
    attempt (on_err DbError (execute (fetch_failed c) w)) (\<lambda>rows w.
      (Ok (map (\<lambda>r. \<lparr>fe_event_id = fer_id r, fe_event_type = fer_event_type r, fe_external_id = fer_external_id r,
                    fe_business_key = fer_business_key r, fe_error_detail = fer_error_detail r\<rparr>) rows), w))"

definition retry_request :: "write_service \<Rightarrow> uuid \<Rightarrow> string \<Rightarrow> failed_event_row \<Rightarrow> map_request" where
  [write_ops]: "retry_request S company kind row = \<lparr>mq_company_id = company, mq_connector_kind = kind,
     mq_event_type = fer_event_type row, mq_external_id = fer_external_id row,
     mq_idempotency_key = fer_business_key row,
     mq_payload = (case parse_json (ws_codec S) (fer_payload row) of None \<Rightarrow> JNull | Some v \<Rightarrow> v)\<rparr>"

definition retry_record ::
  "write_service \<Rightarrow> nat stmt \<Rightarrow> integration_event \<Rightarrow> 'x world \<Rightarrow> (integration_error, bool) res \<times> 'x world" where
  [write_ops]: "retry_record S mark ev w =
    attempt (on_err DbError (begin_tx w)) (\<lambda>t w.
    attempt (on_err DbError (bind_ambient_org_scope (ws_scoped S) t w)) (\<lambda>t w.
    attempt (on_err DbError (execute_in mark t w)) (\<lambda>(m, t) w.
    if m = 1 then
      attempt (stage S ev t w) (\<lambda>t w.
      attempt (on_err DbError (commit t w)) (\<lambda>_ w. (Ok True, w)))
    else attempt (on_err DbError (rollback t w)) (\<lambda>_ w. (Ok False, w)))))"

definition retry_settle ::
  "write_service \<Rightarrow> 'x world event_sink \<Rightarrow> nat stmt \<Rightarrow> integration_event \<Rightarrow> 'x world
    \<Rightarrow> (integration_error, nat) res \<times> 'x world" where
  [write_ops]: "retry_settle S sink mark ev w =
    attempt (retry_record S mark ev w) (\<lambda>hit w. if hit then (Ok 1, sk_publish sink ev w) else (Ok 0, w))"

definition retry_one ::
  "write_service \<Rightarrow> uuid \<Rightarrow> uuid \<Rightarrow> string \<Rightarrow> 'x world target_port \<Rightarrow> 'x world event_sink \<Rightarrow> failed_event_row
    \<Rightarrow> 'x world \<Rightarrow> (integration_error, nat) res \<times> 'x world" where
  [write_ops]: "retry_one S company c kind mapper sink row w =
    (case tp_map mapper (retry_request S company kind row) w of
       (Ok (MappedTo m), w) \<Rightarrow>
         retry_settle S sink (retry_mark_mapped (fer_id row) (mr_ref_type m) (mr_ref_id m))
           (IntegrationEventMapped \<lparr>em_event_id = fer_id row, em_company_id = company, em_connector_id = c,
              em_event_type = fer_event_type row, em_external_id = fer_external_id row,
              em_internal_ref_type = mr_ref_type m, em_internal_ref_id = mr_ref_id m\<rparr>) w
     | (Ok (IgnoredFor reason), w) \<Rightarrow>
         attempt (on_err DbError (execute (retry_mark_ignored (fer_id row) reason) w)) (\<lambda>_ w. (Ok 0, w))
     | (Err rej, w) \<Rightarrow>
         attempt (on_err DbError (execute (set_error_detail (fer_id row) (mj_message rej)) w)) (\<lambda>_ w. (Ok 0, w))
     | (Panic, w) \<Rightarrow> (Panic, w))"

fun retry_rows ::
  "(failed_event_row \<Rightarrow> 'x world \<Rightarrow> (integration_error, nat) res \<times> 'x world) \<Rightarrow> nat \<Rightarrow> failed_event_row list
    \<Rightarrow> 'x world \<Rightarrow> (integration_error, nat) res \<times> 'x world" where
  "retry_rows one mapped [] w = (Ok mapped, w)"
| "retry_rows one mapped (row # rows) w =
    attempt (one row w) (\<lambda>k w. retry_rows one (mapped + k) rows w)"

definition retry_failed ::
  "write_service \<Rightarrow> uuid \<Rightarrow> uuid \<Rightarrow> 'x world target_port \<Rightarrow> 'x world event_sink \<Rightarrow> 'x world
    \<Rightarrow> (integration_error, nat) res \<times> 'x world" where
  [write_ops]: "retry_failed S company c mapper sink w =
    attempt (on_err DbError (execute (fetch_for_retry c) w)) (\<lambda>conn w.
    attempt (ok_or (Missing ''connector'') conn, w) (\<lambda>kind w.
    attempt (on_err DbError (execute (fetch_failed c) w)) (\<lambda>rows w.
    retry_rows (retry_one S company c kind mapper sink) 0 rows w)))"

end
