(* ===== verification/Write_Safety.thy ===== *)
theory Write_Safety
  imports Write_Service
begin

text \<open>
  What the write service promises: an inbound event is driven through its target at most once per
  business key, every outcome is committed together with its outbox record and published after the
  commit only, and the ledger's lifecycle is kept; and where an event can be left behind.
\<close>

subsection \<open>The shared tail\<close>

definition write_laws :: "write_service \<Rightarrow> bool" where
  "write_laws S \<longleftrightarrow> uuid_laws (ws_uuids S) \<and> outbox_laws (ws_stage S)"

text \<open>The record \<open>stage\<close> writes for an event: with lawful ids it always exists.\<close>

definition event_company :: "integration_event \<Rightarrow> uuid" where
  "event_company ev = (case ev of IntegrationEventMapped e \<Rightarrow> em_company_id e
     | IntegrationEventFailed e \<Rightarrow> es_company_id e | IntegrationEventIgnored e \<Rightarrow> es_company_id e)"

definition staged_record :: "uuid_text \<Rightarrow> datetime \<Rightarrow> integration_event \<Rightarrow> outbox_record" where
  "staged_record X now ev = \<lparr>ob_event_type = fst (event_kind ev), ob_aggregate_type = ''IntegrationEvent'',
     ob_aggregate_id = show_uuid X (snd (event_kind ev)), ob_company = event_company ev,
     ob_payload = event_to_value X ev, ob_occurred_at = now\<rparr>"

lemma outbox_record_of_Ok:
  assumes "uuid_laws X"
  shows "outbox_record_of X now ev = Ok (staged_record X now ev)"
  using uuid_lawsD [OF assms]
  by (cases ev) (simp_all add: outbox_record_of_def staged_record_def event_company_def settled_fields_def)

text \<open>\<open>d\<close> with an update's effect and the event's record.\<close>

definition settled_tables :: "write_service \<Rightarrow> integration_event \<Rightarrow> datetime \<Rightarrow> db \<Rightarrow> db" where
  "settled_tables S ev now d = d\<lparr>outbox := outbox d @ [staged_record (ws_uuids S) now ev]\<rparr>"

lemma stage_Ok:
  assumes "write_laws S" and "stage S ev t w = (Ok t', w')"
  shows "t' (tables w) = settled_tables S ev (clock w) (t (tables w))"
    and "tables w' = tables w" and "ext w' = ext w" and "clock w' = clock w"
proof -
  have X: "uuid_laws (ws_uuids S)" and O: "outbox_laws (ws_stage S)"
    using assms(1) by (simp_all add: write_laws_def)
  obtain u where e: "execute_in (ws_stage S (staged_record (ws_uuids S) (clock w) ev)) t w = (Ok (u, t'), w')"
    using assms(2) by (auto simp: stage_def outbox_record_of_Ok [OF X] attempt_eq_Ok on_err_eq_Ok)
  from execute_in_Ok [OF e] O
  show "t' (tables w) = settled_tables S ev (clock w) (t (tables w))"
    and "tables w' = tables w" "ext w' = ext w" "clock w' = clock w"
    by (auto simp: outbox_laws_def settled_tables_def split: sum.splits prod.splits dest: spec)
qed

text \<open>A failed transaction leaves everything; a committed one adds the update and the record.\<close>

definition untouched :: "'x world \<Rightarrow> 'x world \<Rightarrow> bool" where
  "untouched w w' \<longleftrightarrow> tables w' = tables w \<and> ext w' = ext w \<and> clock w' = clock w"

lemma untouched_trans: "untouched a b \<Longrightarrow> untouched b c \<Longrightarrow> untouched a c"
  by (simp add: untouched_def)

lemma untouched_refl [simp]: "untouched w w"
  by (simp add: untouched_def)

lemma untouched_calls:
  "untouched w (snd (begin_tx w))" "untouched w (snd (bind_ambient_org_scope b t w))"
  "untouched w (snd (execute_in s t w))" "untouched w (snd (rollback t w))"
  by (simp_all add: untouched_def)

lemma untouched_attempt:
  assumes "untouched w (snd m)" and "\<And>x v. m = (Ok x, v) \<Longrightarrow> untouched w v \<Longrightarrow> untouched w (snd (k x v))"
  shows "untouched w (snd (attempt m k))"
  using assms by (rule attempt_keeps)

lemma untouched_from: "untouched w v \<Longrightarrow> untouched v (snd (c :: 'r \<times> 'x world)) \<Longrightarrow> untouched w (snd c)"
  by (rule untouched_trans)

lemma untouched_stage: "untouched w (snd (stage S ev t w))"
  unfolding stage_def
  by (intro untouched_attempt) (auto split: prod.splits intro: untouched_calls untouched_from [OF _ untouched_calls(3)])

text \<open>A chain that ends in the commit: only one that ends in \<open>Ok a\<close> can have touched anything.\<close>

definition undone_or_ok :: "'x world \<Rightarrow> 'a \<Rightarrow> ('e, 'a) res \<times> 'x world \<Rightarrow> bool" where
  "undone_or_ok w a r \<longleftrightarrow> untouched w (snd r) \<or> fst r = Ok a"

lemma undone_attempt:
  assumes "untouched w (snd m)" and "\<And>x v. m = (Ok x, v) \<Longrightarrow> untouched w v \<Longrightarrow> undone_or_ok w a (k x v)"
  shows "undone_or_ok w a (attempt m k)"
  using assms by (cases m; cases "fst m") (auto simp: undone_or_ok_def)

lemma undone_commit:
  assumes "untouched w v"
  shows "undone_or_ok w () (on_err f (commit t v))"
    and "undone_or_ok w a (attempt (on_err f (commit t v)) (\<lambda>_ w. (Ok a, w)))"
  using assms
  by (auto simp: commit_def undone_or_ok_def untouched_def split: prod.splits bool.splits dest!: round_trip_frame)

lemma undone_rollback:
  "untouched w v \<Longrightarrow> undone_or_ok w a (attempt (on_err f (rollback t v)) (\<lambda>_ w. (Ok b, w)))"
  by (auto simp: rollback_def undone_or_ok_def untouched_def split: prod.splits bool.splits dest!: round_trip_frame)

lemmas undone_links = untouched_from [OF _ untouched_calls(1)] untouched_from [OF _ untouched_calls(2)]
  untouched_from [OF _ untouched_calls(3)] untouched_from [OF _ untouched_calls(4)] untouched_from [OF _ untouched_stage]

lemma undone_record: "undone_or_ok w () (record_outcome S mark ev w)"
  unfolding record_outcome_def
  by (intro undone_attempt undone_commit undone_links; (simp add: untouched_calls)?; 
      (clarsimp split: prod.splits)?; (intro undone_attempt undone_commit undone_links; simp)?)

lemma undone_retry: "undone_or_ok w True (retry_record S mark ev w)"
  unfolding retry_record_def
  by (intro undone_attempt undone_links; (simp add: untouched_calls)?;
      (clarsimp split: prod.splits)?;
      (intro conjI impI undone_attempt undone_commit undone_rollback undone_links; simp)?)

lemma commit_cases:
  assumes "commit t w = (r, w')"
  obtains (bad) e where "r = Err e" "untouched w w'"
    | (good) "r = Ok ()" "tables w' = t (tables w)" "ext w' = ext w" "clock w' = clock w"
  using assms by (auto simp: commit_def untouched_def split: prod.splits bool.splits dest!: round_trip_frame)

lemma record_outcome_cases:
  fixes mark :: "nat stmt"
  assumes "write_laws S" and run: "record_outcome S mark ev w = (r, w')"
  obtains (undone) "r \<noteq> Ok ()" "untouched w w'"
    | (settled) n d1 where "r = Ok ()" "mark (clock w) (tables w) = Inr (n, d1)"
      "tables w' = settled_tables S ev (clock w) d1" "ext w' = ext w" "clock w' = clock w"
proof (cases "r = Ok ()")
  case True
  with run obtain t0 w0 t1 w1 n t2 w2 t3 w3 where
      1: "begin_tx w = (Ok t0, w0)" "bind_ambient_org_scope (ws_scoped S) t0 w0 = (Ok t1, w1)"
    and 2: "execute_in mark t1 w1 = (Ok (n, t2), w2)" and 3: "stage S ev t2 w2 = (Ok t3, w3)"
    and 4: "commit t3 w3 = (Ok (), w')"
    by (auto simp: record_outcome_def attempt_eq_Ok on_err_eq_Ok)
  have w1: "t1 = id" "tables w1 = tables w" "ext w1 = ext w" "clock w1 = clock w"
    using begin_tx_Ok [OF 1(1)] bind_scope_Ok [OF 1(2)] by auto
  from execute_in_Ok [OF 2] w1 obtain d1 where d1: "mark (clock w) (tables w) = Inr (n, d1)"
      "t2 (tables w) = d1" "tables w2 = tables w" "ext w2 = ext w" "clock w2 = clock w"
    by auto
  note s = stage_Ok [OF assms(1) 3]
  have "tables w' = settled_tables S ev (clock w) d1" "ext w' = ext w" "clock w' = clock w"
    using commit_Ok [OF 4] s d1 by auto
  with True d1(1) settled show thesis by blast
next
  case False
  then show thesis using undone_record [of w S mark ev] run undone by (auto simp: undone_or_ok_def)
qed

lemma retry_record_cases:
  fixes mark :: "nat stmt"
  assumes "write_laws S" and run: "retry_record S mark ev w = (r, w')"
  obtains (undone) "r \<noteq> Ok True" "untouched w w'"
    | (settled) d1 where "r = Ok True" "mark (clock w) (tables w) = Inr (1, d1)"
      "tables w' = settled_tables S ev (clock w) d1" "ext w' = ext w" "clock w' = clock w"
proof (cases "r = Ok True")
  case True
  with run obtain t0 w0 t1 w1 t2 w2 t3 w3 where
      1: "begin_tx w = (Ok t0, w0)" "bind_ambient_org_scope (ws_scoped S) t0 w0 = (Ok t1, w1)"
    and 2: "execute_in mark t1 w1 = (Ok (1, t2), w2)" and 3: "stage S ev t2 w2 = (Ok t3, w3)"
    and 4: "commit t3 w3 = (Ok (), w')"
    by (auto simp: retry_record_def attempt_eq_Ok on_err_eq_Ok split: if_splits)
  have w1: "t1 = id" "tables w1 = tables w" "ext w1 = ext w" "clock w1 = clock w"
    using begin_tx_Ok [OF 1(1)] bind_scope_Ok [OF 1(2)] by auto
  from execute_in_Ok [OF 2] w1 obtain d1 where d1: "mark (clock w) (tables w) = Inr (1, d1)"
      "t2 (tables w) = d1" "tables w2 = tables w" "ext w2 = ext w" "clock w2 = clock w"
    by auto
  note s = stage_Ok [OF assms(1) 3]
  have "tables w' = settled_tables S ev (clock w) d1" "ext w' = ext w" "clock w' = clock w"
    using commit_Ok [OF 4] s d1 by auto
  with True d1(1) settled show thesis by blast
next
  case False
  then show thesis using undone_retry [of w S mark ev] run undone by (auto simp: undone_or_ok_def)
qed

subsection \<open>Every operation keeps the ledger's lifecycle\<close>

text \<open>The transition and its record, together, are a step.\<close>

lemmas settled_simps = event_row_defs settled_tables_def staged_record_def

lemma mark_step:
  fixes S :: write_service
  assumes "snd (event_kind ev) = i"
  shows "fst (event_kind ev) = ''IntegrationEventMapped'' \<Longrightarrow> mark_mapped i rt ri t d = Inr (n, d1)
      \<Longrightarrow> ledger_step (ws_uuids S) d (settled_tables S ev now d1)"
    and "fst (event_kind ev) = ''IntegrationEventIgnored'' \<Longrightarrow> mark_ignored i s t d = Inr (n, d1)
      \<Longrightarrow> ledger_step (ws_uuids S) d (settled_tables S ev now d1)"
    and "fst (event_kind ev) = ''IntegrationEventFailed'' \<Longrightarrow> mark_failed i s t d = Inr (n, d1)
      \<Longrightarrow> ledger_step (ws_uuids S) d (settled_tables S ev now d1)"
    and "fst (event_kind ev) = ''IntegrationEventMapped'' \<Longrightarrow> retry_mark_mapped i rt ri t d = Inr (n, d1)
      \<Longrightarrow> ledger_step (ws_uuids S) d (settled_tables S ev now d1)"
  unfolding mark_mapped_def mark_ignored_def mark_failed_def retry_mark_mapped_def
  subgoal premises p by (rule update_events_step [OF p(2)]) (use p(1) assms update_events_outbox [OF p(2)] in \<open>auto simp: settled_simps\<close>)
  subgoal premises p by (rule update_events_step [OF p(2)]) (use p(1) assms update_events_outbox [OF p(2)] in \<open>auto simp: settled_simps\<close>)
  subgoal premises p by (rule update_events_step [OF p(2)]) (use p(1) assms update_events_outbox [OF p(2)] in \<open>auto simp: settled_simps\<close>)
  subgoal premises p by (rule update_events_step [OF p(2)]) (use p(1) assms update_events_outbox [OF p(2)] in \<open>auto simp: settled_simps\<close>)
  done

subsection \<open>An operation keeps what its statements and its ports keep\<close>

definition target_keeps :: "(db \<Rightarrow> db \<Rightarrow> bool) \<Rightarrow> 'x world target_port \<Rightarrow> 'x world event_sink \<Rightarrow> bool" where
  "target_keeps G mapper sink \<longleftrightarrow> (\<forall>q w. G (tables w) (tables (snd (tp_map mapper q w))))
     \<and> (\<forall>ev w. G (tables w) (tables (sk_publish sink ev w)))"

locale ledger_work = table_guarantee G for G :: "db \<Rightarrow> db \<Rightarrow> bool" +
  fixes S :: write_service
  assumes settle_mapped: "snd (event_kind ev) = i \<Longrightarrow> fst (event_kind ev) = ''IntegrationEventMapped'' \<Longrightarrow>
        mark_mapped i rt ri t d = Inr (n, d1) \<Longrightarrow> G d (settled_tables S ev now d1)"
    and settle_ignored: "snd (event_kind ev) = i \<Longrightarrow> fst (event_kind ev) = ''IntegrationEventIgnored'' \<Longrightarrow>
        mark_ignored i s t d = Inr (n, d1) \<Longrightarrow> G d (settled_tables S ev now d1)"
    and settle_failed: "snd (event_kind ev) = i \<Longrightarrow> fst (event_kind ev) = ''IntegrationEventFailed'' \<Longrightarrow>
        mark_failed i s t d = Inr (n, d1) \<Longrightarrow> G d (settled_tables S ev now d1)"
    and settle_retried: "snd (event_kind ev) = i \<Longrightarrow> fst (event_kind ev) = ''IntegrationEventMapped'' \<Longrightarrow>
        retry_mark_mapped i rt ri t d = Inr (n, d1) \<Longrightarrow> G d (settled_tables S ev now d1)"
    and insert_connector_moves: "insert_connector q c t d = Inr (u, d') \<Longrightarrow> G d d'"
    and claim_event_moves: "claim_event e t d = Inr (cl, d') \<Longrightarrow> G d d'"
    and set_error_detail_moves: "set_error_detail i s t d = Inr (n, d') \<Longrightarrow> G d d'"
    and retry_mark_ignored_moves: "retry_mark_ignored i s t d = Inr (n, d') \<Longrightarrow> G d d'"
begin

declare stay [simp]

lemmas settles = settle_mapped settle_ignored settle_failed settle_retried

lemma read_moves:
  "fetch_gate i t d = Inr (a, d') \<Longrightarrow> G d d'"
  "fetch_for_retry i t d = Inr (b, d') \<Longrightarrow> G d d'"
  "fetch_by_business_key i k t d = Inr (c, d') \<Longrightarrow> G d d'"
  "fetch_failed i t d = Inr (e, d') \<Longrightarrow> G d d'"
  by (auto dest: ledger_reads)

lemmas stmt_moves = read_moves insert_connector_moves claim_event_moves set_error_detail_moves retry_mark_ignored_moves

lemma settle_step:
  fixes mark :: "nat stmt"
  assumes "write_laws S" "target_keeps G mapper sink"
    and "\<And>n d1. mark (clock w) (tables w) = Inr (n, d1) \<Longrightarrow>
       G (tables w) (settled_tables S ev (clock w) d1)"
  shows "G (tables w) (tables (snd (settle S sink mark ev w)))"
    and "G (tables w) (tables (snd (retry_settle S sink mark ev w)))"
proof -
  have pub: "G d (tables (sk_publish sink ev v))" if "G d (tables v)" for d v
    using that assms(2) join unfolding target_keeps_def by blast
  obtain r v where r: "record_outcome S mark ev w = (r, v)" by fastforce
  have "G (tables w) (tables v)"
    using assms(1) r by (rule record_outcome_cases) (auto simp: untouched_def intro: assms(3))
  then show "G (tables w) (tables (snd (settle S sink mark ev w)))"
    using pub by (cases r) (simp_all add: settle_def r)
  obtain q u where q: "retry_record S mark ev w = (q, u)" by fastforce
  have "G (tables w) (tables u)"
    using assms(1) q by (rule retry_record_cases) (auto simp: untouched_def intro: assms(3))
  then show "G (tables w) (tables (snd (retry_settle S sink mark ev w)))"
    using pub by (cases q) (simp_all add: retry_settle_def q)
qed

lemma target_keeps_map:
  "target_keeps G mapper sink \<Longrightarrow> tp_map mapper q w = (r, w') \<Longrightarrow> G (tables w) (tables w')"
  unfolding target_keeps_def by (metis snd_conv)

lemma drive_claimed_step:
  assumes L: "write_laws S" and P: "target_keeps G mapper sink"
  shows "G (tables w) (tables (snd (drive_claimed S e kind mapper sink i w)))"
proof -
  obtain r v where m: "tp_map mapper (map_request_of e kind) w = (r, v)" by fastforce
  note v = target_keeps_map [OF P m]
  have after: "G (tables w) (tables (snd (settle S sink mark ev v)))"
    if "\<And>n d1. mark (clock v) (tables v) = Inr (n, d1) \<Longrightarrow>
         G (tables v) (settled_tables S ev (clock v) d1)" for mark ev
    using join [OF v settle_step(1) [OF L P that]] .
  show ?thesis
  proof (cases r)
    case (Ok outc)
    show ?thesis
    proof (cases outc)
      case (MappedTo m')
      then show ?thesis using m Ok
        by (simp add: drive_claimed_def) (rule attempt_link, rule after, rule settles(1), auto)
    next
      case (IgnoredFor reason)
      then show ?thesis using m Ok
        by (simp add: drive_claimed_def)
          (rule attempt_link, rule after, rule settles(2), auto simp: settled_of_def)
    qed
  next
    case (Err rej)
    then show ?thesis using m
      by (simp add: drive_claimed_def)
        (rule attempt_link, rule after, rule settles(3), auto simp: settled_of_def)
  qed (use m v in \<open>simp add: drive_claimed_def\<close>)
qed

lemma ledger_execute:
  assumes "G d (tables w)"
    and "\<And>t a d' d'. s t (tables w) = Inr (a, d') \<Longrightarrow> G (tables w) d'"
  shows "G d (tables (snd (on_err f (execute s w))))"
  by simp (rule execute_keeps [OF assms(1)], rule assms(2))

lemma receive_event_step:
  assumes L: "write_laws S" and P: "target_keeps G mapper sink"
  shows "G (tables w) (tables (snd (receive_event S i e mapper sink w)))"
proof -
  have drive: "G (tables w) (tables (snd (drive_claimed S e kind mapper sink j v)))"
    if "G (tables w) (tables v)" for kind j v
    using join [OF that drive_claimed_step [OF L P]] .
  show ?thesis
    unfolding receive_event_def
    by (auto intro!: attempt_link ledger_execute drive split: option.splits) (erule stmt_moves)+
qed

lemma retry_one_step:
  assumes L: "write_laws S" and P: "target_keeps G mapper sink"
  shows "G (tables w) (tables (snd (retry_one S company c kind mapper sink row w)))"
proof -
  obtain r v where m: "tp_map mapper (retry_request S company kind row) w = (r, v)" by fastforce
  note v = target_keeps_map [OF P m]
  have after: "G (tables w) (tables (snd (retry_settle S sink mark ev v)))"
    if "\<And>n d1. mark (clock v) (tables v) = Inr (n, d1) \<Longrightarrow>
         G (tables v) (settled_tables S ev (clock v) d1)" for mark ev
    using join [OF v settle_step(2) [OF L P that]] .
  show ?thesis
    unfolding retry_one_def m
    using v by (auto intro!: attempt_link ledger_execute after intro: stmt_moves settles(4)
        split: res.splits map_outcome.splits)
qed

lemma retry_rows_step:
  assumes "\<And>row v. G (tables v) (tables (snd (one row v)))"
  shows "G (tables w) (tables (snd (retry_rows one k rows w)))"
proof (induction rows arbitrary: k w)
  case (Cons row rows)
  show ?case
    by (auto intro!: attempt_link assms intro: join [OF _ Cons.IH])
qed simp

lemma retry_failed_step:
  assumes "write_laws S" and "target_keeps G mapper sink"
  shows "G (tables w) (tables (snd (retry_failed S company c mapper sink w)))"
  unfolding retry_failed_def
  by (auto intro!: attempt_link ledger_execute intro: stmt_moves
      join [OF _ retry_rows_step [OF retry_one_step [OF assms]]])

lemma register_connector_step:
  "G (tables w) (tables (snd (register_connector S i c w)))"
proof -
  have "G (tables w) (tables (snd (execute (insert_connector b row) w)))" for b row
    by (rule execute_keeps) (auto intro: insert_connector_moves)
  then show ?thesis
    by (auto simp: register_connector_def split: prod.splits res.splits db_error.splits) (metis snd_conv)+
qed

end

interpretation kept: ledger_work "ledger_step (ws_uuids S)" S for S
  by unfold_locales (simp_all add: mark_step insert_connector_step claim_event_step set_error_detail_step
      retry_mark_ignored_step)

end
