(* ===== verification/Inbound_Safety.thy ===== *)
theory Inbound_Safety
  imports Write_Safety
begin

text \<open>
  The properties of the inbound path: what an accepted event has gone through, at most one mapping per
  business key, the events that are left behind, and the re-drive of failed ones.
\<close>

subsection \<open>What a claim leaves\<close>

text \<open>The target is another module: it does not write this module's event table.\<close>

definition target_apart :: "'x world target_port \<Rightarrow> bool" where
  "target_apart mapper \<longleftrightarrow> (\<forall>q w. events (tables (snd (tp_map mapper q w))) = events (tables w))"

lemma target_apartD:
  "target_apart mapper \<Longrightarrow> tp_map mapper q w = (r, w') \<Longrightarrow> events (tables w') = events (tables w)"
  unfolding target_apart_def by (metis snd_conv)

text \<open>The row an answer of the target stands for.\<close>

fun settles :: "(map_rejected, map_outcome) res \<Rightarrow> event \<Rightarrow> bool" where
  "settles (Ok (MappedTo m)) r \<longleftrightarrow>
     ev_status r = Mapped \<and> ev_ref_type r = Some (mr_ref_type m) \<and> ev_ref_id r = Some (mr_ref_id m)"
| "settles (Ok (IgnoredFor s)) r \<longleftrightarrow> ev_status r = Ignored \<and> ev_ref_id r = None \<and> ev_error r = Some s"
| "settles (Err rej) r \<longleftrightarrow> ev_status r = Failed \<and> ev_ref_id r = None \<and> ev_error r = Some (mj_message rej)"
| "settles Panic r \<longleftrightarrow> False"

text \<open>The admission: a connector that exists, is active and not deleted, and a free key.\<close>

definition admitting :: "db \<Rightarrow> inbound_event \<Rightarrow> connector \<Rightarrow> bool" where
  "admitting d e c \<longleftrightarrow> c \<in> set (connectors d) \<and> co_id c = ie_connector_id e
     \<and> co_status c = Enabled \<and> deleted_at (co_metadata c) = None"

definition key_taken :: "db \<Rightarrow> inbound_event \<Rightarrow> bool" where
  "key_taken d e \<longleftrightarrow> list_ex (same_key (ie_connector_id e) (ie_business_key e)) (events d)"

definition claimed_tables :: "uuid \<Rightarrow> inbound_event \<Rightarrow> datetime \<Rightarrow> db \<Rightarrow> db" where
  "claimed_tables i e t d = d\<lparr>events := events d @ [received_row (new_row_of i e) t]\<rparr>"

lemma active_label: "connector_status_str s = ''active'' \<longleftrightarrow> s = Enabled"
  by (cases s) simp_all

lemma fetch_gate_Some:
  assumes "fetch_gate (ie_connector_id e) t d = Inr (Some g, d')" and "cg_status g = ''active''"
  shows "\<exists>c. admitting d e c \<and> cg_kind g = connector_kind_str (co_kind c)"
proof -
  from assms(1) obtain c where c: "find (\<lambda>c. co_id c = ie_connector_id e \<and> deleted_at (co_metadata c) = None) (connectors d) = Some c"
      and g: "g = \<lparr>cg_kind = connector_kind_str (co_kind c), cg_status = connector_status_str (co_status c)\<rparr>"
    by (auto simp: fetch_gate_def)
  have "c \<in> set (connectors d)" "co_id c = ie_connector_id e" "deleted_at (co_metadata c) = None"
    using c by (auto simp: find_Some_iff)
  then show ?thesis using g assms(2) by (auto simp: admitting_def active_label)
qed

lemma claim_event_Some:
  "claim_event (new_row_of i e) t d = Inr (Some j, d') \<Longrightarrow>
    j = i \<and> \<not> key_taken d e \<and> i \<notin> ev_id ` set (events d) \<and> d' = claimed_tables i e t d
    \<and> event_checks (received_row (new_row_of i e) t)"
  by (auto simp: claim_event_def key_taken_def claimed_tables_def new_row_of_def Let_def split: if_splits)

lemma claim_event_None: "claim_event c t d = Inr (j, d') \<Longrightarrow> j = None \<Longrightarrow> d' = d"
  by (auto simp: claim_event_def Let_def split: if_splits)

lemma receive_event_new:
  assumes "receive_event S i e mapper sink w = (Ok out, w')" and "\<not> ro_duplicate out"
  obtains c w1 where "admitting (tables w) e c" "\<not> key_taken (tables w) e" "i \<notin> ev_id ` set (events (tables w))"
    "tables w1 = claimed_tables i e (clock w) (tables w)" "ext w1 = ext w"
    "drive_claimed S e (connector_kind_str (co_kind c)) mapper sink i w1 = (Ok out, w')"
proof -
  from assms(1) obtain g w0 j w1 where
      g: "execute (fetch_gate (ie_connector_id e)) w = (Ok (Some g), w0)" "cg_status g = ''active''"
    and j: "execute (claim_event (new_row_of i e)) w0 = (Ok (Some j), w1)"
    and d: "drive_claimed S e (cg_kind g) mapper sink j w1 = (Ok out, w')"
    using assms(2)
    by (auto simp: receive_event_def attempt_eq_Ok on_err_eq_Ok split: if_splits option.splits)
  have w0: "tables w0 = tables w" "clock w0 = clock w" "ext w0 = ext w"
    using execute_Ok [OF g(1)] ledger_reads(1) execute_clock [of _ w] execute_ext [of _ w] g(1) by (auto, metis snd_conv, metis snd_conv)
  obtain c where "admitting (tables w) e c" "cg_kind g = connector_kind_str (co_kind c)"
    using fetch_gate_Some [OF execute_Ok [OF g(1)] g(2)] by blast
  moreover have "ext w1 = ext w" using execute_ext [of "claim_event (new_row_of i e)" w0] j w0 by simp
  ultimately show thesis
    using claim_event_Some [OF execute_Ok [OF j]] w0 d that by auto
qed

lemma settled_row:
  assumes L: "write_laws S"
    and run: "settle S sink (update_events (\<lambda>r. ev_id r = i \<and> ev_status r = Received) f) ev w = (Ok (), w')"
    and r0: "r0 \<in> set (events (tables w))" "ev_id r0 = i" "ev_status r0 = Received"
    and f: "ev_id (f r0) = i" "snd (event_kind ev) = i" "fst (event_kind ev) \<in> set (announcements (ev_status (f r0)))"
  obtains w3 r where "r = (f r0)\<lparr>ev_metadata := touch (clock w) (ev_metadata (f r0))\<rparr>"
    "r \<in> set (events (tables w3))" "announces (ws_uuids S) r (staged_record (ws_uuids S) (clock w) ev)"
    "outbox (tables w3) = outbox (tables w) @ [staged_record (ws_uuids S) (clock w) ev]"
    "ext w3 = ext w" "w' = sk_publish sink ev w3"
proof -
  let ?mark = "update_events (\<lambda>r. ev_id r = i \<and> ev_status r = Received) f"
  obtain w3 where rec: "record_outcome S ?mark ev w = (Ok (), w3)" and w': "w' = sk_publish sink ev w3"
    using run by (auto simp: settle_def attempt_eq_Ok)
  obtain n d1 where m: "?mark (clock w) (tables w) = Inr (n, d1)"
      and t: "tables w3 = settled_tables S ev (clock w) d1" and x: "ext w3 = ext w"
    using L rec by (rule record_outcome_cases) auto
  define r where "r = (f r0)\<lparr>ev_metadata := touch (clock w) (ev_metadata (f r0))\<rparr>"
  have "r \<in> set (events d1)"
    using m r0 unfolding update_events_Inr r_def by (auto intro!: update_where_hit)
  then have "r \<in> set (events (tables w3))" by (simp add: t settled_tables_def)
  moreover have "announces (ws_uuids S) r (staged_record (ws_uuids S) (clock w) ev)"
    using f by (simp add: announces_def staged_record_def r_def)
  moreover have "outbox (tables w3) = outbox (tables w) @ [staged_record (ws_uuids S) (clock w) ev]"
    using m by (simp add: t settled_tables_def update_events_outbox)
  ultimately show thesis using that r_def x w' by blast
qed

lemma drive_claimed_Ok:
  assumes L: "write_laws S" and A: "target_apart mapper"
    and r0: "r0 \<in> set (events (tables w1))" "ev_id r0 = i" "ev_status r0 = Received" "event_ok r0"
    and run: "drive_claimed S e kind mapper sink i w1 = (Ok out, w')"
  obtains reply w2 w3 r ev where "tp_map mapper (map_request_of e kind) w1 = (reply, w2)"
    "r \<in> set (events (tables w3))" "ev_id r = i" "event_key r = event_key r0" "settles reply r"
    "out = \<lparr>ro_event_id = i, ro_status = integration_status_str (ev_status r),
            ro_mapped_ref_id = ev_ref_id r, ro_duplicate = False\<rparr>"
    "outbox (tables w3) = outbox (tables w2) @ [staged_record (ws_uuids S) (clock w2) ev]"
    "announces (ws_uuids S) r (staged_record (ws_uuids S) (clock w2) ev)"
    "ext w3 = ext w2" "w' = sk_publish sink ev w3"
proof -
  obtain reply w2 where m: "tp_map mapper (map_request_of e kind) w1 = (reply, w2)" by fastforce
  have in2: "r0 \<in> set (events (tables w2))" using target_apartD [OF A m] r0(1) by simp
  have blank: "ev_ref_id r0 = None" using r0(3,4) by (simp add: event_ok_def)
  note go = settled_row [OF L _ in2 r0(2,3)]
  show thesis
  proof (cases reply)
    case (Ok answer)
    show ?thesis
    proof (cases answer)
      case (MappedTo mref)
      obtain w3 where s: "settle S sink (mark_mapped i (mr_ref_type mref) (mr_ref_id mref))
          (IntegrationEventMapped \<lparr>em_event_id = i, em_company_id = ie_company_id e,
             em_connector_id = ie_connector_id e, em_event_type = ie_event_type e,
             em_external_id = ie_external_id e, em_internal_ref_type = mr_ref_type mref,
             em_internal_ref_id = mr_ref_id mref\<rparr>) w2 = (Ok (), w')"
        and o: "out = \<lparr>ro_event_id = i, ro_status = ''mapped'', ro_mapped_ref_id = Some (mr_ref_id mref), ro_duplicate = False\<rparr>"
        using run m Ok MappedTo by (auto simp: drive_claimed_def attempt_eq_Ok)
      show ?thesis
        by (rule go [OF s [unfolded mark_mapped_def]], simp add: r0, simp, simp, rule that [OF m])
          (auto simp: Ok MappedTo o r0 event_key_def)
    next
      case (IgnoredFor reason)
      have s: "settle S sink (mark_ignored i reason) (IntegrationEventIgnored (settled_of i e reason)) w2 = (Ok (), w')"
        and o: "out = \<lparr>ro_event_id = i, ro_status = ''ignored'', ro_mapped_ref_id = None, ro_duplicate = False\<rparr>"
        using run m Ok IgnoredFor by (auto simp: drive_claimed_def attempt_eq_Ok)
      show ?thesis
        by (rule go [OF s [unfolded mark_ignored_def]], simp add: r0, simp add: settled_of_def, simp, rule that [OF m])
          (auto simp: Ok IgnoredFor o r0 blank event_key_def)
    qed
  next
    case (Err rej)
    have s: "settle S sink (mark_failed i (mj_message rej)) (IntegrationEventFailed (settled_of i e (mj_code rej))) w2 = (Ok (), w')"
      and o: "out = \<lparr>ro_event_id = i, ro_status = ''failed'', ro_mapped_ref_id = None, ro_duplicate = False\<rparr>"
      using run m Err by (auto simp: drive_claimed_def attempt_eq_Ok)
    show ?thesis
      by (rule go [OF s [unfolded mark_failed_def]], simp add: r0, simp add: settled_of_def, simp, rule that [OF m])
        (auto simp: Err o r0 blank event_key_def)
  next
    case Panic
    then show ?thesis using run m by (simp add: drive_claimed_def)
  qed
qed

text \<open>
  C19.  An accepted event has gone through the whole path.  When a receive reports a fresh outcome, the
  connector it names exists, is active and not deleted; no event of the same business key was there, and
  the event was claimed before the target was asked; the target was asked once, with the business key as
  its idempotency key; the row now holds exactly the target's answer, committed together with the
  outbox record that announces it; and the publication came after that commit.
\<close>

theorem receive_event_Ok:
  assumes "write_laws S" and "target_apart mapper"
    and "receive_event S i e mapper sink w = (Ok out, w')" and "\<not> ro_duplicate out"
  shows "\<exists>c w1 reply w2 w3 r ev.
      admitting (tables w) e c \<and> \<not> key_taken (tables w) e
    \<and> tables w1 = claimed_tables i e (clock w) (tables w) \<and> ext w1 = ext w
    \<and> (\<exists>q. tp_map mapper q w1 = (reply, w2) \<and> mq_idempotency_key q = ie_business_key e
           \<and> mq_company_id q = ie_company_id e \<and> mq_connector_kind q = connector_kind_str (co_kind c)
           \<and> mq_payload q = ie_payload e)
    \<and> r \<in> set (events (tables w3)) \<and> ev_id r = i \<and> event_key r = (ie_connector_id e, ie_business_key e)
    \<and> settles reply r
    \<and> out = \<lparr>ro_event_id = i, ro_status = integration_status_str (ev_status r),
            ro_mapped_ref_id = ev_ref_id r, ro_duplicate = False\<rparr>
    \<and> (\<exists>b. outbox (tables w3) = outbox (tables w2) @ [b] \<and> announces (ws_uuids S) r b
           \<and> ob_payload b = event_to_value (ws_uuids S) ev)
    \<and> ext w3 = ext w2 \<and> w' = sk_publish sink ev w3"
proof -
  obtain c w1 where 1: "admitting (tables w) e c" "\<not> key_taken (tables w) e"
      "tables w1 = claimed_tables i e (clock w) (tables w)" "ext w1 = ext w"
      "drive_claimed S e (connector_kind_str (co_kind c)) mapper sink i w1 = (Ok out, w')"
    using assms(3,4) by (rule receive_event_new)
  let ?r0 = "received_row (new_row_of i e) (clock w)"
  have r0: "?r0 \<in> set (events (tables w1))" "ev_id ?r0 = i" "ev_status ?r0 = Received" "event_ok ?r0"
    using 1(3) by (simp_all add: claimed_tables_def received_row_def new_row_of_def event_ok_def)
  have key: "event_key ?r0 = (ie_connector_id e, ie_business_key e)"
    by (simp add: event_key_def received_row_def new_row_of_def)
  obtain reply w2 w3 r ev where 2: "tp_map mapper (map_request_of e (connector_kind_str (co_kind c))) w1 = (reply, w2)"
      "r \<in> set (events (tables w3))" "ev_id r = i" "event_key r = event_key ?r0" "settles reply r"
      "out = \<lparr>ro_event_id = i, ro_status = integration_status_str (ev_status r),
            ro_mapped_ref_id = ev_ref_id r, ro_duplicate = False\<rparr>"
      "outbox (tables w3) = outbox (tables w2) @ [staged_record (ws_uuids S) (clock w2) ev]"
      "announces (ws_uuids S) r (staged_record (ws_uuids S) (clock w2) ev)"
      "ext w3 = ext w2" "w' = sk_publish sink ev w3"
    using assms(1,2) r0 1(5) by (rule drive_claimed_Ok)
  have q: "mq_idempotency_key (map_request_of e k) = ie_business_key e" "mq_company_id (map_request_of e k) = ie_company_id e"
      "mq_connector_kind (map_request_of e k) = k" "mq_payload (map_request_of e k) = ie_payload e" for k
    by (simp_all add: map_request_of_def)
  have p: "ob_payload (staged_record (ws_uuids S) (clock w2) ev) = event_to_value (ws_uuids S) ev"
    by (simp add: staged_record_def)
  show ?thesis
    by (intro exI conjI; rule 1 2 q p key [folded 2(4)])
qed

subsection \<open>A deployment to run the examples in\<close>

text \<open>The fake target and the capturing sink of \<open>tests/common/mod.rs\<close>.\<close>

record desk =
  dk_maps :: "map_request list"
  dk_reject :: "(string \<times> string) option"
  dk_ids :: "uuid list"
  dk_published :: "integration_event list"

definition fake_map :: "map_request \<Rightarrow> desk \<Rightarrow> (map_rejected, map_outcome) res \<times> desk" where
  "fake_map q s =
    (let s = s\<lparr>dk_maps := dk_maps s @ [q]\<rparr>
     in case dk_reject s of
          Some (code, message) \<Rightarrow> (Err \<lparr>mj_code = code, mj_message = message\<rparr>, s)
        | None \<Rightarrow>
            if mq_event_type q = ''payment_pending'' then (Ok (IgnoredFor ''payment not yet settled''), s)
            else (Ok (MappedTo \<lparr>mr_ref_type = ''payment'', mr_ref_id = hd (dk_ids s)\<rparr>), s\<lparr>dk_ids := tl (dk_ids s)\<rparr>))"

definition fake_target :: "desk world target_port" where
  "fake_target = \<lparr>tp_map = (\<lambda>q w. let (r, s) = fake_map q (ext w) in (r, w\<lparr>ext := s\<rparr>))\<rparr>"

definition capturing_sink :: "desk world event_sink" where
  "capturing_sink = \<lparr>sk_publish = (\<lambda>ev w. w\<lparr>ext := (ext w)\<lparr>dk_published := dk_published (ext w) @ [ev]\<rparr>\<rparr>)\<rparr>"

definition demo_writer :: write_service where
  "demo_writer = \<lparr>ws_scoped = False, ws_unit_unique = False,
     ws_codec = \<lparr>parse_json = (\<lambda>_. None), b64_encode = id, b64_decode = Some, sha256 = id, hmac_sha256 = (\<lambda>_. id)\<rparr>,
     ws_uuids = bit_uuids, ws_stage = append_outbox\<rparr>"

lemma demo_writer_laws: "write_laws demo_writer"
  by (simp add: write_laws_def demo_writer_def bit_uuids_laws append_outbox_laws)

lemma fake_target_apart: "target_apart fake_target"
  by (simp add: target_apart_def fake_target_def split: prod.splits)

lemma fake_ports_keep: "target_keeps (ledger_step X) fake_target capturing_sink"
  by (auto simp: target_keeps_def fake_target_def capturing_sink_def split: prod.splits)

definition midtrans :: connector where
  "midtrans = \<lparr>co_id = 1, co_provider = ''midtrans'', co_kind = PaymentGateway, co_direction = Inbound,
     co_status = Enabled, co_metadata = default_audit\<rparr>"

definition settled_payment :: inbound_event where
  "settled_payment = \<lparr>ie_company_id = 9, ie_connector_id = 1, ie_event_type = ''payment_settled'',
     ie_external_id = ''n-1'', ie_business_key = ''SO-9'', ie_raw = ''x'', ie_payload = JNull\<rparr>"

definition desk_world :: "(string \<times> string) option \<Rightarrow> event list \<Rightarrow> desk world" where
  "desk_world rej evs = \<lparr>tables = \<lparr>accounts = [], connectors = [midtrans], events = evs, outbox = []\<rparr>, clock = 0,
     locked = [], faults = [], ext = \<lparr>dk_maps = [], dk_reject = rej, dk_ids = [5], dk_published = []\<rparr>\<rparr>"

lemmas desk_defs = desk_world_def midtrans_def settled_payment_def demo_writer_def fake_target_def
  fake_map_def capturing_sink_def

lemma trim_plain: "trim ''n-1'' \<noteq> []" "trim ''SO-9'' \<noteq> []"
  by code_simp+

text \<open>A claim that succeeds, as an equation.\<close>

lemma find_Some_in: "find P xs = Some x \<Longrightarrow> x \<in> set xs \<and> P x"
  by (auto simp: find_Some_iff)

lemma claim_event_new:
  assumes "find (\<lambda>c. co_id c = ie_connector_id e \<and> deleted_at (co_metadata c) = None) (connectors d) = Some c"
    and "\<not> key_taken d e" and "i \<notin> ev_id ` set (events d)" and "event_checks (received_row (new_row_of i e) t)"
  shows "claim_event (new_row_of i e) t d = Inr (Some i, claimed_tables i e t d)"
proof -
  have "ie_connector_id e \<in> co_id ` set (connectors d)"
    using find_Some_in [OF assms(1)] by force
  with assms show ?thesis by (simp add: claim_event_def key_taken_def claimed_tables_def new_row_of_def)
qed

lemma receive_event_claims:
  assumes "faults w = []" and "trim (ie_external_id e) \<noteq> []" and "trim (ie_business_key e) \<noteq> []"
    and c: "find (\<lambda>c. co_id c = ie_connector_id e \<and> deleted_at (co_metadata c) = None) (connectors (tables w)) = Some c"
    and "co_status c = Enabled" and "\<not> key_taken (tables w) e" and "i \<notin> ev_id ` set (events (tables w))"
    and "event_checks (received_row (new_row_of i e) (clock w))"
  shows "receive_event S i e mapper sink w = drive_claimed S e (connector_kind_str (co_kind c)) mapper sink i
    (w\<lparr>tables := claimed_tables i e (clock w) (tables w)\<rparr>)"
  using assms(1-5) claim_event_new [OF c assms(6-8)] by (simp add: receive_event_def no_fault_calls fetch_gate_def)

lemma desk_claims:
  "receive_event demo_writer 3 settled_payment mapper sink (desk_world rej []) =
    drive_claimed demo_writer settled_payment ''payment_gateway'' mapper sink 3
      ((desk_world rej [])\<lparr>tables := claimed_tables 3 settled_payment 0 (tables (desk_world rej []))\<rparr>)"
proof -
  have ck: "event_checks (received_row (new_row_of 3 settled_payment) (clock (desk_world rej [])))"
    by (simp add: new_row_of_def settled_payment_def received_row_def event_checks_def non_blank_def
        char_length_def byte_def)
  show ?thesis
    by (subst receive_event_claims [where c = midtrans, OF _ _ _ _ _ _ _ ck])
      (simp_all add: desk_world_def midtrans_def settled_payment_def key_taken_def default_audit_def trim_plain)
qed

text \<open>A settled payment that is received for the first time.\<close>

definition received_desk :: "desk world" where
  "received_desk = snd (receive_event demo_writer 3 settled_payment fake_target capturing_sink (desk_world None []))"

lemma demo_receive:
  "receive_event demo_writer 3 settled_payment fake_target capturing_sink (desk_world None []) =
     (Ok \<lparr>ro_event_id = 3, ro_status = ''mapped'', ro_mapped_ref_id = Some 5, ro_duplicate = False\<rparr>, received_desk)"
  using outbox_record_of_Ok [OF bit_uuids_laws]
  unfolding received_desk_def desk_claims
  by (simp add: drive_claimed_def Let_def settle_def record_outcome_def stage_def no_fault_calls
      map_request_of_def mark_mapped_def update_events_def claimed_tables_def received_row_def new_row_of_def
      append_outbox_def desk_defs event_checks_def non_blank_def char_length_def byte_def)

theorem receive_event_Ok_witness:
  "\<exists>c. admitting (tables (desk_world None [])) settled_payment c
    \<and> \<not> key_taken (tables (desk_world None [])) settled_payment"
proof -
  have fresh: "\<not> ro_duplicate \<lparr>ro_event_id = 3, ro_status = ''mapped'', ro_mapped_ref_id = Some 5, ro_duplicate = False\<rparr>"
    by simp
  from receive_event_Ok [OF demo_writer_laws fake_target_apart demo_receive fresh] show ?thesis
    by (elim exE conjE, intro exI conjI)
qed

subsection \<open>At most one mapping per business key\<close>

lemma key_taken_iff:
  "key_taken d e \<longleftrightarrow> (\<exists>r \<in> set (events d). event_key r = (ie_connector_id e, ie_business_key e))"
  by (auto simp: key_taken_def list_ex_iff same_key_def event_key_def)

lemma key_taken_stays:
  assumes "ledger_step X d d'" and "r \<in> set (events d)" and "event_key r = (ie_connector_id e, ie_business_key e)"
  obtains r' where "r' \<in> set (events d')" "event_moves r r'" "event_key r' = event_key r"
  using ledger_step_moves [OF assms(1,2)] that by (auto simp: event_moves_def)

lemma find_key:
  assumes "events_ok d" and "r \<in> set (events d)" and "event_key r = (c, k)"
  shows "find (same_key c k) (events d) = Some r"
proof -
  have "find (same_key c k) rows = Some r" if "distinct (map event_key rows)" "r \<in> set rows" for rows
    using that
  proof (induction rows)
    case (Cons x xs)
    have "same_key c k x \<longleftrightarrow> event_key x = event_key r"
      using assms(3) by (simp add: same_key_def event_key_def)
    then show ?case using Cons by auto
  qed simp
  with assms(1,2) show ?thesis by (simp add: events_ok_def)
qed

text \<open>A receive for a key that is taken: the target and the sink play no part.\<close>

lemma attempt_link_cong:
  "(\<And>x v. m = (Ok x, v) \<Longrightarrow> k x v = k' x v) \<Longrightarrow> attempt m k = attempt m k'"
  by (cases m; cases "fst m") auto

lemma read_untouched:
  assumes "execute s w = (r, w')" and "\<And>t a d'. s t (tables w) = Inr (a, d') \<Longrightarrow> d' = tables w"
  shows "untouched w w'"
  using execute_ext [of s w] execute_clock [of s w] execute_tables [of s w] assms
  by (auto simp: untouched_def)

lemma gate_untouched:
  "execute (fetch_gate c) w = (x, v) \<Longrightarrow> untouched w v"
  by (erule read_untouched) (rule ledger_reads)

lemma taken_claim:
  assumes "r \<in> set (events (tables w))" and "event_key r = (ie_connector_id e, ie_business_key e)"
    and "untouched w v" and x: "execute (claim_event (new_row_of i e)) v = (x, v')"
  shows "untouched w v'" and "x \<noteq> Ok (Some j)"
proof -
  have claim: "claim_event (new_row_of i e) t (tables w) \<noteq> Inr (Some j, d')" for t j d'
    using assms(1,2) claim_event_Some key_taken_iff by blast
  then show "x \<noteq> Ok (Some j)" using assms(3) x by (auto simp: untouched_def dest: execute_Ok)
  show "untouched w v'"
    by (rule untouched_trans [OF assms(3) read_untouched [OF x]])
      (use assms(3) claim claim_event_None in \<open>fastforce simp: untouched_def\<close>)
qed

lemma taken_untouched:
  assumes r: "r \<in> set (events (tables w))" and k: "event_key r = (ie_connector_id e, ie_business_key e)"
    and m: "\<And>kind j v. drive_claimed S e kind m s j v = (Panic, v)"
  shows "untouched w (snd (receive_event S i e m s w))"
proof -
  have u1: "untouched w (snd (on_err f (execute (fetch_gate c) w)))" for f :: "db_error \<Rightarrow> integration_error" and c
    using gate_untouched [OF surjective_pairing] by simp
  have u2: "untouched w (snd (on_err f (execute (claim_event (new_row_of i e)) v)))" if "untouched w v"
    for f :: "db_error \<Rightarrow> integration_error" and v
    using taken_claim(1) [OF r k that surjective_pairing] by simp
  have u3: "untouched w (snd (on_err f (execute (fetch_by_business_key c q) v)))" if "untouched w v"
    for f :: "db_error \<Rightarrow> integration_error" and v c q
    using untouched_trans [OF that read_untouched [OF surjective_pairing ledger_reads(3)]] by simp
  show ?thesis
    unfolding receive_event_def
    by (auto intro!: untouched_attempt u1 u2 u3 dest!: gate_untouched
        simp: on_err_eq_Ok m split: option.splits)
qed

lemma taken_reports:
  assumes ok: "events_ok (tables w)" and r: "r \<in> set (events (tables w))"
    and k: "event_key r = (ie_connector_id e, ie_business_key e)"
    and m: "\<And>kind j v. drive_claimed S e kind m s j v = (Panic, v)"
    and run: "receive_event S i e m s w = (Ok o', w')"
  shows "o' = \<lparr>ro_event_id = ev_id r, ro_status = integration_status_str (ev_status r),
    ro_mapped_ref_id = ev_ref_id r, ro_duplicate = True\<rparr>"
proof -
  have found: "fetch_by_business_key (ie_connector_id e) (ie_business_key e) t (tables w) =
      Inr (\<lparr>eo_id = ev_id r, eo_status = integration_status_str (ev_status r), eo_mapped_ref_id = ev_ref_id r\<rparr>, tables w)" for t
    using find_key [OF ok r k] by (simp add: fetch_by_business_key_def)
  from run obtain v v' v'' row where v: "untouched w v" "execute (claim_event (new_row_of i e)) v = (Ok None, v')"
      and row: "execute (fetch_by_business_key (ie_connector_id e) (ie_business_key e)) v' = (Ok row, v'')"
      and o': "o' = \<lparr>ro_event_id = eo_id row, ro_status = eo_status row, ro_mapped_ref_id = eo_mapped_ref_id row,
        ro_duplicate = True\<rparr>"
    by (auto simp: receive_event_def attempt_eq_Ok on_err_eq_Ok m dest!: gate_untouched split: if_splits option.splits)
  show ?thesis
    using execute_Ok [OF row] taken_claim(1) [OF r k v] by (auto simp: untouched_def found o')
qed

text \<open>The target and the sink play no part: an arbitrary pair stands for all of them.\<close>

lemma receive_event_taken:
  assumes ok: "events_ok (tables w)" and r: "r \<in> set (events (tables w))"
    and k: "event_key r = (ie_connector_id e, ie_business_key e)"
  obtains out w' where "\<And>mapper sink. receive_event S i e mapper sink w = (out, w')" "untouched w w'"
    "\<And>o'. out = Ok o' \<Longrightarrow> o' = \<lparr>ro_event_id = ev_id r, ro_status = integration_status_str (ev_status r),
         ro_mapped_ref_id = ev_ref_id r, ro_duplicate = True\<rparr>"
proof -
  have lost: False if "execute (claim_event (new_row_of i e)) v = (Ok (Some j), v')" "untouched w v" for v v' j
    using taken_claim(2) [OF r k that(2,1)] by blast
  have same: "receive_event S i e mapper sink w = receive_event S i e mapper' sink' w" for mapper sink mapper' sink'
    unfolding receive_event_def
    by (intro if_cong refl attempt_link_cong)
      (auto simp: on_err_eq_Ok dest!: gate_untouched dest: lost split: option.splits)
  define m0 :: "'a world target_port" where "m0 = \<lparr>tp_map = (\<lambda>_ w. (Panic, w))\<rparr>"
  define s0 :: "'a world event_sink" where "s0 = logging_sink"
  have m: "drive_claimed S e kind m0 s0 j v = (Panic, v)" for kind j v
    by (simp add: drive_claimed_def m0_def)
  obtain out w' where run: "receive_event S i e m0 s0 w = (out, w')" by fastforce
  show thesis
  proof (rule that)
    show "receive_event S i e mapper sink w = (out, w')" for mapper sink using same [of _ _ m0 s0] run by simp
    show "untouched w w'" using taken_untouched [OF r k m, of i] run by simp
    show "o' = \<lparr>ro_event_id = ev_id r, ro_status = integration_status_str (ev_status r),
      ro_mapped_ref_id = ev_ref_id r, ro_duplicate = True\<rparr>" if "out = Ok o'" for o'
      using taken_reports [OF ok r k m] run that by blast
  qed
qed

text \<open>
  C18.  A business action is mapped at most once.  Once an event of a (connector, business key) is in the
  ledger, whatever its state and whatever other tasks then do within the ledger's lifecycle, receiving
  that key again is the same call for every target and every sink: neither is asked, nothing is written,
  and a reported outcome is the recorded one, marked as a duplicate.
\<close>

theorem redelivery_never_maps:
  assumes "events_ok (tables w)" and "r \<in> set (events (tables w))"
    and "event_key r = (ie_connector_id e, ie_business_key e)"
    and "ledger_step X (tables w) (tables v)"
  shows "\<exists>out v' r'. (\<forall>mapper sink. receive_event S i e mapper sink v = (out, v'))
    \<and> tables v' = tables v \<and> ext v' = ext v
    \<and> r' \<in> set (events (tables v)) \<and> event_moves r r'
    \<and> (\<forall>o'. out = Ok o' \<longrightarrow> o' = \<lparr>ro_event_id = ev_id r, ro_status = integration_status_str (ev_status r'),
         ro_mapped_ref_id = ev_ref_id r', ro_duplicate = True\<rparr>)"
proof -
  obtain r' where r': "r' \<in> set (events (tables v))" "event_moves r r'" "event_key r' = event_key r"
    using assms(4,2,3) by (rule key_taken_stays)
  have ok: "events_ok (tables v)" using assms(1,4) by (simp add: ledger_step_def)
  have id: "ev_id r' = ev_id r" using r'(2) by (simp add: event_moves_def)
  obtain out v' where "\<And>mapper sink. receive_event S i e mapper sink v = (out, v')" "untouched v v'"
      "\<And>o'. out = Ok o' \<Longrightarrow> o' = \<lparr>ro_event_id = ev_id r', ro_status = integration_status_str (ev_status r'),
         ro_mapped_ref_id = ev_ref_id r', ro_duplicate = True\<rparr>"
    using receive_event_taken [OF ok r'(1) r'(3) [unfolded assms(3)]] by blast
  with r' id show ?thesis by (intro exI [of _ out] exI [of _ v'] exI [of _ r']) (simp add: untouched_def)
qed

definition waiting_row :: event where
  "waiting_row = received_row (new_row_of 3 settled_payment) 0"

lemma waiting_desk_ok: "events_ok (tables (desk_world rej [waiting_row]))"
  by (simp add: events_ok_def waiting_row_def received_row_def new_row_of_def desk_defs event_ok_def)

theorem redelivery_never_maps_witness:
  "\<exists>out v'. (\<forall>mapper sink. receive_event demo_writer 4 settled_payment mapper sink (desk_world None [waiting_row]) = (out, v'))
     \<and> tables v' = tables (desk_world None [waiting_row])"
proof -
  have "waiting_row \<in> set (events (tables (desk_world None [waiting_row])))"
    by (simp add: desk_world_def)
  moreover have "event_key waiting_row = (ie_connector_id settled_payment, ie_business_key settled_payment)"
    by (simp add: waiting_row_def received_row_def new_row_of_def event_key_def)
  ultimately show ?thesis
    using redelivery_never_maps [OF waiting_desk_ok _ _ ledger_step_refl [of bit_uuids], of waiting_row None settled_payment
        demo_writer 4] by blast
qed

subsection \<open>Publication follows the commit\<close>

definition same_if_err :: "('e, 'a) res \<times> 'w \<Rightarrow> ('e, 'a) res \<times> 'w \<Rightarrow> bool" where
  "same_if_err a b \<longleftrightarrow> (\<forall>e. fst a = Err e \<longrightarrow> b = a)"

lemma same_if_err_refl [simp]: "same_if_err a a"
  by (simp add: same_if_err_def)

lemma same_if_err_link:
  "(\<And>x v. m = (Ok x, v) \<Longrightarrow> same_if_err (k x v) (k' x v)) \<Longrightarrow> same_if_err (attempt m k) (attempt m k')"
  by (cases m; cases "fst m") auto

lemma drive_claimed_Err_sink:
  "same_if_err (drive_claimed S e kind mapper sink i w) (drive_claimed S e kind mapper sink' i w)"
proof -
  have "same_if_err (attempt (settle S sink mark ev v) (\<lambda>_ w. (Ok out, w)))
      (attempt (settle S sink' mark ev v) (\<lambda>_ w. (Ok out, w)))" for mark ev v and out :: receive_outcome
    by (cases "record_outcome S mark ev v"; cases "fst (record_outcome S mark ev v)")
      (auto simp: settle_def same_if_err_def)
  then show ?thesis by (simp add: drive_claimed_def split: prod.splits res.splits map_outcome.splits)
qed

lemma receive_event_Err_sink:
  "same_if_err (receive_event S i e mapper sink w) (receive_event S i e mapper sink' w)"
proof -
  have gate: "same_if_err (if b then x else y) (if b then x else y')" if "same_if_err y y'"
    for b and x y y' :: "(integration_error, receive_outcome) res \<times> 'a world"
    using that by simp
  show ?thesis
    unfolding receive_event_def
    by (intro gate same_if_err_link) (auto intro: drive_claimed_Err_sink split: option.splits)
qed

text \<open>
  C21.  Nothing is published that was not committed: a receive that ends in an error is the same call for
  every event sink, so no sink has been told of an outcome.
\<close>

theorem failed_receive_publishes_nothing:
  assumes "receive_event S i e mapper sink w = (Err er, w')"
  shows "receive_event S i e mapper sink' w = (Err er, w')"
  using receive_event_Err_sink [of S i e mapper sink w sink'] assms by (simp add: same_if_err_def)


definition empty_desk :: "desk world" where
  "empty_desk = (desk_world None [])\<lparr>tables := \<lparr>accounts = [], connectors = [], events = [], outbox = []\<rparr>\<rparr>"

lemma empty_desk_refuses:
  "receive_event demo_writer 3 settled_payment fake_target capturing_sink empty_desk = (Err (Missing ''connector''), empty_desk)"
  using trim_plain
  by (simp add: receive_event_def no_fault_calls fetch_gate_def empty_desk_def desk_world_def settled_payment_def)

theorem failed_receive_publishes_nothing_witness:
  "receive_event demo_writer 3 settled_payment fake_target logging_sink empty_desk = (Err (Missing ''connector''), empty_desk)"
  by (rule failed_receive_publishes_nothing [OF empty_desk_refuses])

subsection \<open>Events that are left behind\<close>

lemma fetch_failed_rows:
  assumes "fetch_failed c t d = Inr (rows, d')"
  shows "x \<in> set rows \<Longrightarrow> \<exists>r \<in> set (events d). x = failed_row r \<and> ev_connector r = c \<and> ev_status r = Failed"
    and "length rows = length (filter (\<lambda>r. ev_connector r = c \<and> ev_status r = Failed) (events d))"
  using assms
    sum_length_filter_compl [of "\<lambda>r. created_at (ev_metadata r) = None"
      "filter (\<lambda>r. ev_connector r = c \<and> ev_status r = Failed) (events d)"]
  by (auto simp: fetch_failed_def Let_def)

lemma mark_failed_too_long:
  assumes "r \<in> set (events d)" "ev_id r = i" "ev_status r = Received" "1000 < char_length s"
  shows "mark_failed i s t d = Inl DbFailure"
  using assms by (auto simp: mark_failed_def update_events_def list_all_iff event_checks_def)

text \<open>A row left \<open>received\<close> is in no failure report, and a redelivery of its key only reports it.\<close>

lemma received_unlisted:
  assumes "events_ok d" and "r \<in> set (events d)" and "ev_status r = Received"
    and "fetch_failed c t d = Inr (rows, d')"
  shows "ev_id r \<notin> fer_id ` set rows"
proof
  note listed = fetch_failed_rows(1) [OF assms(4)]
  assume "ev_id r \<in> fer_id ` set rows"
  then obtain x where x: "x \<in> set (events d)" "ev_id x = ev_id r" "ev_status x = Failed"
    using listed by (force simp: failed_row_def)
  then have "x = r" using assms(1,2) by (auto simp: events_ok_def distinct_map dest: inj_onD)
  with x(3) assms(3) show False by simp
qed

lemma redelivery_reports:
  assumes "faults w = []" and "trim (ie_external_id e) \<noteq> []" and "trim (ie_business_key e) \<noteq> []"
    and "find (\<lambda>c. co_id c = ie_connector_id e \<and> deleted_at (co_metadata c) = None) (connectors (tables w)) = Some c"
    and "co_status c = Enabled" and "event_checks (received_row (new_row_of j e) (clock w))"
    and "events_ok (tables w)" and "r \<in> set (events (tables w))"
    and "event_key r = (ie_connector_id e, ie_business_key e)"
  shows "fst (receive_event S j e mapper sink w) = Ok \<lparr>ro_event_id = ev_id r,
    ro_status = integration_status_str (ev_status r), ro_mapped_ref_id = ev_ref_id r, ro_duplicate = True\<rparr>"
proof -
  have "claim_event (new_row_of j e) (clock w) (tables w) = Inr (None, tables w)"
    using assms(6,8,9) by (auto simp: claim_event_def new_row_of_def same_key_def event_key_def list_ex_iff)
  moreover have "find (same_key (ie_connector_id e) (ie_business_key e)) (events (tables w)) = Some r"
    by (rule find_key [OF assms(7-9)])
  ultimately show ?thesis
    using assms(1-5) by (simp add: receive_event_def no_fault_calls fetch_gate_def fetch_by_business_key_def)
qed

text \<open>
  C22.  A rejection with a long message strands its event.  The claim is committed before the target is
  asked; when the target's message exceeds the 1000 characters the table's check allows, recording the
  failure fails, the receive ends in a database error, and the event stays \<open>received\<close>: the failure
  report does not list it, a re-drive does not select it, and the provider's redelivery is answered as a
  duplicate whose status is \<open>received\<close>.
\<close>

theorem long_rejection_strands:
  assumes "faults w = []" and "trim (ie_external_id e) \<noteq> []" and "trim (ie_business_key e) \<noteq> []"
    and "find (\<lambda>c. co_id c = ie_connector_id e \<and> deleted_at (co_metadata c) = None) (connectors (tables w)) = Some c"
    and "co_status c = Enabled" and "\<not> key_taken (tables w) e" and "i \<notin> ev_id ` set (events (tables w))"
    and "event_checks (received_row (new_row_of i e) (clock w))" and "events_ok (tables w)"
    and target: "\<And>q v. \<exists>v'. tp_map mapper q v = (Err rej, v') \<and> tables v' = tables v \<and> faults v' = faults v"
    and "1000 < char_length (mj_message rej)"
  shows "\<exists>w' r. receive_event S i e mapper sink w = (Err (DbError DbFailure), w')
    \<and> r \<in> set (events (tables w')) \<and> ev_id r = i \<and> ev_status r = Received \<and> faults w' = []
    \<and> (\<forall>c t rows d. fetch_failed c t (tables w') = Inr (rows, d) \<longrightarrow> i \<notin> fer_id ` set rows)
    \<and> fst (receive_event S j e mapper' sink' w') =
        Ok \<lparr>ro_event_id = i, ro_status = ''received'', ro_mapped_ref_id = None, ro_duplicate = True\<rparr>"
proof -
  let ?r = "received_row (new_row_of i e) (clock w)"
  let ?w1 = "w\<lparr>tables := claimed_tables i e (clock w) (tables w)\<rparr>"
  have r: "ev_id ?r = i" "ev_status ?r = Received" "event_key ?r = (ie_connector_id e, ie_business_key e)"
      "ev_ref_id ?r = None" "event_ok ?r" "ev_connector ?r = ie_connector_id e"
    by (simp_all add: received_row_def new_row_of_def event_key_def event_ok_def)
  have run: "receive_event S i e mapper sink w = drive_claimed S e (connector_kind_str (co_kind c)) mapper sink i ?w1"
    using assms(1-8) by (rule receive_event_claims)
  obtain w' where m: "tp_map mapper (map_request_of e (connector_kind_str (co_kind c))) ?w1 = (Err rej, w')"
      and t: "tables w' = claimed_tables i e (clock w) (tables w)" and f: "faults w' = []"
    using target [of "map_request_of e (connector_kind_str (co_kind c))" ?w1] assms(1) by auto
  have claim: "claim_event (new_row_of i e) (clock w) (tables w) = Inr (Some i, tables w')"
    using claim_event_new [OF assms(4,6-8)] by (simp add: t)
  have ok: "events_ok (tables w')"
    using claim_event_step [OF claim] assms(9) by (auto simp: ledger_step_def)
  have in': "?r \<in> set (events (tables w'))" by (simp add: t claimed_tables_def)
  have ended: "receive_event S i e mapper sink w = (Err (DbError DbFailure), w')"
    using mark_failed_too_long [OF in' r(1,2) assms(11)] f m
    by (simp add: run drive_claimed_def settle_def record_outcome_def no_fault_calls)
  have unlisted: "i \<notin> fer_id ` set rows" if "fetch_failed c' t' (tables w') = Inr (rows, d)" for c' t' rows d
    using received_unlisted [OF ok in' r(2) that] r(1) by simp
  have "event_checks (received_row (new_row_of j e) (clock w'))"
    using assms(8) by (simp add: event_checks_def received_row_def new_row_of_def)
  moreover have "connectors (tables w') = connectors (tables w)" by (simp add: t claimed_tables_def)
  ultimately have "fst (receive_event S j e mapper' sink' w') =
        Ok \<lparr>ro_event_id = i, ro_status = ''received'', ro_mapped_ref_id = None, ro_duplicate = True\<rparr>"
    using redelivery_reports [OF f assms(2,3) _ assms(5) _ ok in' r(3)] assms(4) r by simp
  with ended in' r f unlisted show ?thesis by blast
qed

definition verbose_rejection :: map_rejected where
  "verbose_rejection = \<lparr>mj_code = ''bad_payload'', mj_message = replicate 1001 CHR ''x''\<rparr>"

definition rejecting_target :: "desk world target_port" where
  "rejecting_target = \<lparr>tp_map = (\<lambda>_ w. (Err verbose_rejection, w))\<rparr>"

theorem long_rejection_strands_witness:
  "\<exists>w'. receive_event demo_writer 3 settled_payment rejecting_target capturing_sink (desk_world None []) =
      (Err (DbError DbFailure), w') \<and>
    fst (receive_event demo_writer 4 settled_payment fake_target capturing_sink w') =
      Ok \<lparr>ro_event_id = 3, ro_status = ''received'', ro_mapped_ref_id = None, ro_duplicate = True\<rparr>"
proof -
  have "event_checks (received_row (new_row_of 3 settled_payment) (clock (desk_world None [])))"
    by (simp add: new_row_of_def settled_payment_def received_row_def event_checks_def non_blank_def
        char_length_def byte_def)
  moreover have "1000 < char_length (mj_message verbose_rejection)"
    by (simp add: verbose_rejection_def char_length_def byte_def filter_replicate)
  moreover have "events_ok (tables (desk_world None []))"
    by (simp add: events_ok_def desk_world_def)
  moreover have "\<exists>v'. tp_map rejecting_target q v = (Err verbose_rejection, v') \<and> tables v' = tables v \<and> faults v' = faults v"
    for q v by (simp add: rejecting_target_def)
  moreover have "find (\<lambda>c. co_id c = ie_connector_id settled_payment \<and> deleted_at (co_metadata c) = None)
      (connectors (tables (desk_world None []))) = Some midtrans"
    by (simp add: desk_world_def midtrans_def settled_payment_def default_audit_def)
  ultimately show ?thesis
    using long_rejection_strands [of "desk_world None []" settled_payment midtrans 3 rejecting_target verbose_rejection
        demo_writer capturing_sink 4 fake_target capturing_sink] trim_plain
    by (auto simp: desk_world_def settled_payment_def key_taken_def midtrans_def)
qed

subsection \<open>Re-driving the failed events\<close>

definition count_mapped :: "db \<Rightarrow> nat" where
  "count_mapped d = length (filter (\<lambda>r. ev_status r = Mapped) (events d))"

definition count_failed :: "uuid \<Rightarrow> db \<Rightarrow> nat" where
  "count_failed c d = length (filter (\<lambda>r. ev_connector r = c \<and> ev_status r = Failed) (events d))"

text \<open>A target and a sink that leave this module's events to it.\<close>

definition sink_apart :: "'x world event_sink \<Rightarrow> bool" where
  "sink_apart sink \<longleftrightarrow> (\<forall>ev w. events (tables (sk_publish sink ev w)) = events (tables w))"

lemma count_update:
  assumes "\<And>r. p r \<Longrightarrow> \<not> q r \<and> q (f r)"
  shows "length (filter q (update_where p f rows)) = length (filter q rows) + rows_affected p rows"
  using assms by (induction rows) (auto simp: update_where_def rows_affected_def)

lemma count_update_same:
  assumes "\<And>r. p r \<Longrightarrow> q (f r) = q r"
  shows "length (filter q (update_where p f rows)) = length (filter q rows)"
  using assms by (induction rows) (auto simp: update_where_def)

text \<open>What driving one failed event can do: count \<open>k\<close> rows to mapped, and touch failed rows of \<open>I\<close> only.\<close>

definition retry_effect :: "uuid set \<Rightarrow> nat \<Rightarrow> db \<Rightarrow> db \<Rightarrow> bool" where
  "retry_effect I k d d' \<longleftrightarrow> count_mapped d' = count_mapped d + k \<and> length (events d') = length (events d)
     \<and> (\<forall>r \<in> set (events d). ev_status r \<noteq> Failed \<or> ev_id r \<notin> I \<longrightarrow> r \<in> set (events d'))"

lemma retry_effect_refl: "events d' = events d \<Longrightarrow> retry_effect I 0 d d'"
  by (simp add: retry_effect_def count_mapped_def)

lemma retry_effect_trans: "retry_effect I j a b \<Longrightarrow> retry_effect I k b c \<Longrightarrow> retry_effect I (j + k) a c"
  by (auto simp: retry_effect_def)

lemma retry_effect_events: "retry_effect I k a b \<Longrightarrow> events a' = events a \<Longrightarrow> events b' = events b \<Longrightarrow> retry_effect I k a' b'"
  by (simp add: retry_effect_def count_mapped_def)

lemma update_failed_effect:
  assumes "update_events (\<lambda>r. ev_id r = i \<and> ev_status r = Failed) f t d = Inr (n, d')" and "i \<in> I"
  shows "(\<And>r. ev_status (f r) = Mapped) \<Longrightarrow> retry_effect I n d d'"
    and "(\<And>r. ev_status r = Failed \<Longrightarrow> ev_status (f r) \<noteq> Mapped) \<Longrightarrow> retry_effect I 0 d d'"
proof -
  have n: "n = rows_affected (\<lambda>r. ev_id r = i \<and> ev_status r = Failed) (events d)"
    and ev: "events d' = update_where (\<lambda>r. ev_id r = i \<and> ev_status r = Failed)
        (\<lambda>r. f r\<lparr>ev_metadata := touch t (ev_metadata (f r))\<rparr>) (events d)"
    using assms(1) by (auto simp: update_events_Inr)
  have kept: "\<forall>r \<in> set (events d). ev_status r \<noteq> Failed \<or> ev_id r \<notin> I \<longrightarrow> r \<in> set (events d')"
    using assms(2) unfolding ev set_update_where by force
  show "retry_effect I n d d'" if "\<And>r. ev_status (f r) = Mapped"
    using kept that unfolding retry_effect_def count_mapped_def n ev
    by (auto intro!: count_update)
  show "retry_effect I 0 d d'" if "\<And>r. ev_status r = Failed \<Longrightarrow> ev_status (f r) \<noteq> Mapped"
    using kept that unfolding retry_effect_def count_mapped_def ev
    by (auto intro!: count_update_same)
qed

lemma execute_effect:
  assumes "execute s w = (Ok a, w')" and "\<And>t n d'. s t (tables w) = Inr (n, d') \<Longrightarrow> retry_effect I 0 (tables w) d'"
  shows "retry_effect I 0 (tables w) (tables w')"
  using assms(2) [OF execute_Ok [OF assms(1)]] .

lemma retry_one_effect:
  assumes L: "write_laws S" and A: "target_apart mapper" "sink_apart sink"
    and run: "retry_one S company c kind mapper sink row w = (Ok k, w')" and I: "fer_id row \<in> I"
  shows "retry_effect I k (tables w) (tables w') \<and> k \<le> 1"
proof -
  obtain r v where m: "tp_map mapper (retry_request S company kind row) w = (r, v)" by fastforce
  have start: "retry_effect I 0 (tables w) (tables v)"
    by (rule retry_effect_refl) (rule target_apartD [OF A(1) m])
  have "retry_effect I k (tables v) (tables w') \<and> k \<le> 1"
  proof (cases r)
    case (Ok outc)
    show ?thesis
    proof (cases outc)
      case (MappedTo mref)
      define mark where "mark = retry_mark_mapped (fer_id row) (mr_ref_type mref) (mr_ref_id mref)"
      obtain ev hit u where h: "retry_record S mark ev v = (Ok hit, u)"
          and k: "k = (if hit then 1 else 0)" "w' = (if hit then sk_publish sink ev u else u)"
        using run m Ok MappedTo
        by (auto simp: retry_one_def retry_settle_def attempt_eq_Ok mark_def split: if_splits)
      from L h show ?thesis
      proof (cases rule: retry_record_cases)
        case undone
        then show ?thesis using k retry_effect_refl by (auto simp: untouched_def)
      next
        case (settled d1)
        have "retry_effect I 1 (tables v) d1"
          using settled(2) update_failed_effect(1) [OF _ I] by (simp add: mark_def retry_mark_mapped_def)
        then show ?thesis
          using k settled A(2) by (auto simp: sink_apart_def settled_tables_def intro: retry_effect_events)
      qed
    next
      case (IgnoredFor reason)
      then show ?thesis
        using run m Ok update_failed_effect(2) [OF _ I]
        by (auto simp: retry_one_def attempt_eq_Ok on_err_eq_Ok retry_mark_ignored_def intro!: execute_effect)
    qed
  next
    case (Err rej)
    then show ?thesis
      using run m update_failed_effect(2) [OF _ I]
      by (auto simp: retry_one_def attempt_eq_Ok on_err_eq_Ok set_error_detail_def intro!: execute_effect)
  qed (use run m in \<open>simp add: retry_one_def\<close>)
  with retry_effect_trans [OF start] show ?thesis by fastforce
qed

lemma retry_rows_effect:
  assumes "\<And>row v k v'. row \<in> set rows \<Longrightarrow> one row v = (Ok k, v') \<Longrightarrow> retry_effect I k (tables v) (tables v') \<and> k \<le> 1"
    and "retry_rows one j rows w = (Ok n, w')"
  shows "\<exists>k. n = j + k \<and> k \<le> length rows \<and> retry_effect I k (tables w) (tables w')"
  using assms
proof (induction rows arbitrary: j w)
  case Nil
  then show ?case using retry_effect_refl by fastforce
next
  case (Cons row rows)
  from Cons.prems(2) obtain k v where k: "one row w = (Ok k, v)" and rest: "retry_rows one (j + k) rows v = (Ok n, w')"
    by (auto simp: attempt_eq_Ok)
  have 1: "retry_effect I k (tables w) (tables v)" "k \<le> 1" using Cons.prems(1) [OF _ k] by auto
  obtain l where l: "n = j + k + l" "l \<le> length rows" "retry_effect I l (tables v) (tables w')"
    using Cons.IH [OF _ rest] Cons.prems(1) by (metis list.set_intros(2))
  have "retry_effect I (k + l) (tables w) (tables w')" using retry_effect_trans 1(1) l(3) .
  then show ?case using 1(2) l by (intro exI [of _ "k + l"]) simp
qed

text \<open>
  C20.  The re-drive counts exactly the transitions it makes.  The number it returns is by how much the
  mapped events have grown, it never exceeds the connector's failed events it started from, no event is
  lost, and no row is touched but the failed ones of that connector.
\<close>

theorem retry_failed_counts:
  assumes "write_laws S" and "target_apart mapper" and "sink_apart sink" and "events_ok (tables w)"
    and "retry_failed S company c mapper sink w = (Ok n, w')"
  shows "count_mapped (tables w') = count_mapped (tables w) + n \<and> n \<le> count_failed c (tables w)
    \<and> length (events (tables w')) = length (events (tables w))
    \<and> (\<forall>r \<in> set (events (tables w)). ev_status r \<noteq> Failed \<or> ev_connector r \<noteq> c \<longrightarrow> r \<in> set (events (tables w')))"
proof -
  obtain kind w0 rows w1 where 1: "execute (fetch_for_retry c) w = (Ok (Some kind), w0)"
      "execute (fetch_failed c) w0 = (Ok rows, w1)"
      "retry_rows (retry_one S company c kind mapper sink) 0 rows w1 = (Ok n, w')"
    using assms(5) by (auto simp: retry_failed_def attempt_eq_Ok on_err_eq_Ok)
  have 2: "tables w0 = tables w" "tables w1 = tables w"
    using ledger_reads(2) [OF execute_Ok [OF 1(1)]] ledger_reads(4) [OF execute_Ok [OF 1(2)]] by auto
  have fetched: "fetch_failed c (clock w0) (tables w) = Inr (rows, tables w)"
    using execute_Ok [OF 1(2)] 2 by simp
  define I where "I = fer_id ` set rows"
  obtain k where k: "n = k" "k \<le> length rows" "retry_effect I k (tables w) (tables w')"
  proof -
    have "retry_effect I k (tables v) (tables v') \<and> k \<le> 1"
      if "row \<in> set rows" "retry_one S company c kind mapper sink row v = (Ok k, v')" for row v k v'
      using that by (intro retry_one_effect [OF assms(1-3)]) (auto simp: I_def)
    from retry_rows_effect [OF this 1(3)] 2(2) show thesis by (auto intro: that)
  qed
  have own: "ev_connector r = c" if in': "r \<in> set (events (tables w))" "ev_id r \<in> I" for r
  proof -
    obtain r' where "r' \<in> set (events (tables w))" "ev_id r' = ev_id r" "ev_connector r' = c"
      using fetch_failed_rows(1) [OF fetched] in'(2) by (force simp: I_def failed_row_def)
    then show ?thesis
      using assms(4) in'(1) by (metis events_ok_def distinct_map inj_onD)
  qed
  have "length rows = count_failed c (tables w)"
    using fetch_failed_rows(2) [OF fetched] by (simp add: count_failed_def)
  then show ?thesis using k own by (auto simp: retry_effect_def)
qed

definition failed_desk_row :: event where
  "failed_desk_row = waiting_row\<lparr>ev_status := Failed, ev_error := Some ''down''\<rparr>"

lemma failed_desk_retry:
  "\<exists>w'. retry_failed demo_writer 9 1 fake_target capturing_sink (desk_world None [failed_desk_row]) = (Ok 1, w')"
  using outbox_record_of_Ok [OF bit_uuids_laws]
  by (simp add: retry_failed_def retry_one_def retry_settle_def retry_record_def stage_def no_fault_calls Let_def
      fetch_for_retry_def fetch_failed_def retry_request_def retry_mark_mapped_def update_events_def
      append_outbox_def desk_defs event_checks_def non_blank_def char_length_def byte_def failed_desk_row_def
      waiting_row_def received_row_def new_row_of_def failed_row_def stamp_insert_def rows_affected_def
      default_audit_def created_key_def)

theorem retry_failed_counts_witness:
  "\<exists>w'. retry_failed demo_writer 9 1 fake_target capturing_sink (desk_world None [failed_desk_row]) = (Ok 1, w')
     \<and> count_mapped (tables w') = 1"
proof -
  obtain w' where run: "retry_failed demo_writer 9 1 fake_target capturing_sink (desk_world None [failed_desk_row]) = (Ok 1, w')"
    using failed_desk_retry by blast
  have "sink_apart capturing_sink" by (simp add: sink_apart_def capturing_sink_def)
  moreover have "events_ok (tables (desk_world None [failed_desk_row]))"
    by (simp add: events_ok_def waiting_row_def failed_desk_row_def received_row_def new_row_of_def desk_defs event_ok_def)
  moreover have "count_mapped (tables (desk_world None [failed_desk_row])) = 0"
    by (simp add: count_mapped_def desk_world_def failed_desk_row_def)
  ultimately show ?thesis
    using retry_failed_counts [OF demo_writer_laws fake_target_apart _ _ run] run by simp
qed

text \<open>
  Every operation of the write service is a step of the ledger: ids and business keys stay unique,
  every event has its connector, every settled event has its outbox record, no event disappears, a row
  moves only along its lifecycle, and a mapped or ignored row is never written again.
\<close>

lemma write_service_keeps_ledger:
  assumes "write_laws S" and "target_keeps (ledger_step (ws_uuids S)) mapper sink"
  shows "ledger_step (ws_uuids S) (tables w) (tables (snd (receive_event S i e mapper sink w)))
    \<and> ledger_step (ws_uuids S) (tables w) (tables (snd (retry_failed S company c mapper sink w)))
    \<and> ledger_step (ws_uuids S) (tables w) (tables (snd (register_connector S i nc w)))"
  using kept.receive_event_step [OF assms] kept.retry_failed_step [OF assms] kept.register_connector_step by blast

lemma write_service_keeps_ledger_demo:
  "ledger_step bit_uuids (tables (desk_world None [waiting_row]))
     (tables (snd (receive_event demo_writer 4 settled_payment fake_target capturing_sink (desk_world None [waiting_row]))))"
proof -
  have "ws_uuids demo_writer = bit_uuids" by (simp add: demo_writer_def)
  then show ?thesis
    using write_service_keeps_ledger [OF demo_writer_laws fake_ports_keep,
        of "desk_world None [waiting_row]" 4 settled_payment] by metis
qed

end
