(* ===== verification/Form_Body.thy ===== *)
theory Form_Body
  imports Oauth_Flow "HOL-Library.While_Combinator"
begin

text \<open>
  The body parser of \<open>presentation/http/oauth_handler.rs\<close>: \<open>decode_hex_pair\<close>, \<open>percent_decode\<close> and
  \<open>parse_form_complete\<close>, over the UTF-8 checks of the standard library; the loop ends with what a
  structurally recursive decoder returns, and the form the callback page posts is read back as it was
  sent.
\<close>

named_theorems form_ops \<open>definitions of the form parser\<close>

subsection \<open>UTF-8\<close>

text \<open>
  One step of the standard library's decoder: whether the bytes start with a well formed character, and
  how many bytes the character, or the maximal ill formed sequence, takes.
\<close>

definition continuation :: "string \<Rightarrow> nat \<Rightarrow> nat \<Rightarrow> nat \<Rightarrow> bool" where
  [form_ops]: "continuation s i lo hi \<longleftrightarrow> i < length s \<and> lo \<le> byte (s ! i) \<and> byte (s ! i) \<le> hi"

definition two_bytes :: "nat \<Rightarrow> nat \<Rightarrow> string \<Rightarrow> bool \<times> nat" where
  [form_ops]: "two_bytes lo hi s = (if continuation s 1 lo hi then (True, 2) else (False, 1))"

definition three_bytes :: "nat \<Rightarrow> nat \<Rightarrow> string \<Rightarrow> bool \<times> nat" where
  [form_ops]: "three_bytes lo hi s =
    (if \<not> continuation s 1 lo hi then (False, 1)
     else if continuation s 2 0x80 0xBF then (True, 3) else (False, 2))"

definition four_bytes :: "nat \<Rightarrow> nat \<Rightarrow> string \<Rightarrow> bool \<times> nat" where
  [form_ops]: "four_bytes lo hi s =
    (if \<not> continuation s 1 lo hi then (False, 1)
     else if \<not> continuation s 2 0x80 0xBF then (False, 2)
     else if continuation s 3 0x80 0xBF then (True, 4) else (False, 3))"

definition utf8_step :: "string \<Rightarrow> bool \<times> nat" where
  [form_ops]: "utf8_step s =
    (let b = byte (hd s)
     in if b < 0x80 then (True, 1)
        else if 0xC2 \<le> b \<and> b \<le> 0xDF then two_bytes 0x80 0xBF s
        else if b = 0xE0 then three_bytes 0xA0 0xBF s
        else if b = 0xED then three_bytes 0x80 0x9F s
        else if 0xE1 \<le> b \<and> b \<le> 0xEF then three_bytes 0x80 0xBF s
        else if b = 0xF0 then four_bytes 0x90 0xBF s
        else if 0xF1 \<le> b \<and> b \<le> 0xF3 then four_bytes 0x80 0xBF s
        else if b = 0xF4 then four_bytes 0x80 0x8F s
        else (False, 1))"

lemma snd_if_pos: "0 < snd x \<Longrightarrow> 0 < snd y \<Longrightarrow> 0 < snd (if b then x else y :: 'a \<times> nat)"
  by simp

lemma utf8_step_pos: "0 < snd (utf8_step s)"
  unfolding utf8_step_def Let_def
  by (intro snd_if_pos) (simp_all add: two_bytes_def three_bytes_def four_bytes_def)

lemma utf8_step_shorter: "s \<noteq> [] \<Longrightarrow> length s - snd (utf8_step s) < length s"
  using utf8_step_pos [of s] by (cases s) auto

function from_utf8_lossy :: "string \<Rightarrow> string" where
  "from_utf8_lossy s =
    (if s = [] then []
     else (if fst (utf8_step s) then take (snd (utf8_step s)) s else [CHR 0xEF, CHR 0xBF, CHR 0xBD])
       @ from_utf8_lossy (drop (snd (utf8_step s)) s))"
  by pat_completeness auto
termination
  by (relation "measure length") (simp_all add: utf8_step_shorter)

function utf8_valid :: "string \<Rightarrow> bool" where
  "utf8_valid s =
    (if s = [] then True else if fst (utf8_step s) then utf8_valid (drop (snd (utf8_step s)) s) else False)"
  by pat_completeness auto
termination
  by (relation "measure length") (simp_all add: utf8_step_shorter)

declare from_utf8_lossy.simps [simp del] utf8_valid.simps [simp del]

definition from_utf8 :: "string \<Rightarrow> string option" where
  [form_ops]: "from_utf8 s = (if utf8_valid s then Some s else None)"

lemma from_utf8_lossy_valid: "utf8_valid s \<Longrightarrow> from_utf8_lossy s = s"
proof (induction s rule: utf8_valid.induct)
  case (1 s)
  show ?case
  proof (cases "s = []")
    case False
    with 1 have "from_utf8_lossy (drop (snd (utf8_step s)) s) = drop (snd (utf8_step s)) s" "fst (utf8_step s)"
      by (simp_all add: utf8_valid.simps [of s] split: if_splits)
    with False show ?thesis by (simp add: from_utf8_lossy.simps [of s])
  qed (simp add: from_utf8_lossy.simps)
qed

lemma utf8_valid_ascii: "\<forall>c \<in> set s. byte c < 0x80 \<Longrightarrow> utf8_valid s"
proof (induction s)
  case (Cons c s)
  then have "utf8_step (c # s) = (True, 1)" by (simp add: utf8_step_def Let_def)
  with Cons show ?case by (simp add: utf8_valid.simps [of "c # s"])
qed (simp add: utf8_valid.simps)

subsection \<open>Percent decoding\<close>

definition ascii_upper :: "char \<Rightarrow> char" where
  [form_ops]: "ascii_upper c = (if 97 \<le> byte c \<and> byte c \<le> 122 then char_of (byte c - 32) else c)"

definition pair_digit :: "char \<Rightarrow> nat option" where
  [form_ops]: "pair_digit c =
    (let b = byte c in
     if 48 \<le> b \<and> b \<le> 57 then Some (b - 48) else if 65 \<le> b \<and> b \<le> 70 then Some (b - 65 + 10) else None)"

text \<open>The two digits are at most 15, so the \<open>u8\<close> arithmetic never wraps.\<close>

definition decode_hex_pair :: "string \<Rightarrow> char option" where
  [form_ops]: "decode_hex_pair pair =
    (case pair of
       h # l # _ \<Rightarrow>
         Option.bind (pair_digit (ascii_upper h)) (\<lambda>hi.
         Option.bind (pair_digit (ascii_upper l)) (\<lambda>lo. Some (char_of (hi * 16 + lo))))
     | _ \<Rightarrow> None)"

text \<open>\<open>bytes.get(a..b)\<close>.\<close>

definition get_range :: "nat \<Rightarrow> nat \<Rightarrow> string \<Rightarrow> string option" where
  [form_ops]: "get_range a b s = (if a \<le> b \<and> b \<le> length s then Some (take (b - a) (drop a s)) else None)"

definition percent_step :: "string \<Rightarrow> nat \<times> string \<Rightarrow> nat \<times> string" where
  [form_ops]: "percent_step bytes = (\<lambda>(i, out).
    if bytes ! i = CHR ''+'' then (i + 1, out @ '' '')
    else if bytes ! i = CHR ''%'' then
      (case Option.bind (get_range (i + 1) (i + 3) bytes) decode_hex_pair of
         Some b \<Rightarrow> (i + 3, out @ [b])
       | None \<Rightarrow> (i + 1, out @ ''%''))
    else (i + 1, out @ [bytes ! i]))"

definition percent_decode :: "string \<Rightarrow> string" where
  [form_ops]: "percent_decode input =
    from_utf8_lossy (snd (while (\<lambda>(i, _). i < length input) (percent_step input) (0, [])))"

text \<open>The decoder by recursion on what is left of the input.\<close>

fun percent_bytes :: "string \<Rightarrow> string" where
  "percent_bytes [] = []"
| "percent_bytes (c # s) =
    (if c = CHR ''+'' then CHR '' '' # percent_bytes s
     else if c = CHR ''%'' then
       (case s of
          h # l # rest \<Rightarrow>
            (case decode_hex_pair [h, l] of Some b \<Rightarrow> b # percent_bytes rest | None \<Rightarrow> c # percent_bytes s)
        | _ \<Rightarrow> c # percent_bytes s)
     else c # percent_bytes s)"

lemma percent_escape_at:
  "Option.bind (get_range (Suc i) (i + 3) bytes) decode_hex_pair =
    (case drop (Suc i) bytes of h # l # _ \<Rightarrow> decode_hex_pair [h, l] | _ \<Rightarrow> None)"
proof -
  obtain t where t: "drop (Suc i) bytes = t" by simp
  have "length t = length bytes - Suc i" by (simp add: t [symmetric])
  then have r: "get_range (Suc i) (i + 3) bytes = (if 2 \<le> length t then Some (take 2 t) else None)"
    by (auto simp: get_range_def t)
  show ?thesis unfolding r t by (cases t; cases "tl t") simp_all
qed

text \<open>One turn decodes the same prefix the recursion does.\<close>

lemma percent_step_bytes:
  assumes "i < length bytes" and "percent_step bytes (i, out) = (j, out')"
  shows "i < j \<and> j \<le> length bytes \<and> out' @ percent_bytes (drop j bytes) = out @ percent_bytes (drop i bytes)"
proof -
  obtain s where s: "drop (Suc i) bytes = s" by simp
  have d: "drop i bytes = bytes ! i # s" using assms(1) s Cons_nth_drop_Suc by metis
  have l: "length s = length bytes - Suc i" by (simp add: s [symmetric])
  have e: "Option.bind (get_range (Suc i) (i + 3) bytes) decode_hex_pair =
      (case s of h # l # _ \<Rightarrow> decode_hex_pair [h, l] | _ \<Rightarrow> None)"
    by (simp only: percent_escape_at s)
  show ?thesis
  proof (cases "\<exists>h t r b. s = h # t # r \<and> decode_hex_pair [h, t] = Some b")
    case True
    then obtain h t r b where x: "s = h # t # r" "decode_hex_pair [h, t] = Some b" by blast
    have "drop (i + 3) bytes = drop 2 (drop (Suc i) bytes)" by (simp add: eval_nat_numeral)
    then have r: "drop (i + 3) bytes = r" by (simp add: s x(1))
    show ?thesis
      using assms l x r d s by (auto simp: percent_step_def e split: if_splits)
  next
    case False
    then have n: "(case s of h # l # _ \<Rightarrow> decode_hex_pair [h, l] | _ \<Rightarrow> None) = None"
      by (cases s; cases "tl s") auto
    then have p: "bytes ! i = CHR ''%'' \<Longrightarrow> percent_bytes (drop i bytes) = CHR ''%'' # percent_bytes s"
      unfolding d by (cases s; cases "tl s") simp_all
    show ?thesis
    proof (cases "bytes ! i = CHR ''%''")
      case True
      then show ?thesis using assms p [OF True] s by (auto simp: percent_step_def e n)
    next
      case False
      then show ?thesis using assms d s by (auto simp: percent_step_def split: if_splits)
    qed
  qed
qed

lemma percent_loop:
  "i \<le> length bytes \<Longrightarrow>
    while_option (\<lambda>(i, _). i < length bytes) (percent_step bytes) (i, out)
      = Some (length bytes, out @ percent_bytes (drop i bytes))"
proof (induction "length bytes - i" arbitrary: i out rule: less_induct)
  case less
  show ?case
  proof (cases "i < length bytes")
    case True
    obtain j out' where x: "percent_step bytes (i, out) = (j, out')" by fastforce
    note j = percent_step_bytes [OF True x]
    have "while_option (\<lambda>(i, _). i < length bytes) (percent_step bytes) (j, out')
        = Some (length bytes, out' @ percent_bytes (drop j bytes))"
      by (rule less.hyps) (use j True in auto)
    with j True x show ?thesis by (simp add: while_option_unfold [of _ _ "(i, out)"])
  next
    case False
    with less.prems show ?thesis by (simp add: while_option_unfold)
  qed
qed

lemma percent_decode_bytes: "percent_decode input = from_utf8_lossy (percent_bytes input)"
  using percent_loop [of 0 input "[]"] by (simp add: percent_decode_def while_def)

text \<open>
  C39.  Percent decoding ends on every input, truncated and non-hexadecimal escapes included: the loop
  stops with its index at the end of the input, and what it has decoded by then is what a decoder by
  recursion on the rest of the input returns.
\<close>

theorem percent_decode_ends:
  "while_option (\<lambda>(i, _). i < length input) (percent_step input) (0, []) = Some (length input, percent_bytes input)
    \<and> percent_decode input = from_utf8_lossy (percent_bytes input)"
  using percent_loop [of 0 input "[]"] by (simp add: percent_decode_bytes)

subsection \<open>The form\<close>

fun form_fields :: "string list \<Rightarrow> string option \<times> string option \<Rightarrow> (string option \<times> string option) option" where
  "form_fields [] acc = Some acc"
| "form_fields (pair # rest) (code, state) =
    (case split_once CHR ''='' pair of
       None \<Rightarrow> None
     | Some (key, value) \<Rightarrow>
         let decoded = percent_decode value
         in form_fields rest
              (if key = ''code'' then (Some decoded, state)
               else if key = ''state'' then (code, Some decoded)
               else (code, state)))"

definition parse_form_complete :: "string \<Rightarrow> complete_request option" where
  [form_ops]: "parse_form_complete body =
    Option.bind (from_utf8 body) (\<lambda>text.
    Option.bind (form_fields (split_on CHR ''&'' text) (None, None)) (\<lambda>(code, state).
    Option.bind (case code of Some c \<Rightarrow> if c = [] then None else Some c | None \<Rightarrow> None) (\<lambda>code.
    Option.bind (case state of Some s \<Rightarrow> if s = [] then None else Some s | None \<Rightarrow> None) (\<lambda>state.
      Some \<lparr>cq_code = code, cq_state = state\<rparr>))))"

lemma parse_form_nonempty: "parse_form_complete body = Some req \<Longrightarrow> cq_code req \<noteq> [] \<and> cq_state req \<noteq> []"
  by (clarsimp simp: parse_form_complete_def split: Option.bind_splits option.splits if_splits)

text \<open>
  What a browser posts for a form with the two hidden fields: the \<open>application/x-www-form-urlencoded\<close>
  serializer, byte by byte.
\<close>

definition form_safe :: "char \<Rightarrow> bool" where
  "form_safe c \<longleftrightarrow> (let b = byte c in 48 \<le> b \<and> b \<le> 57 \<or> 65 \<le> b \<and> b \<le> 90 \<or> 97 \<le> b \<and> b \<le> 122)
     \<or> c \<in> {CHR ''*'', CHR ''-'', CHR ''.'', CHR ''_''}"

definition hex_upper :: "nat \<Rightarrow> char" where
  "hex_upper n = char_of (if n < 10 then 48 + n else 55 + n)"

definition form_char :: "char \<Rightarrow> string" where
  "form_char c = (if form_safe c then [c] else if c = CHR '' '' then ''+''
     else [CHR ''%'', hex_upper (byte c div 16), hex_upper (byte c mod 16)])"

definition form_encode :: "string \<Rightarrow> string" where
  "form_encode s = concat (map form_char s)"

definition posted_form :: "string \<Rightarrow> string \<Rightarrow> string" where
  "posted_form code state = ''code='' @ form_encode code @ ''&state='' @ form_encode state"

lemma byte_hex_upper: "n < 16 \<Longrightarrow> byte (hex_upper n) = (if n < 10 then 48 + n else 55 + n)"
  by (simp add: hex_upper_def)

lemma pair_digit_upper: "n < 16 \<Longrightarrow> pair_digit (ascii_upper (hex_upper n)) = Some n"
  by (simp add: ascii_upper_def pair_digit_def Let_def byte_hex_upper)

lemma decode_hex_upper: "decode_hex_pair [hex_upper (byte c div 16), hex_upper (byte c mod 16)] = Some c"
proof -
  have "byte c div 16 < 16" using byte_less [of c] by (simp add: less_mult_imp_div_less)
  then show ?thesis by (simp add: decode_hex_pair_def pair_digit_upper)
qed

lemma form_safe_plain: "form_safe c \<Longrightarrow> c \<noteq> CHR ''+'' \<and> c \<noteq> CHR ''%'' \<and> c \<noteq> CHR ''&'' \<and> c \<noteq> CHR ''='' \<and> byte c < 0x80"
  by (auto simp: form_safe_def Let_def byte_def)

lemma percent_form_char: "percent_bytes (form_char c @ s) = c # percent_bytes s"
  by (auto simp: form_char_def decode_hex_upper form_safe_plain)

lemma percent_form_encode: "percent_bytes (form_encode s) = s"
  by (induction s) (simp_all add: form_encode_def percent_form_char)

lemma decode_form_encode: "utf8_valid s \<Longrightarrow> percent_decode (form_encode s) = s"
  by (simp add: percent_decode_bytes percent_form_encode from_utf8_lossy_valid)

lemma hex_upper_plain: "n < 16 \<Longrightarrow> hex_upper n \<noteq> CHR ''&'' \<and> hex_upper n \<noteq> CHR ''='' \<and> byte (hex_upper n) < 0x80"
proof -
  assume "n < 16"
  then have b: "byte (hex_upper n) = (if n < 10 then 48 + n else 55 + n)" by (rule byte_hex_upper)
  moreover have "byte CHR ''&'' = 38" "byte CHR ''='' = 61" by (simp_all add: byte_def)
  ultimately show ?thesis using \<open>n < 16\<close> by (auto split: if_splits) 
qed

lemma form_char_plain: "x \<in> set (form_char c) \<Longrightarrow> x \<noteq> CHR ''&'' \<and> x \<noteq> CHR ''='' \<and> byte x < 0x80"
proof -
  have "byte c div 16 < 16" using byte_less [of c] by (simp add: less_mult_imp_div_less)
  moreover have "byte c mod 16 < 16" by simp
  moreover have "byte CHR ''+'' < 128" "byte CHR ''%'' < 128" by (simp_all add: byte_def)
  moreover assume "x \<in> set (form_char c)"
  ultimately show ?thesis
    using hex_upper_plain form_safe_plain [of c] by (auto simp: form_char_def split: if_splits)
qed

lemma form_encode_plain: "x \<in> set (form_encode s) \<Longrightarrow> x \<noteq> CHR ''&'' \<and> x \<noteq> CHR ''='' \<and> byte x < 0x80"
  unfolding form_encode_def using form_char_plain by auto

lemma parse_posted_form:
  assumes "utf8_valid code" and "utf8_valid state" and "code \<noteq> []" and "state \<noteq> []"
  shows "parse_form_complete (posted_form code state) = Some \<lparr>cq_code = code, cq_state = state\<rparr>"
proof -
  let ?c = "''code='' @ form_encode code" and ?s = "''state='' @ form_encode state"
  have body: "posted_form code state = ?c @ CHR ''&'' # ?s" by (simp add: posted_form_def)
  have "\<forall>x \<in> set (posted_form code state). byte x < 0x80"
    using form_encode_plain by (auto simp: posted_form_def byte_def)
  then have valid: "utf8_valid (posted_form code state)" by (rule utf8_valid_ascii)
  have amp: "CHR ''&'' \<notin> set ?c" "CHR ''&'' \<notin> set ?s" using form_encode_plain by fastforce+
  have eq: "split_once CHR ''='' ?c = Some (''code'', form_encode code)"
      "split_once CHR ''='' ?s = Some (''state'', form_encode state)" by simp_all
  have "split_on CHR ''&'' (posted_form code state) = [?c, ?s]"
    by (simp only: body split_on_append [OF amp(1)] split_on_no_sep [OF amp(2)])
  moreover have "form_fields [?c, ?s] (None, None) = Some (Some code, Some state)"
    by (simp only: form_fields.simps eq option.case prod.case Let_def decode_form_encode [OF assms(1)] decode_form_encode [OF assms(2)])
      (simp add: decode_form_encode [OF assms(2)])
  ultimately show ?thesis
    using valid assms(3,4) by (simp add: parse_form_complete_def from_utf8_def)
qed

text \<open>
  C38.  The two ends of the redirect agree.  Whatever code and state a callback carried, the form its page
  makes the browser post is read back as exactly that code and state: no escape, plus sign, ampersand or
  multi-byte character in them is lost or split.  The browser's own rewriting of line breaks to CR LF is not
  part of the serializer here.
\<close>

theorem posted_form_roundtrip:
  assumes "utf8_valid code" and "utf8_valid state" and "code \<noteq> []" and "state \<noteq> []"
  shows "parse_form_complete (posted_form code state) = Some \<lparr>cq_code = code, cq_state = state\<rparr>"
  using assms by (rule parse_posted_form)

theorem posted_form_roundtrip_witness:
  "parse_form_complete (posted_form ''4/0A x&='' ''a.b'') = Some \<lparr>cq_code = ''4/0A x&='', cq_state = ''a.b''\<rparr>"
proof -
  have "utf8_valid ''4/0A x&=''" "utf8_valid ''a.b''" by (rule utf8_valid_ascii, simp add: byte_def)+
  from posted_form_roundtrip [OF this] show ?thesis by simp
qed

end
