(* ===== verification/Oauth_Handler.thy ===== *)
theory Oauth_Handler
  imports Form_Body
begin

text \<open>
  The verb-shaped HTTP surface, \<open>presentation/http/oauth_handler.rs\<close>: the principal layer, the five
  handlers, the mapping of errors to statuses, and the routes.  A request is modelled from the point
  where the web framework has matched a route and run its extractors (path, query and, for authorize,
  JSON body); the rejections the framework answers by itself are outside.
\<close>

named_theorems http_ops \<open>definitions of the HTTP handlers\<close>

record oauth_principal =
  pr_company_id :: uuid
  pr_user_id :: "uuid option"
  pr_permissions :: "string list"

definition has_permission :: "oauth_principal \<Rightarrow> string \<Rightarrow> bool" where
  [http_ops]: "has_permission p permission = list_ex (\<lambda>q. q = permission) (pr_permissions p)"

subsection \<open>Replies\<close>

datatype reply_data =
    Authorized authorize_response
  | Completed complete_outcome
  | Account_status account_projection

datatype reply_body =
    Json_error string msg
  | Json_data reply_data
  | Html_page string
  | Html_error string msg
  | No_body

record reply =
  re_status :: nat
  re_body :: reply_body

definition error_response :: "nat \<Rightarrow> string \<Rightarrow> msg \<Rightarrow> reply" where
  [http_ops]: "error_response st code message = \<lparr>re_status = st, re_body = Json_error code message\<rparr>"

text \<open>The \<open>Display\<close> of an error; the database package's own message is left open.\<close>

fun show_oauth_error :: "oauth_error \<Rightarrow> msg" where
  "show_oauth_error (Invalid (t, xs)) = (''invalid input: '' @ t, xs)"
| "show_oauth_error (State (t, xs)) = (''state rejected: '' @ t, xs)"
| "show_oauth_error (ProviderUnconfigured (t, xs)) = (''provider not configured: '' @ t, xs)"
| "show_oauth_error NotFound = (''account not found'', [])"
| "show_oauth_error (Identity (t, xs)) = (''identity verification failed: '' @ t, xs)"
| "show_oauth_error (Unstoreable (t, xs)) = (''unstoreable token: '' @ t, xs)"
| "show_oauth_error (Transport (t, xs)) = (''provider transport: '' @ t, xs)"
| "show_oauth_error (Store (t, xs)) = (''credential store: '' @ t, xs)"
| "show_oauth_error (Db _) = (''db: {0}'', [])"

fun oauth_error_status :: "oauth_error \<Rightarrow> nat \<times> string" where
  "oauth_error_status (Invalid _) = (400, ''OAUTH_INVALID_INPUT'')"
| "oauth_error_status (State _) = (400, ''OAUTH_STATE_REJECTED'')"
| "oauth_error_status (Identity _) = (400, ''OAUTH_IDENTITY_REJECTED'')"
| "oauth_error_status (Unstoreable _) = (502, ''OAUTH_UNSTOREABLE_TOKEN'')"
| "oauth_error_status NotFound = (404, ''OAUTH_ACCOUNT_NOT_FOUND'')"
| "oauth_error_status (ProviderUnconfigured _) = (503, ''OAUTH_PROVIDER_UNCONFIGURED'')"
| "oauth_error_status (Transport _) = (502, ''OAUTH_PROVIDER_TRANSPORT'')"
| "oauth_error_status (Store _) = (503, ''OAUTH_CREDENTIAL_STORE'')"
| "oauth_error_status (Db _) = (500, ''OAUTH_DATABASE'')"

definition into_response :: "oauth_error \<Rightarrow> reply" where
  [http_ops]: "into_response e =
    (case oauth_error_status e of (st, code) \<Rightarrow> error_response st code (show_oauth_error e))"

definition forbidden :: "string \<Rightarrow> reply" where
  [http_ops]: "forbidden permission =
    error_response 403 ''OAUTH_FORBIDDEN'' (''this route requires the {permission:?} permission'', [permission])"

text \<open>
  The terminal page: the three replacements work byte by byte, so they act on the template of the detail
  and on its arguments alike.
\<close>

definition escape_text :: "string \<Rightarrow> string" where
  [http_ops]: "escape_text s =
    replace_char CHR ''>'' ''&gt;'' (replace_char CHR ''<'' ''&lt;'' (replace_char CHR ''&'' ''&amp;'' s))"

definition error_page :: "nat \<Rightarrow> string \<Rightarrow> msg \<Rightarrow> reply" where
  [http_ops]: "error_page st title detail =
    \<lparr>re_status = st, re_body = Html_error title (escape_text (fst detail), map escape_text (snd detail))\<rparr>"

definition json_ok :: "reply_data \<Rightarrow> reply" where
  [http_ops]: "json_ok d = \<lparr>re_status = 200, re_body = Json_data d\<rparr>"

text \<open>The match on a service call's result; a panic unwinds the handler and nothing is answered.\<close>

fun answer :: "(oauth_error, 'a) res \<times> 'w \<Rightarrow> ('a \<Rightarrow> reply) \<Rightarrow> reply option \<times> 'w" where
  "answer (Ok x, w) f = (Some (f x), w)"
| "answer (Err e, w) f = (Some (into_response e), w)"
| "answer (Panic, w) f = (None, w)"

subsection \<open>The handlers\<close>

text \<open>The random bytes and the account id an authorization draws.\<close>

record draws =
  dr_verifier :: string
  dr_account_id :: uuid
  dr_nonce :: string

definition handle_authorize ::
  "env \<Rightarrow> 'x service \<Rightarrow> draws \<Rightarrow> oauth_principal \<Rightarrow> authorize_request \<Rightarrow> 'x world \<Rightarrow> reply option \<times> 'x world" where
  [http_ops]: "handle_authorize E s d p req w =
    (if \<not> has_permission p ''write:integrations'' then (Some (forbidden ''write:integrations''), w)
     else answer (authorize E s (dr_verifier d) (dr_account_id d) (dr_nonce d) req w)
            (\<lambda>out. json_ok (Authorized out)))"

record callback_query =
  cb_code :: "string option"
  cb_state :: "string option"
  cb_error :: "string option"

definition handle_callback :: "env \<Rightarrow> 'x service \<Rightarrow> callback_query \<Rightarrow> 'x world \<Rightarrow> reply option \<times> 'x world" where
  [http_ops]: "handle_callback E s q w =
    (case (case cb_error q of None \<Rightarrow> None | Some e \<Rightarrow> if trim e = [] then None else Some e) of
       Some err \<Rightarrow> (Some (error_page 400 ''the provider refused the authorization'' (''{err}'', [err])), w)
     | None \<Rightarrow>
         (case (cb_code q, cb_state q) of
            (Some code, Some state) \<Rightarrow>
              (case callback_page (e_chrono E) (e_codec E) (e_state E) (sv_key s) (clock w) code state of
                 Ok page \<Rightarrow> (Some \<lparr>re_status = 200, re_body = Html_page page\<rparr>, w)
               | Err e \<Rightarrow> (Some (error_page 400 ''the connection could not continue'' (show_oauth_error e)), w)
               | Panic \<Rightarrow> (None, w))
          | _ \<Rightarrow> (Some (error_page 400 ''incomplete callback''
                     (''the callback is missing its code or signed state'', [])), w)))"

text \<open>
  \<open>from_slice\<close> of the JSON package is the parameter \<open>json\<close>, with the package's message on a refusal; the
  content type is the header's value when it is visible ASCII.
\<close>

definition complete_body ::
  "(string \<Rightarrow> string + complete_request) \<Rightarrow> string option \<Rightarrow> string \<Rightarrow> (reply, complete_request) res" where
  [http_ops]: "complete_body json content_type body =
    (if starts_with (to_ascii_lowercase (case content_type of None \<Rightarrow> [] | Some v \<Rightarrow> v)) ''application/json'' then
       (case json body of
          Inr r \<Rightarrow> Ok r
        | Inl e \<Rightarrow> Err (error_response 400 ''OAUTH_INVALID_INPUT'' (''malformed JSON body: {e}'', [e])))
     else
       (case parse_form_complete body of
          Some r \<Rightarrow> Ok r
        | None \<Rightarrow> Err (error_response 400 ''OAUTH_INVALID_INPUT''
            (''body must be the callback form (code + state) or JSON with those fields'', []))))"

definition handle_complete ::
  "env \<Rightarrow> 'x service \<Rightarrow> (string \<Rightarrow> string + complete_request) \<Rightarrow> oauth_principal \<Rightarrow> string option \<Rightarrow> string \<Rightarrow> 'x world
    \<Rightarrow> reply option \<times> 'x world" where
  [http_ops]: "handle_complete E s json p content_type body w =
    (if \<not> has_permission p ''write:integrations'' then (Some (forbidden ''write:integrations''), w)
     else case complete_body json content_type body of
       Ok req \<Rightarrow> answer (complete E s (pr_company_id p) req w) (\<lambda>out. json_ok (Completed out))
     | Err r \<Rightarrow> (Some r, w)
     | Panic \<Rightarrow> (None, w))"

definition handle_disconnect :: "'x service \<Rightarrow> oauth_principal \<Rightarrow> uuid \<Rightarrow> 'x world \<Rightarrow> reply option \<times> 'x world" where
  [http_ops]: "handle_disconnect s p i w =
    (if \<not> has_permission p ''delete:integrations'' then (Some (forbidden ''delete:integrations''), w)
     else answer (disconnect s (pr_company_id p) i w) (\<lambda>_. \<lparr>re_status = 204, re_body = No_body\<rparr>))"

definition handle_status :: "uuid \<Rightarrow> 'x world \<Rightarrow> reply option \<times> 'x world" where
  [http_ops]: "handle_status i w = answer (status i w) (\<lambda>out. json_ok (Account_status out))"

subsection \<open>The routes\<close>

datatype oauth_route =
    Post_authorize authorize_request
  | Get_callback callback_query
  | Post_complete "string option" string
  | Post_disconnect uuid
  | Get_status uuid

definition require_principal ::
  "oauth_principal option \<Rightarrow> (oauth_principal \<Rightarrow> 'w \<Rightarrow> reply option \<times> 'w) \<Rightarrow> 'w \<Rightarrow> reply option \<times> 'w" where
  [http_ops]: "require_principal p next w =
    (case p of
       None \<Rightarrow> (Some (error_response 401 ''OAUTH_UNAUTHENTICATED''
                 (''authentication required: no validated principal on the request'', [])), w)
     | Some p \<Rightarrow> next p w)"

fun oauth_routes ::
  "env \<Rightarrow> 'x service \<Rightarrow> (string \<Rightarrow> string + complete_request) \<Rightarrow> draws \<Rightarrow> oauth_route \<Rightarrow> oauth_principal option \<Rightarrow> 'x world
    \<Rightarrow> reply option \<times> 'x world" where
  "oauth_routes E s json d (Get_callback q) p w = handle_callback E s q w"
| "oauth_routes E s json d (Post_authorize req) p w =
     require_principal p (\<lambda>p w. handle_authorize E s d p req w) w"
| "oauth_routes E s json d (Post_complete ct body) p w =
     require_principal p (\<lambda>p w. handle_complete E s json p ct body w) w"
| "oauth_routes E s json d (Post_disconnect i) p w =
     require_principal p (\<lambda>p w. handle_disconnect s p i w) w"
| "oauth_routes E s json d (Get_status i) p w = require_principal p (\<lambda>_ w. handle_status i w) w"

subsection \<open>Who can change anything\<close>

lemma answer_world [simp]: "snd (answer r f) = snd r"
  by (cases "(r, f)" rule: answer.cases) simp_all

lemma callback_world [simp]: "snd (handle_callback E s q w) = w"
  by (auto simp: handle_callback_def split: option.split res.split)

lemma status_reads: "tables (snd (status i w)) = tables w \<and> ext (snd (status i w)) = ext w"
proof -
  have "reads w (snd (status i w))" unfolding status_def by (auto intro!: reading)
  then show ?thesis by (simp add: reads_def)
qed

lemma unpermitted_untouched:
  "\<not> has_permission p ''write:integrations'' \<Longrightarrow> snd (handle_authorize E s d p req w) = w"
  "\<not> has_permission p ''write:integrations'' \<Longrightarrow> snd (handle_complete E s json p ct body w) = w"
  "\<not> has_permission p ''delete:integrations'' \<Longrightarrow> snd (handle_disconnect s p i w) = w"
  by (simp_all add: handle_authorize_def handle_complete_def handle_disconnect_def)

text \<open>The permission a route asks of its principal before it does anything, none for a read.\<close>

fun route_permission :: "oauth_route \<Rightarrow> string option" where
  "route_permission (Post_authorize _) = Some ''write:integrations''"
| "route_permission (Post_complete _ _) = Some ''write:integrations''"
| "route_permission (Post_disconnect _) = Some ''delete:integrations''"
| "route_permission (Get_callback _) = None"
| "route_permission (Get_status _) = None"

text \<open>
  C15.  Authorization fails closed.  If serving a request changed any row, or anything behind the credential
  store and the transport, then the request carried a validated principal holding the permission of its
  route: write for authorize and complete, delete for disconnect.  The public callback and the status
  read change nothing, whatever they are sent.
\<close>

theorem changes_need_permission:
  assumes "oauth_routes E s json d route who w = (r, w')" and "tables w' \<noteq> tables w \<or> ext w' \<noteq> ext w"
  shows "\<exists>p permission. who = Some p \<and> route_permission route = Some permission \<and> has_permission p permission"
proof -
  have changed: "\<not> (tables (snd (oauth_routes E s json d route who w)) = tables w \<and> ext (snd (oauth_routes E s json d route who w)) = ext w)"
    using assms by simp
  show ?thesis
  proof (cases who)
    case None
    with changed show ?thesis by (cases route) (simp_all add: require_principal_def)
  next
    case (Some p)
    show ?thesis
    proof (rule ccontr)
      assume "\<nexists>q permission. who = Some q \<and> route_permission route = Some permission \<and> has_permission q permission"
      with Some have "\<And>permission. route_permission route = Some permission \<Longrightarrow> \<not> has_permission p permission" by blast
      with changed Some show False
        by (cases route) (simp_all add: require_principal_def handle_status_def status_reads unpermitted_untouched)
    qed
  qed
qed

subsection \<open>From the callback to the completion\<close>

abbreviation form_type :: string where
  "form_type \<equiv> ''application/x-www-form-urlencoded''"

lemma complete_body_form:
  assumes "utf8_valid code" and "utf8_valid state" and "code \<noteq> []" and "state \<noteq> []"
  shows "complete_body json (Some form_type) (posted_form code state) = Ok \<lparr>cq_code = code, cq_state = state\<rparr>"
proof -
  have "\<not> starts_with (to_ascii_lowercase form_type) ''application/json''"
    by (simp add: starts_with_def to_ascii_lowercase_def ascii_lower_def byte_def)
  then show ?thesis by (simp add: complete_body_def parse_posted_form [OF assms])
qed

text \<open>
  C16.  The redirect and the completion fit together.  When the callback answers with its page, that page is
  the auto-submitting form over exactly the code and the state of the query, and the request a browser
  makes of that form, sent by a principal that may write, reaches \<open>complete\<close> with that code and that
  state under the principal's own company.  The browser is the standard urlencoded serializer; line breaks in
  a value, which real browsers turn into CR LF, are taken as they are.
\<close>

theorem callback_form_completes:
  assumes "oauth_routes E s json d (Get_callback q) anyone w = (Some \<lparr>re_status = st, re_body = Html_page page\<rparr>, w')"
    and "cb_code q = Some code" and "cb_state q = Some state" and "utf8_valid code" and "utf8_valid state"
    and "has_permission p ''write:integrations''"
  shows "page = auto_post_page COMPLETE_ACTION [(''code'', code), (''state'', state)] \<and>
    oauth_routes E s json d' (Post_complete (Some form_type) (posted_form code state)) (Some p) w1
      = answer (complete E s (pr_company_id p) \<lparr>cq_code = code, cq_state = state\<rparr> w1) (\<lambda>out. json_ok (Completed out))"
proof -
  have page: "callback_page (e_chrono E) (e_codec E) (e_state E) (sv_key s) (clock w) code state = Ok page"
    using assms(1-3) by (auto simp: handle_callback_def error_page_def split: option.splits res.splits)
  then have "trim code \<noteq> []" and p: "page = auto_post_page COMPLETE_ACTION [(''code'', code), (''state'', state)]"
    and v: "\<exists>x. signer_verify (e_chrono E) (e_codec E) (e_state E) (sv_key s) (clock w) state = Ok x"
    by (auto simp: callback_page_def and_then_eq_Ok split: if_splits)
  then have "code \<noteq> []" by auto
  moreover have "state \<noteq> []" using v by (auto simp: signer_verify_Ok)
  ultimately show ?thesis
    using p by (simp add: require_principal_def handle_complete_def assms(6) complete_body_form [OF assms(4,5)])
qed

subsection \<open>A concrete request\<close>

definition demo_writer_principal :: oauth_principal where
  "demo_writer_principal = \<lparr>pr_company_id = 1, pr_user_id = None, pr_permissions = [''write:integrations'']\<rparr>"

definition no_json :: "string \<Rightarrow> string + complete_request" where
  "no_json _ = Inl ''not JSON''"

definition demo_draws :: draws where
  "demo_draws = \<lparr>dr_verifier = ''v'', dr_account_id = 9, dr_nonce = ''n''\<rparr>"

definition demo_query :: callback_query where
  "demo_query = \<lparr>cb_code = Some ''c'', cb_state = Some demo_state_token, cb_error = None\<rparr>"

lemma hex_encode_ascii: "c \<in> set (hex_encode s) \<Longrightarrow> byte c < 0x80"
proof -
  assume "c \<in> set (hex_encode s)"
  then obtain n where "c = hex_digit n" "n < 16"
    using byte_less by (auto simp: hex_encode_def less_mult_imp_div_less)
  then show ?thesis by (simp add: hex_digit_def)
qed

lemma demo_token_ascii: "utf8_valid demo_state_token"
  unfolding demo_state_token_def by (rule utf8_valid_ascii) (auto dest: hex_encode_ascii simp: byte_def)

theorem callback_form_completes_witness:
  "\<exists>page out w'. oauth_routes demo_env (demo_service (Ok demo_token) demo_identity) no_json demo_draws
      (Get_callback demo_query) None (demo_world [demo_account Pending None] [])
        = (Some \<lparr>re_status = 200, re_body = Html_page page\<rparr>, demo_world [demo_account Pending None] []) \<and>
    oauth_routes demo_env (demo_service (Ok demo_token) demo_identity) no_json demo_draws
      (Post_complete (Some form_type) (posted_form ''c'' demo_state_token)) (Some demo_writer_principal)
        (demo_world [demo_account Pending None] []) = (Some (json_ok (Completed out)), w')"
proof -
  let ?s = "demo_service (Ok demo_token) demo_identity"
  let ?w = "demo_world [demo_account Pending None] []"
  let ?p = "auto_post_page COMPLETE_ACTION [(''code'', ''c''), (''state'', demo_state_token)]"
  have v: "callback_page (e_chrono demo_env) (e_codec demo_env) (e_state demo_env) (sv_key ?s) (clock ?w) ''c'' demo_state_token
      = Ok ?p"
    using demo_state_verifies by (simp add: callback_page_def trim_code demo_env_def demo_service_def demo_world_def)
  have cb: "oauth_routes demo_env ?s no_json demo_draws (Get_callback demo_query) None ?w
      = (Some \<lparr>re_status = 200, re_body = Html_page ?p\<rparr>, ?w)"
    using v by (simp add: handle_callback_def demo_query_def)
  have q: "cb_code demo_query = Some ''c''" "cb_state demo_query = Some demo_state_token"
    by (simp_all add: demo_query_def)
  have c: "utf8_valid ''c''" by (rule utf8_valid_ascii) (simp add: byte_def)
  have p: "has_permission demo_writer_principal ''write:integrations''" "pr_company_id demo_writer_principal = 1"
    by (simp_all add: has_permission_def demo_writer_principal_def)
  obtain out w' where "complete demo_env ?s 1 demo_request ?w = (Ok out, w')" using demo_complete by blast
  then have ans: "answer (complete demo_env ?s 1 \<lparr>cq_code = ''c'', cq_state = demo_state_token\<rparr> ?w)
      (\<lambda>out. json_ok (Completed out)) = (Some (json_ok (Completed out)), w')"
    by (simp add: demo_request_def)
  from callback_form_completes [OF cb q c demo_token_ascii p(1), of demo_draws ?w] cb ans
  show ?thesis unfolding p(2) by metis
qed

text \<open>A principal that may delete disconnects the account.\<close>

lemma demo_disconnect:
  "\<exists>w'. disconnect (demo_service r ident) 1 7 (demo_world [demo_account Pending None] []) = (Ok (), w')
     \<and> map ac_status (accounts (tables w')) = [Revoked] \<and> map ac_id (accounts (tables w')) = [7]"
  by (simp add: disconnect_def fetch_account_def no_fault_calls select_account_def account_by_id_def demo_world_def
      demo_account_def row_of_def demo_service_def lifted_store_def lift_call_def fake_verbs demo_store_def
      failure_not_found_def revoke_account_def update_accounts_def update_where_def)

theorem changes_need_permission_witness:
  "\<exists>who r w'. oauth_routes demo_env (demo_service (Ok demo_token) demo_identity) no_json demo_draws (Post_disconnect 7) (Some who)
      (demo_world [demo_account Pending None] []) = (r, w') \<and> map ac_status (accounts (tables w')) = [Revoked] \<and>
    has_permission who ''delete:integrations''"
proof -
  let ?s = "demo_service (Ok demo_token) demo_identity" and ?w = "demo_world [demo_account Pending None] []"
  define who where "who = demo_writer_principal\<lparr>pr_permissions := [''delete:integrations'']\<rparr>"
  obtain w' where w': "disconnect ?s 1 7 ?w = (Ok (), w')" "map ac_status (accounts (tables w')) = [Revoked]"
      "map ac_id (accounts (tables w')) = [7]"
    by (rule exE [OF demo_disconnect [of "Ok demo_token" demo_identity]]) (elim conjE)
  have run: "oauth_routes demo_env ?s no_json demo_draws (Post_disconnect 7) (Some who) ?w
      = (Some \<lparr>re_status = 204, re_body = No_body\<rparr>, w')"
    using w'(1) by (simp add: require_principal_def handle_disconnect_def has_permission_def who_def demo_writer_principal_def)
  have "tables w' \<noteq> tables ?w" using w'(2) by (auto simp: demo_world_def demo_account_def)
  then have "tables w' \<noteq> tables ?w \<or> ext w' \<noteq> ext ?w" ..
  from changes_need_permission [OF run this] run w'(2) show ?thesis by (intro exI conjI) auto
qed

end
