(* ===== verification/Module_Build.thy ===== *)
theory Module_Build
  imports Oauth_Handler Write_Service
begin

text \<open>
  The module's builder, \<open>lib.rs\<close> and \<open>lib.ext.rs\<close>: the services the module is composed of and the
  opt-in to the OAuth generation.  The generated CRUD services the builder also constructs come from
  the package and are left out; the guard their writes pass is in \<open>Row_Rules\<close>.
\<close>

named_theorems module_ops \<open>definitions of the module's builder\<close>

record 'x module_builder =
  mb_db_pool :: bool
  mb_oauth_config :: "oauth_config option"
  mb_oauth_transport :: "'x world transport_port option"
  mb_oauth_store :: "'x world store_port option"

definition module_builder_new :: "'x module_builder" where
  [module_ops]: "module_builder_new =
    \<lparr>mb_db_pool = False, mb_oauth_config = None, mb_oauth_transport = None, mb_oauth_store = None\<rparr>"

definition with_database :: "'x module_builder \<Rightarrow> 'x module_builder" where
  [module_ops]: "with_database b = b\<lparr>mb_db_pool := True\<rparr>"

definition with_oauth :: "oauth_config \<Rightarrow> 'x module_builder \<Rightarrow> 'x module_builder" where
  [module_ops]: "with_oauth cfg b = b\<lparr>mb_oauth_config := Some cfg\<rparr>"

definition with_oauth_transport :: "'x world transport_port \<Rightarrow> 'x module_builder \<Rightarrow> 'x module_builder" where
  [module_ops]: "with_oauth_transport t b = b\<lparr>mb_oauth_transport := Some t\<rparr>"

definition with_oauth_store :: "'x world store_port \<Rightarrow> 'x module_builder \<Rightarrow> 'x module_builder" where
  [module_ops]: "with_oauth_store st b = b\<lparr>mb_oauth_store := Some st\<rparr>"

record 'x integrations_module =
  md_writer :: write_service
  md_oauth :: "'x service option"

text \<open>
  The extension's build; \<open>default_transport\<close> is the construction of the HTTP client package's transport,
  which may fail.
\<close>

definition module_ext_build ::
  "env \<Rightarrow> (string \<Rightarrow> string option) \<Rightarrow> write_service \<Rightarrow> (msg, 'x world transport_port) res \<Rightarrow> 'x module_builder
    \<Rightarrow> (msg, 'x integrations_module) res" where
  [module_ops]: "module_ext_build E env_var writer default_transport b =
    (case (mb_oauth_config b, mb_oauth_store b) of
       (Some cfg, Some st) \<Rightarrow>
         and_then (case mb_oauth_transport b of
                     Some t \<Rightarrow> Ok t
                   | None \<Rightarrow> map_err (\<lambda>(t, xs). (''building the default OAuth transport: '' @ t, xs)) default_transport)
           (\<lambda>transport.
         and_then (build E env_var cfg transport st) (\<lambda>s. Ok \<lparr>md_writer = writer, md_oauth = Some s\<rparr>))
     | (Some _, None) \<Rightarrow>
         Err (''with_oauth needs the credential store bound through the port: with_oauth_store(..)'', [])
     | (None, _) \<Rightarrow> Ok \<lparr>md_writer = writer, md_oauth = None\<rparr>)"

definition module_build ::
  "env \<Rightarrow> (string \<Rightarrow> string option) \<Rightarrow> write_service \<Rightarrow> (msg, 'x world transport_port) res \<Rightarrow> 'x module_builder
    \<Rightarrow> (msg, 'x integrations_module) res" where
  [module_ops]: "module_build E env_var writer default_transport b =
    (if \<not> mb_db_pool b then Err (''Database pool not configured'', [])
     else module_ext_build E env_var writer default_transport b)"

text \<open>The OAuth surface: no route at all without the opt-in.\<close>

definition module_oauth_routes ::
  "env \<Rightarrow> 'x integrations_module \<Rightarrow>
    ((string \<Rightarrow> string + complete_request) \<Rightarrow> draws \<Rightarrow> oauth_route \<Rightarrow> oauth_principal option \<Rightarrow> 'x world
      \<Rightarrow> reply option \<times> 'x world) option" where
  [module_ops]: "module_oauth_routes E M = map_option (oauth_routes E) (md_oauth M)"

subsection \<open>What a built module can rely on\<close>

lemma resolve_all_Ok:
  "resolve_all U r ov ps m = Ok m' \<Longrightarrow>
    (\<forall>p. if p \<in> set ps then \<exists>eps. m' p = Some eps \<and> resolve_endpoints U r p ov = Ok eps else m' p = m p)"
proof (induction U r ov ps m rule: resolve_all.induct)
  case (2 U r ov p ps m)
  from 2(2) obtain eps where e: "resolve_endpoints U r p ov = Ok eps" and rest: "resolve_all U r ov ps (m(p \<mapsto> eps)) = Ok m'"
    by (cases "resolve_endpoints U r p ov") auto
  with 2(1) [OF rest] show ?case by (auto split: if_splits)
qed auto

text \<open>A service whose every endpoint passes the guard again, under the key of the provider it is filed at.\<close>

definition service_guarded :: "env \<Rightarrow> 'x service \<Rightarrow> bool" where
  "service_guarded E s \<longleftrightarrow> 32 \<le> length (sv_key s) \<and> sv_public_base s \<noteq> [] \<and> 1 \<le> sv_refresh_batch_size s \<and>
     (\<forall>p. sv_endpoints s p \<noteq> None \<longleftrightarrow> registry_lookup (sv_registry s) p \<noteq> None) \<and>
     (\<forall>p eps e. sv_endpoints s p = Some eps \<longrightarrow> e \<in> {ep_authorize eps, ep_token eps, ep_userinfo eps} \<longrightarrow>
        provider_key e = p \<and> revalidate (e_url E) (sv_registry s) e = Ok ())"

lemma providers_registered:
  "p \<in> set (registry_providers registry_with_builtin) \<longleftrightarrow> registry_lookup registry_with_builtin p \<noteq> None"
  using registry_builtin_ok bt.keys_set [of registry_with_builtin]
  by (auto simp: registry_ok_def registry_providers_def registry_lookup_def)

lemma build_guarded:
  assumes "url_laws (e_url E)" and "build E env_var cfg transport st = Ok s"
  shows "service_guarded E s \<and> sv_store s = st \<and> sv_transport s = transport"
proof -
  from assms(2) obtain secret base eps window where
      sec: "state_secret env_var cfg = Ok secret" and base: "public_base cfg = Ok base"
    and all: "resolve_all (e_url E) registry_with_builtin (cfg_endpoints cfg) (registry_providers registry_with_builtin) Map.empty = Ok eps"
    and s: "s = \<lparr>sv_registry = registry_with_builtin, sv_endpoints = eps, sv_clients = cfg_clients cfg, sv_key = secret,
        sv_public_base = base, sv_refresh_window = window,
        sv_refresh_batch_size = max (cfg_refresh_batch_size cfg) 1,
        sv_shared_mailbox_bypass = cfg_shared_mailbox_bypass cfg, sv_transport = transport, sv_store = st\<rparr>"
    by (auto simp: build_def and_then_eq_Ok Let_def)
  have key: "32 \<le> length secret" using sec by (auto simp: state_secret_def and_then_eq_Ok Let_def split: if_splits)
  have path: "base \<noteq> []" using base by (auto simp: public_base_def Let_def split: option.splits if_splits)
  have known: "eps p \<noteq> None \<longleftrightarrow> registry_lookup registry_with_builtin p \<noteq> None" for p
    using resolve_all_Ok [OF all, THEN spec, of p] providers_registered by (auto split: if_splits)
  have passes: "provider_key e = p \<and> revalidate (e_url E) registry_with_builtin e = Ok ()"
    if "eps p = Some x" "e \<in> {ep_authorize x, ep_token x, ep_userinfo x}" for p x e
  proof -
    have "resolve_endpoints (e_url E) registry_with_builtin p (cfg_endpoints cfg) = Ok x"
      using resolve_all_Ok [OF all, THEN spec, of p] that(1) by (auto split: if_splits)
    from resolved_revalidate [OF assms(1) registry_builtin_ok this that(2)] show ?thesis by (elim conjE, intro conjI)
  qed
  have sel: "sv_key s = secret" "sv_public_base s = base" "sv_endpoints s = eps" "sv_registry s = registry_with_builtin"
      "1 \<le> sv_refresh_batch_size s" "sv_store s = st" "sv_transport s = transport"
    by (simp_all add: s)
  have "service_guarded E s"
    unfolding service_guarded_def sel(1-4) using key path known passes sel(5) by blast
  then show ?thesis using sel(6,7) by blast
qed

text \<open>
  C17.  A module is built closed or not at all.  Whenever the build succeeds, the module serves no OAuth
  route unless a configuration and a credential store were both given; then the service holds the given
  store, a signing key of at least 32 bytes, a redirect base and a batch of at least one, and every
  endpoint of every provider, overridden or not, passes the guard again under its own provider.
\<close>

theorem module_build_guarded:
  assumes "url_laws (e_url E)" and "module_build E env_var writer default_transport b = Ok M"
  shows "case mb_oauth_config b of
      None \<Rightarrow> module_oauth_routes E M = None
    | Some cfg \<Rightarrow> \<exists>st s. mb_oauth_store b = Some st \<and> md_oauth M = Some s \<and> sv_store s = st \<and> service_guarded E s"
proof (cases "mb_oauth_config b")
  case (Some cfg)
  with assms(2) obtain st t s where "mb_oauth_store b = Some st" "build E env_var cfg t st = Ok s" "md_oauth M = Some s"
    by (auto simp: module_build_def module_ext_build_def and_then_eq_Ok split: if_splits option.splits)
  with build_guarded [OF assms(1) this(2)] Some show ?thesis by simp
qed (use assms(2) in \<open>auto simp: module_ops split: if_splits\<close>)

subsection \<open>A concrete build\<close>

lemma resolve_all_total:
  "\<forall>p \<in> set ps. \<exists>eps. resolve_endpoints U r p ov = Ok eps \<Longrightarrow> \<exists>m'. resolve_all U r ov ps m = Ok m'"
  by (induction ps arbitrary: m) fastforce+

definition demo_config :: oauth_config where
  "demo_config = default_oauth_config\<lparr>cfg_public_base := Some ''https://api/''\<rparr>"

definition demo_vars :: "string \<Rightarrow> string option" where
  "demo_vars name = (if name = DEFAULT_STATE_SECRET_ENV then Some (replicate 32 CHR ''k'') else None)"

definition demo_module_writer :: write_service where
  "demo_module_writer = \<lparr>ws_scoped = False, ws_unit_unique = False, ws_codec = hex_codec, ws_uuids = bit_uuids,
     ws_stage = append_outbox\<rparr>"

definition demo_builder :: "fake_store module_builder" where
  "demo_builder = with_oauth_store lifted_store (with_oauth_transport (answering (Ok demo_token) demo_identity)
     (with_oauth demo_config (with_database module_builder_new)))"

lemma demo_build: "\<exists>s. build demo_env demo_vars demo_config t lifted_store = Ok s"
proof -
  let ?src = "''env:INTEGRATIONS_OAUTH_STATE_SECRET''" and ?var = "''INTEGRATIONS_OAUTH_STATE_SECRET''"
  have t: "trim ?src = ?src" "trim ?var = ?var" "trim ''https://api/'' = ''https://api/''"
    by (rule trim_printable, simp add: printable_def byte_def)+
  have k: "state_secret demo_vars demo_config = Ok (replicate 32 CHR ''k'')"
    by (simp add: state_secret_def demo_config_def default_oauth_config_def DEFAULT_STATE_SECRET_ENV_def t Let_def
        strip_prefix_def demo_vars_def)
  have b: "public_base demo_config = Ok ''https://api''"
    by (simp add: public_base_def demo_config_def t Let_def trim_trailing_slash_def trim_end_matches_def)
  have "\<forall>p \<in> set (registry_providers registry_with_builtin). \<exists>eps.
      resolve_endpoints plain_url_lib registry_with_builtin p [] = Ok eps"
    using builtin_resolves by (auto simp: providers_registered registry_builtin_lookup split: if_splits)
  from resolve_all_total [OF this, of Map.empty] obtain eps where
    "resolve_all plain_url_lib registry_with_builtin [] (registry_providers registry_with_builtin) Map.empty = Ok eps" ..
  moreover have "cfg_endpoints demo_config = []" "max (cfg_refresh_window_seconds demo_config) 0 = 600"
    by (simp_all add: demo_config_def default_oauth_config_def)
  moreover have "\<exists>x. (unwrap_time (duration_seconds ranged_chrono 600) :: (msg, int) res) = Ok x"
    by (simp add: ranged_chrono_def unwrap_time_def)
  ultimately show ?thesis using k b by (auto simp: build_def demo_env_def Let_def and_then_eq_Ok)
qed

theorem module_build_guarded_witness:
  "\<exists>M s. module_build demo_env demo_vars demo_module_writer (Err (''unused'', [])) demo_builder = Ok M
     \<and> md_oauth M = Some s \<and> service_guarded demo_env s"
proof -
  obtain s where s: "build demo_env demo_vars demo_config (answering (Ok demo_token) demo_identity) lifted_store = Ok s"
    using demo_build by blast
  have b: "module_build demo_env demo_vars demo_module_writer (Err (''unused'', [])) demo_builder
      = Ok \<lparr>md_writer = demo_module_writer, md_oauth = Some s\<rparr>"
    using s by (simp add: module_ops demo_builder_def)
  have "url_laws (e_url demo_env)" by (simp add: demo_env_def plain_url_laws)
  from module_build_guarded [OF this b] b show ?thesis by (auto simp: demo_builder_def module_ops)
qed

end
