(* ===== verification/Module_Safety.thy ===== *)
theory Module_Safety
  imports Job_Safety Inbound_Safety Module_Build
begin

text \<open>
  The module as a whole: every operation a host can call on it, HTTP requests, sweeps, the scheduled job
  and inbound events in any order and with any failures of the database, as one step relation on the
  world, and what no sequence of them can break.
\<close>

subsection \<open>The job's statements\<close>

text \<open>
  During a port call of the job other tasks may write, within \<open>G\<close>, but not the row the job's transaction holds
  locked.  Which row that is the port is not told, so no active row is written: pending accounts may be
  completed or cancelled and new ones authorized meanwhile.
\<close>

definition job_port_keeps :: "(db \<Rightarrow> db \<Rightarrow> bool) \<Rightarrow> ('x world \<Rightarrow> 'r \<times> 'x world) \<Rightarrow> bool" where
  "job_port_keeps G f \<longleftrightarrow> (\<forall>w. G (tables w) (tables (snd (f w))) \<and>
     (\<forall>r \<in> set (accounts (tables w)). ac_status r = Active \<longrightarrow> r \<in> set (accounts (tables (snd (f w))))))"

definition job_ports_keep :: "(db \<Rightarrow> db \<Rightarrow> bool) \<Rightarrow> 'x job \<Rightarrow> bool" where
  "job_ports_keep G J \<longleftrightarrow>
     (\<forall>c p a. job_port_keeps G (st_read_token (jb_store J) c p a)) \<and>
     (\<forall>c p a b e. job_port_keeps G (st_rotate (jb_store J) c p a b e)) \<and>
     (\<forall>e f. job_port_keeps G (tp_exchange (jb_transport J) e f))"

text \<open>While the ports are called the claimed row is still there, and active.\<close>

definition claim_holds :: "(db \<Rightarrow> db \<Rightarrow> bool) \<Rightarrow> (db \<Rightarrow> bool) \<Rightarrow> db \<Rightarrow> account \<Rightarrow> 'x world \<Rightarrow> bool" where
  "claim_holds G ok d r v \<longleftrightarrow> G d (tables v) \<and> ok (tables v) \<and> r \<in> set (accounts (tables v)) \<and> ac_status r = Active"

locale job_work = account_work G fresh for G :: "db \<Rightarrow> db \<Rightarrow> bool" and fresh :: "uuid \<Rightarrow> bool" +
  fixes ok :: "db \<Rightarrow> bool"
  assumes ok_kept: "ok d \<Longrightarrow> G d d' \<Longrightarrow> ok d'"
    and job_mirror_moves: "job_mirror i e t d = Inr (n, d') \<Longrightarrow> G d d'"
    and job_expire_moves: "ok d \<Longrightarrow> r \<in> set (accounts d) \<Longrightarrow> ac_status r = Active \<Longrightarrow>
      job_expire (ac_id r) t d = Inr (n, d') \<Longrightarrow> G d d'"
begin

text \<open>A world the calls of one account's refresh lead to before it writes.\<close>

lemma quiet_execute:
  assumes "execute_in s tx v = (Ok (n, tx'), v')" and "empty_tx tx"
    and "\<And>m d'. s (clock v) (tables v) = Inr (m, d') \<Longrightarrow> G (tables v) d'" and "G d (tables v)"
  shows "G d (tables (snd (commit tx' v')))"
proof -
  have "tables v' = tables v" "\<exists>d'. s (clock v) (tables v) = Inr (n, d') \<and> tx' (tables v) = d'"
    using execute_in_Ok [OF assms(1)] assms(2) by (auto simp: empty_tx_def)
  then have "G (tables v') (tx' (tables v'))" using assms(3) by auto
  with assms(4) \<open>tables v' = tables v\<close> show ?thesis using commit_keeps by metis
qed

lemma job_skipped_keeps: "G d (tables v) \<Longrightarrow> G d (tables (snd (job_skipped tx rep v)))"
  unfolding job_skipped_def by (auto intro!: stepping)

lemma job_expired_keeps:
  assumes "ok (tables v)" and "r \<in> set (accounts (tables v))" and "ac_status r = Active"
    and "empty_tx tx" and "G d (tables v)"
  shows "G d (tables (snd (job_expired tx (ac_id r) rep v)))"
  unfolding job_expired_def expire_account_def
  using assms by (auto intro!: stepping dest: quiet_execute job_expire_moves)

lemma mirror_commit:
  "execute_in (job_mirror i e) tx v = (Ok (n, tx'), v') \<Longrightarrow> empty_tx tx \<Longrightarrow> G d (tables v) \<Longrightarrow>
    G d (tables (snd (commit tx' v')))"
  by (erule (1) quiet_execute) (auto dest: job_mirror_moves)

lemma job_mirrored_keeps:
  assumes "empty_tx tx" and "G d (tables v)"
  shows "G d (tables (snd (job_mirrored tx i e rep v)))"
  unfolding job_mirrored_def
  using assms by (auto intro!: stepping job_skipped_keeps dest: mirror_commit)

lemma claim_holds_port:
  assumes "claim_holds G ok d r v" and "job_port_keeps G f" and "f v = (x, v')"
  shows "claim_holds G ok d r v'"
proof -
  have "G (tables v) (tables v')" "r \<in> set (accounts (tables v'))"
    using assms unfolding job_port_keeps_def claim_holds_def by (metis snd_conv)+
  with assms(1) show ?thesis by (auto simp: claim_holds_def intro: join ok_kept)
qed

lemma claim_ends:
  assumes "claim_holds G ok d r v"
  shows "G d (tables (snd (job_skipped tx rep v)))"
    and "empty_tx tx \<Longrightarrow> G d (tables (snd (job_expired tx (ac_id r) rep v)))"
    and "empty_tx tx \<Longrightarrow> G d (tables (snd (job_mirrored tx (ac_id r) e rep v)))"
    and "G d (tables v)"
  using assms by (auto simp: claim_holds_def intro: job_skipped_keeps job_expired_keeps job_mirrored_keeps)

lemma claim_holds_ports:
  assumes "job_ports_keep G J" and "claim_holds G ok d r v"
  shows "st_read_token (jb_store J) c a b v = (x, v1) \<Longrightarrow> claim_holds G ok d r v1"
    and "tp_exchange (jb_transport J) e f v = (y, v2) \<Longrightarrow> claim_holds G ok d r v2"
    and "st_rotate (jb_store J) c a b t t' v = (z, v3) \<Longrightarrow> claim_holds G ok d r v3"
  using assms claim_holds_port [OF assms(2), of "st_read_token (jb_store J) c a b" x v1]
    claim_holds_port [OF assms(2), of "tp_exchange (jb_transport J) e f" y v2]
    claim_holds_port [OF assms(2), of "st_rotate (jb_store J) c a b t t'" z v3]
  by (auto simp: job_ports_keep_def)

lemma job_store_keeps:
  assumes "job_ports_keep G J" and "empty_tx tx" and "claim_holds G ok d r v" and "da_id a = ac_id r"
  shows "G d (tables (snd (job_store J tx company a bundle resp e rep v)))"
proof -
  obtain q v' where q: "st_rotate (jb_store J) company (da_provider a) (da_account_ref a) (job_successor resp bundle e) e v
      = (q, v')" by fastforce
  note claim = claim_holds_ports(3) [OF assms(1,3) q]
  show ?thesis
    using claim_ends(1) [OF claim] claim_ends(2,3) [OF claim assms(2)] claim_ends(4) [OF claim] assms(4)
    by (cases q) (simp_all add: job_store_def q)
qed

lemma job_exchange_keeps:
  assumes "job_ports_keep G J" and "empty_tx tx" and "claim_holds G ok d r v" and "da_id a = ac_id r"
  shows "G d (tables (snd (job_exchange J tx company a eps cl bundle rt rep v)))"
proof -
  obtain q v' where q: "tp_exchange (jb_transport J) (ep_token eps) (refresh_form (client_id cl) (client_secret cl) rt) v
      = (q, v')" by fastforce
  note claim = claim_holds_ports(2) [OF assms(1,3) q]
  show ?thesis
    unfolding job_exchange_def Let_def q
    using claim_ends(1) [OF claim] claim_ends(2) [OF claim assms(2)] claim_ends(4) [OF claim] assms(4)
      job_store_keeps [OF assms(1,2) claim assms(4)]
    by (auto intro!: attempt_link split: res.split option.split)
qed

lemma refresh_one_keeps:
  assumes "job_ports_keep G J" and "empty_tx tx" and "claim_holds G ok d r v"
  shows "G d (tables (snd (refresh_one J tx company (claimed_account r) rep v)))"
proof -
  have i: "da_id (claimed_account r) = ac_id r" by (simp add: claimed_account_def)
  obtain q v' where q: "st_read_token (jb_store J) company (da_provider (claimed_account r))
      (da_account_ref (claimed_account r)) v = (q, v')" by fastforce
  note claim = claim_holds_ports(1) [OF assms(1,3) q]
  show ?thesis
    unfolding refresh_one_def q i
    using claim_ends(1) [OF claim] claim_ends(2) [OF claim assms(2)] claim_ends(4) [OF claim]
      claim_ends(1,4) [OF assms(3)] job_exchange_keeps [OF assms(1,2) claim i]
    by (auto split: res.split option.split)
qed

text \<open>The sweep and the fan-out.\<close>

lemma job_turn_keeps:
  assumes "job_ports_keep G J" and "ok (tables w) \<and> G d (tables w)" and "empty_tx tx"
    and "r \<in> set (accounts (tables w))" and "ac_status r = Active"
  shows "ok (tables (snd (refresh_one J tx company (claimed_account r) rep w))) \<and>
    G d (tables (snd (refresh_one J tx company (claimed_account r) rep w)))"
proof -
  have "claim_holds G ok (tables w) r w" using assms(2,4,5) by (simp add: claim_holds_def)
  from refresh_one_keeps [OF assms(1,3) this, of company rep] assms(2) show ?thesis
    by (blast intro: join ok_kept)
qed

lemma refresh_for_companies_keeps:
  assumes "job_ports_keep G J" and "ok (tables w)"
  shows "G (tables w) (tables (snd (refresh_for_companies J cs w)))"
proof -
  have "ok (tables (snd (refresh_for_companies J cs w))) \<and> G (tables w) (tables (snd (refresh_for_companies J cs w)))"
    by (rule fan_out_invariant [where I = "\<lambda>v. ok (tables v) \<and> G (tables w) (tables v)"])
      (use assms(2) stay in simp, rule job_turn_keeps [OF assms(1)], use assms(2) stay in simp_all)
  then show ?thesis ..
qed

end

subsection \<open>Both tables at once\<close>

definition module_moves :: "uuid set \<Rightarrow> uuid_text \<Rightarrow> db \<Rightarrow> db \<Rightarrow> bool" where
  "module_moves U X d d' \<longleftrightarrow> accounts_step U d d' \<and> ledger_step X d d'"

lemma accounts_step_frame: "accounts d' = accounts d \<Longrightarrow> accounts_step U d d'"
  by (auto simp: accounts_step_def accounts_ok_def)

text \<open>The statements on the accounts leave the ledger's tables alone, and the other way round.\<close>

lemma account_stmt_frame:
  "delete_scope p a t d = Inr (n, d') \<Longrightarrow> ledger_step X d d'"
  "insert_pending i p a s v t d = Inr (u, d') \<Longrightarrow> ledger_step X d d'"
  "activate_pending i s e now t d = Inr (n, d') \<Longrightarrow> ledger_step X d d'"
  "revoke_account i t d = Inr (n, d') \<Longrightarrow> ledger_step X d d'"
  "expire_active i t d = Inr (n, d') \<Longrightarrow> ledger_step X d d'"
  "mirror_expiry i e t d = Inr (n, d') \<Longrightarrow> ledger_step X d d'"
  "mirror_refreshed i e sc now t d = Inr (n, d') \<Longrightarrow> ledger_step X d d'"
  "job_mirror i e t d = Inr (n, d') \<Longrightarrow> ledger_step X d d'"
  "job_expire i t d = Inr (n, d') \<Longrightarrow> ledger_step X d d'"
  by (auto simp: sql Let_def update_accounts_def intro!: ledger_step_frame split: option.splits if_splits)

lemma event_stmt_frame:
  "update_events q f t d = Inr (n, d') \<Longrightarrow> accounts_step U d d'"
  "insert_connector b c t d = Inr (u, d') \<Longrightarrow> accounts_step U d d'"
  "claim_event e t d = Inr (cl, d') \<Longrightarrow> accounts_step U d d'"
  by (auto simp: update_events_def insert_connector_def claim_event_def Let_def intro!: accounts_step_frame
      split: option.splits if_splits)

lemma settled_frame: "accounts_step U d d1 \<Longrightarrow> accounts_step U d (settled_tables S ev now d1)"
  by (erule accounts_step_trans) (simp add: settled_tables_def accounts_step_frame)

lemma module_moves_trans: "module_moves U X a b \<Longrightarrow> module_moves U X b c \<Longrightarrow> module_moves U X a c"
  unfolding module_moves_def using accounts_step_trans ledger_step_trans by blast

interpretation whole: job_work "module_moves U X" "\<lambda>i. i \<notin> U" accounts_ok for U X
proof unfold_locales
  show "module_moves U X d d" for d by (simp add: module_moves_def)
  show "module_moves U X a b \<Longrightarrow> module_moves U X b c \<Longrightarrow> module_moves U X a c" for a b c by (rule module_moves_trans)
  show "accounts_ok d \<Longrightarrow> module_moves U X d d' \<Longrightarrow> accounts_ok d'" for d d' by (simp add: module_moves_def accounts_step_def)
  fix i t d and n :: nat and d' r e
  show "module_moves U X d d'" if "accounts_ok d" "r \<in> set (accounts d)" "ac_status r = Active" "job_expire (ac_id r) t d = Inr (n, d')"
  proof -
    have "account_by_id (ac_id r) d = Some r" using that(1,2) account_by_id_unique by (simp add: accounts_ok_def)
    from job_expire_step [OF that(1) this that(3,4)] account_stmt_frame(9) [OF that(4)] show ?thesis
      by (simp add: module_moves_def)
  qed
qed (simp_all add: module_moves_def account_stmt_frame delete_scope_step insert_pending_step activate_step revoke_step
    expire_step mirror_expiry_step mirror_refreshed_step job_mirror_step)

interpretation inbound: ledger_work "module_moves U (ws_uuids S)" S for U S
proof unfold_locales
  fix ev i t d s rt ri now and n :: nat and d1
  assume i: "snd (event_kind ev) = i"
  note frame = settled_frame [OF event_stmt_frame(1)]
  show "module_moves U (ws_uuids S) d (settled_tables S ev now d1)"
    if "fst (event_kind ev) = ''IntegrationEventMapped''" "mark_mapped i rt ri t d = Inr (n, d1)"
    using mark_step(1) [OF i that] frame that(2) unfolding mark_mapped_def module_moves_def by blast
  show "module_moves U (ws_uuids S) d (settled_tables S ev now d1)"
    if "fst (event_kind ev) = ''IntegrationEventIgnored''" "mark_ignored i s t d = Inr (n, d1)"
    using mark_step(2) [OF i that] frame that(2) unfolding mark_ignored_def module_moves_def by blast
  show "module_moves U (ws_uuids S) d (settled_tables S ev now d1)"
    if "fst (event_kind ev) = ''IntegrationEventFailed''" "mark_failed i s t d = Inr (n, d1)"
    using mark_step(3) [OF i that] frame that(2) unfolding mark_failed_def module_moves_def by blast
  show "module_moves U (ws_uuids S) d (settled_tables S ev now d1)"
    if "fst (event_kind ev) = ''IntegrationEventMapped''" "retry_mark_mapped i rt ri t d = Inr (n, d1)"
    using mark_step(4) [OF i that] frame that(2) unfolding retry_mark_mapped_def module_moves_def by blast
next
  fix i s t d and n :: nat and d'
  show "module_moves U (ws_uuids S) d d'" if "set_error_detail i s t d = Inr (n, d')"
    using set_error_detail_step [OF that] event_stmt_frame(1) that unfolding set_error_detail_def module_moves_def by blast
  show "module_moves U (ws_uuids S) d d'" if "retry_mark_ignored i s t d = Inr (n, d')"
    using retry_mark_ignored_step [OF that] event_stmt_frame(1) that unfolding retry_mark_ignored_def module_moves_def by blast
qed (simp_all add: module_moves_def insert_connector_step claim_event_step event_stmt_frame)

subsection \<open>Everything a host can do\<close>

text \<open>A composed module, the arguments of its scheduled job, and the ports of the inbound path.\<close>

record 'x host =
  ho_env :: env
  ho_module :: "'x integrations_module"
  ho_job :: "'x job"
  ho_mapper :: "'x world target_port"
  ho_sink :: "'x world event_sink"

text \<open>
  One step: a request on the OAuth routes, a sweep, a lazy refresh, a run of the scheduled job, an inbound
  operation, or anything that leaves the module's tables alone (time passes, the database begins or
  stops to fail, another session takes or releases row locks, the store and the providers change).
  Account ids are drawn outside \<open>U\<close>.
\<close>

inductive module_step :: "'x host \<Rightarrow> uuid set \<Rightarrow> 'x world \<Rightarrow> 'x world \<Rightarrow> bool" for H U where
  request: "md_oauth (ho_module H) = Some s \<Longrightarrow> dr_account_id d \<notin> U \<Longrightarrow>
    module_step H U w (snd (oauth_routes (ho_env H) s json d route who w))"
| sweep: "md_oauth (ho_module H) = Some s \<Longrightarrow> module_step H U w (snd (refresh_due (ho_env H) s c w))"
| fresh: "md_oauth (ho_module H) = Some s \<Longrightarrow> module_step H U w (snd (ensure_fresh (ho_env H) s c i w))"
| job: "module_step H U w (snd (refresh_for_companies (ho_job H) cs w))"
| register: "module_step H U w (snd (register_connector (md_writer (ho_module H)) i nc w))"
| receive: "module_step H U w (snd (receive_event (md_writer (ho_module H)) i e (ho_mapper H) (ho_sink H) w))"
| report: "module_step H U w (snd (failures c w))"
| retry: "module_step H U w (snd (retry_failed (md_writer (ho_module H)) company c (ho_mapper H) (ho_sink H) w))"
| outside: "tables w' = tables w \<Longrightarrow> module_step H U w w'"

inductive_cases module_stepE [consumes 1, case_names request sweep fresh job register receive report retry outside]:
  "module_step H U w w'"

abbreviation host_moves :: "'x host \<Rightarrow> uuid set \<Rightarrow> db \<Rightarrow> db \<Rightarrow> bool" where
  "host_moves H U \<equiv> module_moves U (ws_uuids (md_writer (ho_module H)))"

definition host_ports_keep :: "'x host \<Rightarrow> uuid set \<Rightarrow> bool" where
  "host_ports_keep H U \<longleftrightarrow>
     (\<forall>s. md_oauth (ho_module H) = Some s \<longrightarrow> ports_keep (host_moves H U) s) \<and>
     job_ports_keep (host_moves H U) (ho_job H) \<and> target_keeps (host_moves H U) (ho_mapper H) (ho_sink H)"

lemma routes_keep:
  assumes "ports_keep (module_moves U X) s" and "dr_account_id d \<notin> U"
  shows "module_moves U X (tables w) (tables (snd (oauth_routes E s json d route who w)))"
proof -
  note stay = whole.stay [of U X "tables w"]
  show ?thesis
    using whole.step_authorize [OF assms(2) stay] whole.step_complete [OF assms(1) stay]
      whole.step_disconnect [OF assms(1) stay] whole.step_status [OF stay] stay
    by (cases route; cases who)
      (auto simp: require_principal_def handle_authorize_def handle_complete_def handle_disconnect_def
        handle_status_def split: res.split)
qed

lemma failures_reads: "tables (snd (failures c w)) = tables w"
proof -
  have "tables (snd (execute (fetch_failed c) w)) = tables w"
    using execute_tables [of "fetch_failed c" w] by (auto dest: ledger_reads)
  then show ?thesis unfolding failures_def
    by (cases "on_err DbError (execute (fetch_failed c) w)"; cases "fst (on_err DbError (execute (fetch_failed c) w))")
      (auto simp: on_err_def)
qed

lemma module_step_moves:
  assumes "module_step H U w w'" and "host_ports_keep H U" and "write_laws (md_writer (ho_module H))"
    and "accounts_ok (tables w)"
  shows "host_moves H U (tables w) (tables w')"
  using assms(1)
proof (cases rule: module_stepE)
  case (request s d json route who)
  then show ?thesis using assms(2) routes_keep by (auto simp: host_ports_keep_def)
next
  case (sweep s c)
  then show ?thesis using assms(2) whole.step_refresh_due [OF _ whole.stay] by (auto simp: host_ports_keep_def)
next
  case (fresh s c i)
  then show ?thesis using assms(2) whole.step_ensure_fresh [OF _ whole.stay] by (auto simp: host_ports_keep_def)
next
  case (job cs)
  then show ?thesis using assms(2,4) whole.refresh_for_companies_keeps by (auto simp: host_ports_keep_def)
next
  case (register i nc)
  then show ?thesis using inbound.register_connector_step by auto
next
  case (receive i e)
  then show ?thesis using inbound.receive_event_step [OF assms(3)] assms(2) by (auto simp: host_ports_keep_def)
next
  case (report c)
  then show ?thesis using whole.stay failures_reads by metis
next
  case (retry company c)
  then show ?thesis using inbound.retry_failed_step [OF assms(3)] assms(2) by (auto simp: host_ports_keep_def)
next
  case outside
  then show ?thesis using whole.stay by metis
qed

lemma module_reach_moves:
  assumes "(module_step H U)\<^sup>*\<^sup>* w w'" and "host_ports_keep H U" and "write_laws (md_writer (ho_module H))"
    and "accounts_ok (tables w)"
  shows "host_moves H U (tables w) (tables w')"
  using assms(1)
proof induction
  case (step v v')
  then have "accounts_ok (tables v)" using assms(4) by (simp add: module_moves_def accounts_step_def)
  from module_step_moves [OF step.hyps(2) assms(2,3) this] step.IH show ?case by (rule module_moves_trans [rotated])
qed (rule whole.stay)

text \<open>
  C1.  No sequence of operations breaks the module's tables.  From well formed tables, whatever requests,
  sweeps, lazy refreshes, job runs and inbound events happen in whatever order, with any database
  failures between them: account ids stay unique, a PKCE verifier is held by pending accounts only and
  every active account has its expiry; event ids and business keys stay unique, every event has its
  connector and every settled event an outbox record of its own (a failed event that a retry ignored keeps
  the one of its failure); and since the start no account row of a known id
  has moved against its lifecycle or to another provider or identity, while every event is still there,
  untouched once mapped or ignored.
\<close>

theorem module_keeps_invariants:
  assumes "(module_step H U)\<^sup>*\<^sup>* w w'" and "host_ports_keep H U" and "write_laws (md_writer (ho_module H))"
    and "accounts_ok (tables w)" and "events_ok (tables w)"
    and "announced (ws_uuids (md_writer (ho_module H))) (tables w)"
  shows "accounts_ok (tables w') \<and> events_ok (tables w') \<and>
    announced (ws_uuids (md_writer (ho_module H))) (tables w') \<and>
    (\<forall>r' \<in> set (accounts (tables w')). ac_id r' \<in> U \<longrightarrow> (\<exists>r \<in> set (accounts (tables w)). account_moves r r')) \<and>
    (\<forall>r \<in> set (events (tables w)). \<exists>r' \<in> set (events (tables w')). event_moves r r')"
  using module_reach_moves [OF assms(1-4)] assms(4-6)
  by (simp add: module_moves_def accounts_step_def ledger_step_def)

subsection \<open>A concrete host\<close>

definition ignoring_target :: "'w target_port" where
  "ignoring_target = \<lparr>tp_map = (\<lambda>_ w. (Ok (IgnoredFor ''not wanted''), w))\<rparr>"

definition demo_host :: "fake_store host" where
  "demo_host = \<lparr>ho_env = demo_env,
     ho_module = \<lparr>md_writer = demo_module_writer, md_oauth = Some (demo_service (Ok demo_token) demo_identity)\<rparr>,
     ho_job = demo_job, ho_mapper = ignoring_target, ho_sink = logging_sink\<rparr>"

lemma demo_host_ports: "host_ports_keep demo_host U"
  by (auto simp: host_ports_keep_def demo_host_def ports_keep_def store_keeps_def transport_keeps_def target_keeps_def
      job_ports_keep_def job_port_keeps_def demo_service_def demo_job_def answering_def lifted_store_def lift_call_def
      ignoring_target_def logging_sink_def whole.stay split: prod.split)

lemma demo_host_laws: "write_laws (md_writer (ho_module demo_host))"
  by (simp add: write_laws_def demo_host_def demo_module_writer_def bit_uuids_laws append_outbox_laws)

text \<open>A disconnect over HTTP on that host.\<close>

lemma demo_disconnect_step:
  "\<exists>w'. module_step demo_host {7} (demo_world [demo_account Pending None] []) w' \<and>
    map ac_status (accounts (tables w')) = [Revoked] \<and> map ac_id (accounts (tables w')) = [7]"
proof -
  let ?w = "demo_world [demo_account Pending None] []"
  define who where "who = demo_writer_principal\<lparr>pr_permissions := [''delete:integrations'']\<rparr>"
  obtain w' where w': "disconnect (demo_service (Ok demo_token) demo_identity) 1 7 ?w = (Ok (), w')"
      "map ac_status (accounts (tables w')) = [Revoked]"
      "map ac_id (accounts (tables w')) = [7]"
    by (rule exE [OF demo_disconnect [of "Ok demo_token" demo_identity]]) (elim conjE)
  have "snd (oauth_routes demo_env (demo_service (Ok demo_token) demo_identity) no_json demo_draws (Post_disconnect 7) (Some who) ?w) = w'"
    using w'(1) by (simp add: require_principal_def handle_disconnect_def has_permission_def who_def demo_writer_principal_def)
  moreover have "module_step demo_host {7} ?w
      (snd (oauth_routes (ho_env demo_host) (demo_service (Ok demo_token) demo_identity) no_json demo_draws (Post_disconnect 7) (Some who) ?w))"
    by (rule request) (simp_all add: demo_host_def demo_draws_def)
  ultimately show ?thesis using w'(2,3) by (auto simp: demo_host_def)
qed

lemma demo_tables_ok:
  "accounts_ok (tables (demo_world [demo_account Pending None] []))"
  "events_ok (tables (demo_world [demo_account Pending None] []))"
  "announced X (tables (demo_world [demo_account Pending None] []))"
  by (simp_all add: accounts_ok_def account_ok_def events_ok_def announced_def demo_world_def demo_account_def)

theorem module_keeps_invariants_witness:
  "\<exists>w'. (module_step demo_host {7})\<^sup>*\<^sup>* (demo_world [demo_account Pending None] []) w' \<and>
    map ac_status (accounts (tables w')) = [Revoked] \<and> accounts_ok (tables w')"
proof -
  obtain w' where step: "module_step demo_host {7} (demo_world [demo_account Pending None] []) w'"
      and revoked: "map ac_status (accounts (tables w')) = [Revoked]"
      and "map ac_id (accounts (tables w')) = [7]" by (rule exE [OF demo_disconnect_step]) (elim conjE)
  note reach = r_into_rtranclp [of "module_step demo_host {7}", OF step]
  from conjunct1 [OF module_keeps_invariants [OF reach demo_host_ports demo_host_laws demo_tables_ok]]
  show ?thesis using reach revoked by (intro exI [of _ w'] conjI)
qed

end
