(* ===== verification/Lifecycle.thy ===== *)
theory Lifecycle
  imports Module_Safety
begin

text \<open>
  What the module promises a company, as an abstract state machine: a book of connections and a book of
  deliveries, each entry moving along its own small lifecycle.  The module implements it: every
  operation is, seen through the abstraction of its tables, a finite sequence of steps of the machine.
\<close>

subsection \<open>The machine\<close>

text \<open>
  A connection id is unissued, in one of the four statuses, or gone (replaced by a newer authorization).
  A delivery is a (connector, business key) pair: not seen, waiting, done as a record of another module,
  declined, or refused.
\<close>

datatype connection = Unissued | In account_status | Gone

datatype delivery = Unseen | Waiting | Done string uuid | Declined string | Refused string

record books =
  connections_of :: "uuid \<Rightarrow> connection"
  deliveries_of :: "uuid \<times> string \<Rightarrow> delivery"

inductive connection_change :: "connection \<Rightarrow> connection \<Rightarrow> bool" where
  start: "connection_change Unissued (In Pending)"
| complete: "connection_change (In Pending) (In Active)"
| expire: "connection_change (In Active) (In Expired)"
| cancel: "connection_change (In Pending) (In Revoked)"
| disconnect: "connection_change (In Active) (In Revoked)"
| replace: "connection_change (In s) Gone"

inductive delivery_change :: "delivery \<Rightarrow> delivery \<Rightarrow> bool" where
  claim: "delivery_change Unseen Waiting"
| map: "delivery_change Waiting (Done ty ref)"
| decline: "delivery_change Waiting (Declined reason)"
| refuse: "delivery_change Waiting (Refused reason)"
| redrive_map: "delivery_change (Refused reason) (Done ty ref)"
| redrive_decline: "delivery_change (Refused reason) (Declined reason')"
| redrive_refuse: "delivery_change (Refused reason) (Refused reason')"

inductive book_step :: "books \<Rightarrow> books \<Rightarrow> bool" where
  connection: "connection_change (connections_of b i) c \<Longrightarrow>
    book_step b (b\<lparr>connections_of := (connections_of b)(i := c)\<rparr>)"
| delivery: "delivery_change (deliveries_of b k) c \<Longrightarrow>
    book_step b (b\<lparr>deliveries_of := (deliveries_of b)(k := c)\<rparr>)"

inductive_simps connection_change_simps [simp]:
  "connection_change Unissued c" "connection_change (In s) c" "connection_change Gone c"
inductive_simps delivery_change_simps [simp]:
  "delivery_change Unseen c" "delivery_change Waiting c" "delivery_change (Done ty ref) c"
  "delivery_change (Declined reason) c" "delivery_change (Refused reason) c"
inductive_cases book_stepE: "book_step b b'"

text \<open>
  What is final in the machine: a connection that ended never comes back, and a delivery that was done
  stays done as the same record.
\<close>

lemma ended_stays:
  assumes "book_step\<^sup>*\<^sup>* b b'" and "connections_of b i \<in> {In Expired, In Revoked, Gone}"
  shows "connections_of b' i \<in> {connections_of b i, Gone}"
  using assms by (induction rule: rtranclp_induct) (auto elim!: book_stepE split: if_splits)

lemma done_stays: "book_step\<^sup>*\<^sup>* b b' \<Longrightarrow> deliveries_of b k = Done ty ref \<Longrightarrow> deliveries_of b' k = Done ty ref"
  by (induction rule: rtranclp_induct) (auto elim!: book_stepE split: if_splits)

subsection \<open>Pointwise changes\<close>

text \<open>
  A change of finitely many entries, each of them along its own lifecycle, is a sequence of steps that
  change one entry at a time.
\<close>

lemma change_entries:
  assumes "finite S" and "\<And>k. k \<notin> S \<Longrightarrow> g k = f k" and "\<And>k. R\<^sup>*\<^sup>* (f k) (g k)"
    and one: "\<And>f k c. R (f k) c \<Longrightarrow> Q (h f) (h (f(k := c)))"
  shows "Q\<^sup>*\<^sup>* (h f) (h g)"
proof -
  have entry: "Q\<^sup>*\<^sup>* (h f) (h (f(k := c)))" if "R\<^sup>*\<^sup>* (f k) c" for f k c
    using that
  proof induction
    case (step y z)
    from one [of "f(k := y)" k z] step have "Q (h (f(k := y))) (h (f(k := z)))" by simp
    with step.IH show ?case by (rule rtranclp.rtrancl_into_rtrancl)
  qed simp
  from assms(1-3) show ?thesis
  proof (induction S arbitrary: f)
    case empty
    then have "g = f" by auto
    then show ?case by simp
  next
    case (insert k S)
    have "Q\<^sup>*\<^sup>* (h f) (h (f(k := g k)))" using insert.prems(2) by (rule entry)
    also have "Q\<^sup>*\<^sup>* (h (f(k := g k))) (h g)" using insert.prems by (intro insert.IH) auto
    finally show ?case .
  qed
qed

lemma book_changes:
  assumes "finite S" and "\<And>i. i \<notin> S \<Longrightarrow> connections_of b' i = connections_of b i"
    and "\<And>i. connection_change\<^sup>*\<^sup>* (connections_of b i) (connections_of b' i)"
    and "finite T" and "\<And>k. k \<notin> T \<Longrightarrow> deliveries_of b' k = deliveries_of b k"
    and "\<And>k. delivery_change\<^sup>*\<^sup>* (deliveries_of b k) (deliveries_of b' k)"
  shows "book_step\<^sup>*\<^sup>* b b'"
proof -
  let ?c = "\<lambda>f. b\<lparr>connections_of := f\<rparr>" and ?d = "\<lambda>f. b'\<lparr>deliveries_of := f\<rparr>"
  have "book_step\<^sup>*\<^sup>* (?c (connections_of b)) (?c (connections_of b'))"
    by (rule change_entries [OF assms(1-3)]) (simp, rule connection [of "?c _", simplified])
  moreover have "book_step\<^sup>*\<^sup>* (?d (deliveries_of b)) (?d (deliveries_of b'))"
    by (rule change_entries [OF assms(4-6)]) (simp, rule delivery [of "?d _", simplified])
  moreover have "?c (connections_of b') = ?d (deliveries_of b)" by (cases b; cases b') simp
  ultimately show ?thesis by simp
qed

subsection \<open>The lifecycles of the rows\<close>

lemma connection_path: "s \<le> t \<Longrightarrow> connection_change\<^sup>*\<^sup>* (In s) (In t)"
proof -
  have path: "connection_change\<^sup>*\<^sup>* (In Pending) (In Active)" "connection_change\<^sup>*\<^sup>* (In Active) (In Expired)"
      "connection_change\<^sup>*\<^sup>* (In Active) (In Revoked)" "connection_change\<^sup>*\<^sup>* (In Pending) (In Revoked)"
    by (simp_all add: r_into_rtranclp [where r = connection_change])
  assume "s \<le> t"
  then show ?thesis
    using path rtranclp_trans [OF path(1,2)] by (cases s; cases t) simp_all
qed

lemma connection_created: "connection_change\<^sup>*\<^sup>* Unissued (In s)"
  by (rule converse_rtranclp_into_rtranclp [where r = connection_change, OF start connection_path]) simp

lemma connection_replaced: "connection_change\<^sup>*\<^sup>* (In s) Gone"
  by (rule r_into_rtranclp) simp

definition delivery_of :: "event \<Rightarrow> delivery" where
  "delivery_of r = (case ev_status r of
     Received \<Rightarrow> Waiting
   | Mapped \<Rightarrow> Done (the (ev_ref_type r)) (the (ev_ref_id r))
   | Ignored \<Rightarrow> Declined (the (ev_error r))
   | Failed \<Rightarrow> Refused (the (ev_error r)))"

lemma delivery_created: "delivery_change\<^sup>*\<^sup>* Unseen (delivery_of r)"
proof -
  have "delivery_change\<^sup>*\<^sup>* Waiting (delivery_of r)"
    by (auto simp: delivery_of_def intro: r_into_rtranclp split: integration_status.split)
  then show ?thesis by (rule converse_rtranclp_into_rtranclp [where r = delivery_change, OF claim])
qed

lemma delivery_moves:
  assumes "event_moves r r'"
  shows "delivery_change\<^sup>*\<^sup>* (delivery_of r) (delivery_of r')"
proof (cases "delivery_of r' = delivery_of r")
  case False
  with assms have "delivery_change (delivery_of r) (delivery_of r')"
    by (cases "ev_status r"; cases "ev_status r'") (auto simp: event_moves_def delivery_of_def)
  then show ?thesis by (rule r_into_rtranclp)
qed simp

subsection \<open>The abstraction\<close>

text \<open>\<open>U\<close> are the account ids issued so far.\<close>

definition books_of :: "uuid set \<Rightarrow> db \<Rightarrow> books" where
  "books_of U d = \<lparr>
     connections_of = (\<lambda>i. case map_of (map (\<lambda>r. (ac_id r, ac_status r)) (accounts d)) i of
        Some s \<Rightarrow> In s | None \<Rightarrow> if i \<in> U then Gone else Unissued),
     deliveries_of = (\<lambda>k. case map_of (map (\<lambda>r. (event_key r, delivery_of r)) (events d)) k of
        Some x \<Rightarrow> x | None \<Rightarrow> Unseen)\<rparr>"

lemma map_of_listed: "distinct (map f xs) \<Longrightarrow> x \<in> set xs \<Longrightarrow> map_of (map (\<lambda>x. (f x, g x)) xs) (f x) = Some (g x)"
  by (induction xs) (auto simp: image_iff)

lemma map_of_unlisted: "k \<notin> f ` set xs \<Longrightarrow> map_of (map (\<lambda>x. (f x, g x)) xs) k = None"
  by (induction xs) auto

lemma connection_listed:
  "accounts_ok d \<Longrightarrow> r \<in> set (accounts d) \<Longrightarrow> connections_of (books_of U d) (ac_id r) = In (ac_status r)"
  by (simp add: books_of_def accounts_ok_def map_of_listed)

lemma connection_unlisted:
  "i \<notin> ac_id ` set (accounts d) \<Longrightarrow> connections_of (books_of U d) i = (if i \<in> U then Gone else Unissued)"
  by (simp add: books_of_def map_of_unlisted)

lemma delivery_listed:
  "events_ok d \<Longrightarrow> r \<in> set (events d) \<Longrightarrow> deliveries_of (books_of U d) (event_key r) = delivery_of r"
  by (simp add: books_of_def events_ok_def map_of_listed)

lemma delivery_unlisted:
  "k \<notin> event_key ` set (events d) \<Longrightarrow> deliveries_of (books_of U d) k = Unseen"
  by (simp add: books_of_def map_of_unlisted)

lemma connection_simulates:
  assumes "accounts_step U d d'" and "accounts_ok d" and "ac_id ` set (accounts d) \<subseteq> U"
  shows "connection_change\<^sup>*\<^sup>* (connections_of (books_of U d) i)
    (connections_of (books_of (U \<union> ac_id ` set (accounts d')) d') i)"
proof (cases "i \<in> ac_id ` set (accounts d')")
  case True
  then obtain r' where r': "r' \<in> set (accounts d')" "i = ac_id r'" by blast
  have "accounts_ok d'" using assms(1,2) by (simp add: accounts_step_def)
  note after = connection_listed [OF this r'(1)]
  show ?thesis
  proof (cases "i \<in> U")
    case True
    then obtain r where r: "r \<in> set (accounts d)" "account_moves r r'"
      using assms(1) r' by (auto simp: accounts_step_def)
    then have "ac_id r = i" "ac_status r \<le> ac_status r'" using r'(2) by (simp_all add: account_moves_def)
    with connection_listed [OF assms(2) r(1)] after show ?thesis
      using connection_path r'(2) by simp
  next
    case False
    then have "i \<notin> ac_id ` set (accounts d)" using assms(3) by blast
    with False after r'(2) connection_created show ?thesis by (simp add: connection_unlisted)
  qed
next
  case False
  note after = connection_unlisted [OF False, of "U \<union> ac_id ` set (accounts d')"]
  show ?thesis
  proof (cases "i \<in> ac_id ` set (accounts d)")
    case True
    then obtain r where r: "r \<in> set (accounts d)" "i = ac_id r" by blast
    with assms(3) have "i \<in> U" by blast
    with after connection_listed [OF assms(2) r(1)] r(2) connection_replaced show ?thesis by simp
  next
    case out: False
    with False after show ?thesis by (simp add: connection_unlisted)
  qed
qed

lemma delivery_simulates:
  assumes "ledger_step X d d'" and "events_ok d"
  shows "delivery_change\<^sup>*\<^sup>* (deliveries_of (books_of U d) k) (deliveries_of (books_of V d') k)"
proof -
  have ok': "events_ok d'" using assms by (simp add: ledger_step_def)
  show ?thesis
  proof (cases "k \<in> event_key ` set (events d)")
    case True
    then obtain r where r: "r \<in> set (events d)" "k = event_key r" by blast
    with ledger_step_moves [OF assms(1)] obtain r' where r': "r' \<in> set (events d')" "event_moves r r'" by blast
    then have "event_key r' = k" using r(2) by (simp add: event_moves_def)
    with delivery_listed [OF assms(2) r(1)] delivery_listed [OF ok' r'(1)] delivery_moves [OF r'(2)] r(2)
    show ?thesis by metis
  next
    case False
    note before = delivery_unlisted [OF this]
    show ?thesis
    proof (cases "k \<in> event_key ` set (events d')")
      case True
      with delivery_listed [OF ok'] before delivery_created show ?thesis by auto
    qed (simp add: before delivery_unlisted)
  qed
qed

lemma moves_simulate:
  assumes "module_moves U X d d'" and "accounts_ok d" and "events_ok d" and "ac_id ` set (accounts d) \<subseteq> U"
  shows "book_step\<^sup>*\<^sup>* (books_of U d) (books_of (U \<union> ac_id ` set (accounts d')) d')"
proof (rule book_changes)
  have step: "accounts_step U d d'" "ledger_step X d d'" using assms(1) by (simp_all add: module_moves_def)
  show "connection_change\<^sup>*\<^sup>* (connections_of (books_of U d) i)
      (connections_of (books_of (U \<union> ac_id ` set (accounts d')) d') i)" for i
    using step(1) assms(2,4) by (rule connection_simulates)
  show "delivery_change\<^sup>*\<^sup>* (deliveries_of (books_of U d) k)
      (deliveries_of (books_of (U \<union> ac_id ` set (accounts d')) d') k)" for k
    using step(2) assms(3) by (rule delivery_simulates)
  show "finite (ac_id ` set (accounts d) \<union> ac_id ` set (accounts d'))"
    "finite (event_key ` set (events d) \<union> event_key ` set (events d'))" by simp_all
qed (auto simp: connection_unlisted delivery_unlisted)

subsection \<open>The module implements the machine\<close>

text \<open>
  A run, with the account ids issued so far: one step of some host, whose ports and draws respect those
  ids; what it leaves in the table is issued from then on.  Every turn may have a host of its own, so a
  run covers several processes on one database, and what happens beside a step may differ each time.
\<close>

inductive module_run :: "uuid set \<times> 'x world \<Rightarrow> uuid set \<times> 'x world \<Rightarrow> bool" where
  turn: "module_step H U w w' \<Longrightarrow> host_ports_keep H U \<Longrightarrow> write_laws (md_writer (ho_module H)) \<Longrightarrow>
    module_run (U, w) (U \<union> ac_id ` set (accounts (tables w')), w')"

inductive_cases module_runE: "module_run s s'"

definition tables_ok :: "uuid set \<Rightarrow> db \<Rightarrow> bool" where
  "tables_ok U d \<longleftrightarrow> accounts_ok d \<and> events_ok d \<and> ac_id ` set (accounts d) \<subseteq> U"

lemma module_run_simulates:
  assumes "module_run (U, w) (U', w')" and "tables_ok U (tables w)"
  shows "book_step\<^sup>*\<^sup>* (books_of U (tables w)) (books_of U' (tables w')) \<and> tables_ok U' (tables w')"
proof -
  from assms(1) obtain H where step: "module_step H U w w'" "host_ports_keep H U" "write_laws (md_writer (ho_module H))"
      and U': "U' = U \<union> ac_id ` set (accounts (tables w'))"
    by (auto elim: module_runE)
  have "host_moves H U (tables w) (tables w')"
    using module_step_moves [OF step] assms(2) by (simp add: tables_ok_def)
  with moves_simulate [OF this] assms(2) U' show ?thesis
    by (auto simp: tables_ok_def module_moves_def accounts_step_def ledger_step_def)
qed

text \<open>
  C2.  The hand-written services implement the lifecycle machine.  Whatever hosts do through them, requests
  on the OAuth routes, sweeps, lazy refreshes, job runs and inbound events, in any order and with any
  failures between, the tables at the end are the machine's books after a finite sequence of its steps
  from the books at the start: a connection is started, completed, expired, cancelled, disconnected or
  replaced, a delivery claimed and then mapped, declined, refused or re-driven.  So long as only these
  operations write, no ended or replaced connection comes back and no mapped delivery changes.  While a
  step waits for a port, other tasks may do the same to the tables, authorizations under ids not issued
  before included; only during a port call of the job is no active account written.  The generated CRUD
  routes are no steps: an administrator's PATCH may overwrite any column of a row.
\<close>

theorem module_refines_lifecycle:
  assumes "module_run\<^sup>*\<^sup>* (U, w) (U', w')" and "tables_ok U (tables w)"
  shows "book_step\<^sup>*\<^sup>* (books_of U (tables w)) (books_of U' (tables w'))"
proof -
  have "book_step\<^sup>*\<^sup>* (books_of U (tables w)) (books_of U' (tables w')) \<and> tables_ok U' (tables w')"
    using assms(1)
  proof (induction rule: rtranclp_induct2)
    case (step V v V' v')
    with module_run_simulates [OF step.hyps(2)] show ?case by (blast intro: rtranclp_trans)
  qed (use assms(2) in simp)
  then show ?thesis ..
qed

theorem module_refines_lifecycle_witness:
  "\<exists>w'. module_run\<^sup>*\<^sup>* ({7}, demo_world [demo_account Pending None] []) ({7}, w') \<and>
    connections_of (books_of {7} (tables (demo_world [demo_account Pending None] []))) 7 = In Pending \<and>
    connections_of (books_of {7} (tables w')) 7 = In Revoked \<and>
    book_step\<^sup>*\<^sup>* (books_of {7} (tables (demo_world [demo_account Pending None] []))) (books_of {7} (tables w'))"
proof -
  let ?w = "demo_world [demo_account Pending None] []"
  obtain w' where step: "module_step demo_host {7} ?w w'"
      and row: "map ac_status (accounts (tables w')) = [Revoked]" "map ac_id (accounts (tables w')) = [7]"
    by (rule exE [OF demo_disconnect_step]) (elim conjE)
  have ok: "tables_ok {7} (tables ?w)" using demo_tables_ok by (simp add: tables_ok_def demo_world_def demo_account_def)
  have ids: "{7} \<union> ac_id ` set (accounts (tables w')) = {7}" using row(2) by auto
  have "module_run ({7}, ?w) ({7}, w')" using turn [OF step demo_host_ports demo_host_laws] unfolding ids .
  then have run: "module_run\<^sup>*\<^sup>* ({7}, ?w) ({7}, w')" by (rule r_into_rtranclp)
  moreover have "connections_of (books_of {7} (tables ?w)) 7 = In Pending"
    by (simp add: books_of_def demo_world_def demo_account_def)
  moreover have "connections_of (books_of {7} (tables w')) 7 = In Revoked"
    using row by (auto simp: books_of_def)
  ultimately show ?thesis
    using module_refines_lifecycle [OF run ok] by (intro exI [of _ w'] conjI)
qed

end
