(* ===== verification/Job_Liveness.thy ===== *)
theory Job_Liveness
  imports Job_Safety
begin

text \<open>
  The runs of the refresh job over time: the due accounts are served in the order of their expiry and none
  keeps the job from another; and what a run does to an account whose credential the store does not
  hand out, because the schedule came too late or because the run is for another company.
\<close>

subsection \<open>What a refresh leaves alone\<close>

text \<open>
  From \<open>w\<close> to \<open>w'\<close> only rows with an id in \<open>A\<close> have changed; no row came or went, the locks are the same,
  and the clock did not go back.
\<close>

definition spares :: "uuid set \<Rightarrow> 'x world \<Rightarrow> 'x world \<Rightarrow> bool" where
  "spares A w w' \<longleftrightarrow> clock w \<le> clock w' \<and> locked w' = locked w
     \<and> map ac_id (accounts (tables w')) = map ac_id (accounts (tables w))
     \<and> (\<forall>r \<in> set (accounts (tables w)). ac_id r \<notin> A \<longrightarrow> r \<in> set (accounts (tables w')))"

definition tx_spares :: "uuid set \<Rightarrow> tx \<Rightarrow> bool" where
  "tx_spares A tx \<longleftrightarrow> (\<forall>d. map ac_id (accounts (tx d)) = map ac_id (accounts d)
     \<and> (\<forall>r \<in> set (accounts d). ac_id r \<notin> A \<longrightarrow> r \<in> set (accounts (tx d))))"

text \<open>Ports that leave the tables and the locks to the job, and never turn the clock back.\<close>

definition still :: "('x world \<Rightarrow> 'r \<times> 'x world) \<Rightarrow> bool" where
  "still f \<longleftrightarrow> (\<forall>w. clock w \<le> clock (snd (f w)) \<and> locked (snd (f w)) = locked w \<and> tables (snd (f w)) = tables w)"

definition job_ports_still :: "'x job \<Rightarrow> bool" where
  "job_ports_still J \<longleftrightarrow>
     (\<forall>c p a. still (st_read_token (jb_store J) c p a)) \<and>
     (\<forall>c p a b e. still (st_rotate (jb_store J) c p a b e)) \<and>
     (\<forall>e f. still (tp_exchange (jb_transport J) e f))"

named_theorems sparing \<open>calls that spare the other accounts\<close>

lemma spares_refl [sparing]: "spares A w w"
  by (simp add: spares_def)

lemma spares_trans: "spares A a b \<Longrightarrow> spares A b c \<Longrightarrow> spares A a c"
  by (auto simp: spares_def)

lemma spares_mono: "spares A w w' \<Longrightarrow> A \<subseteq> B \<Longrightarrow> spares B w w'"
  by (auto simp: spares_def)

lemma spares_distinct: "spares A w w' \<Longrightarrow> distinct (map ac_id (accounts (tables w))) \<Longrightarrow>
    distinct (map ac_id (accounts (tables w')))"
  by (simp add: spares_def)

lemma spares_stays: "spares A w w' \<Longrightarrow> r \<in> set (accounts (tables w)) \<Longrightarrow> ac_id r \<notin> A \<Longrightarrow>
    r \<in> set (accounts (tables w'))"
  by (simp add: spares_def)

lemma same_row: "distinct (map ac_id rows) \<Longrightarrow> r \<in> set rows \<Longrightarrow> r' \<in> set rows \<Longrightarrow> ac_id r' = ac_id r \<Longrightarrow> r' = r"
  by (auto simp: distinct_map inj_on_def)

lemma spares_back:
  assumes "spares A w w'" and "distinct (map ac_id (accounts (tables w)))"
    and "r \<in> set (accounts (tables w'))" and "ac_id r \<notin> A"
  shows "r \<in> set (accounts (tables w))"
proof -
  have "ac_id r \<in> set (map ac_id (accounts (tables w)))"
    using assms(1,3) by (metis spares_def image_eqI list.set_map)
  then obtain r0 where r0: "r0 \<in> set (accounts (tables w))" "ac_id r0 = ac_id r" by auto
  then have "r0 \<in> set (accounts (tables w'))" using assms(1,4) spares_stays by metis
  with same_row [OF spares_distinct [OF assms(1,2)]] assms(3) r0 show ?thesis by metis
qed

lemma spares_attempt [sparing]:
  assumes "spares A w (snd m)" and "\<And>x w1. m = (Ok x, w1) \<Longrightarrow> spares A w w1 \<Longrightarrow> spares A w (snd (k x w1))"
  shows "spares A w (snd (attempt m k))"
  using attempt_keeps [where I = "spares A w"] assms by blast

lemma spares_calls [sparing]:
  "spares A w w1 \<Longrightarrow> spares A w (snd (execute_in s tx w1))"
  "spares A w w1 \<Longrightarrow> spares A w (snd (rollback tx w1))"
  by (simp_all add: spares_def)

lemma spares_commit [sparing]: "tx_spares A tx \<Longrightarrow> spares A w w1 \<Longrightarrow> spares A w (snd (commit tx w1))"
  using commit_tables [of tx w1] by (auto simp: spares_def tx_spares_def)

lemma spares_still:
  "spares A w w1 \<Longrightarrow> still f \<Longrightarrow> f w1 = (x, w2) \<Longrightarrow> spares A w w2"
  by (auto simp: still_def spares_def dest!: spec [of _ w1])

lemma tx_spares_update:
  assumes "execute_in (\<lambda>t. update_accounts (\<lambda>r. ac_id r = i) (f t) t) tx w = (Ok (n, tx'), w')" and "empty_tx tx"
    and "\<And>t r. ac_id (f t r) = ac_id r"
  shows "tx_spares {i} tx'"
  using execute_in_Ok [OF assms(1)] assms(2,3)
  by (auto simp: tx_spares_def empty_tx_def update_accounts_def update_where_def)

lemma spares_expired [sparing]:
  "empty_tx tx \<Longrightarrow> spares {i} w w1 \<Longrightarrow> spares {i} w (snd (job_expired tx i rep w1))"
  unfolding job_expired_def expire_account_def job_expire_def
  by (auto intro!: sparing dest: tx_spares_update [of i "\<lambda>_ r. r\<lparr>ac_status := Expired\<rparr>"])

lemma spares_skipped [sparing]: "spares A w w1 \<Longrightarrow> spares A w (snd (job_skipped tx rep w1))"
  unfolding job_skipped_def by (auto intro!: sparing)

lemma tx_spares_mirror:
  "execute_in (job_mirror i e) tx w = (Ok (n, tx'), w') \<Longrightarrow> empty_tx tx \<Longrightarrow> tx_spares {i} tx'"
  unfolding job_mirror_def [abs_def] by (erule tx_spares_update) simp_all

lemma spares_mirrored [sparing]:
  "empty_tx tx \<Longrightarrow> spares {i} w w1 \<Longrightarrow> spares {i} w (snd (job_mirrored tx i e rep w1))"
  unfolding job_mirrored_def by (auto intro!: sparing dest: tx_spares_mirror)

lemma spares_refresh_one:
  assumes "job_ports_still J" and "empty_tx tx"
  shows "spares {da_id a} w (snd (refresh_one J tx company a rep w))"
proof -
  note p = assms(1) [unfolded job_ports_still_def]
  have x: "spares {da_id a} w w2" if "tp_exchange (jb_transport J) e f w1 = (r, w2)" "spares {da_id a} w w1" for e f r w1 w2
    using spares_still [where f = "tp_exchange (jb_transport J) e f", OF that(2) _ that(1)] p by simp
  have rd: "spares {da_id a} w w2" if "st_read_token (jb_store J) c p q w1 = (r, w2)" "spares {da_id a} w w1" for c p q r w1 w2
    using spares_still [where f = "st_read_token (jb_store J) c p q", OF that(2) _ that(1)] p by simp
  have ro: "spares {da_id a} w w2" if "st_rotate (jb_store J) c p q b e w1 = (r, w2)" "spares {da_id a} w w1" for c p q b e r w1 w2
    using spares_still [where f = "st_rotate (jb_store J) c p q b e", OF that(2) _ that(1)] p by simp
  show ?thesis
    unfolding refresh_one_def job_exchange_def job_store_def Let_def
    using assms(2)
    by (auto split: res.split prod.split option.split intro!: sparing dest: ro x rd [OF _ spares_refl])
qed

text \<open>One turn of a run, and a whole one: only the rows it attempts change.\<close>

lemma turn_spares:
  assumes "job_ports_still J" and "empty_tx tx" and "tables w3 = tables w" "clock w3 = clock w" "locked w3 = locked w"
    and "refresh_one J tx company (claimed_account r) rep w3 = (x, w4)"
  shows "spares {ac_id r} w w4"
  using spares_refresh_one [OF assms(1,2), of "claimed_account r" w3 company rep] assms(3-6)
  by (simp add: claimed_account_def spares_def)

lemma job_loop_spares:
  "job_loop J company n att rep w = (Ok (att', rep'), w') \<Longrightarrow> job_ports_still J \<Longrightarrow>
    set att \<subseteq> set att' \<and> spares (set att' - set att) w w'"
proof (induction n arbitrary: att rep w)
  case (Suc n)
  from Suc.prems(1) show ?case
  proof (cases rule: job_loop_turn)
    case idle
    then show ?thesis by (simp add: spares_def settles_def)
  next
    case (turn r tx w3 rep1 w4)
    note one = turn_spares [OF Suc.prems(2) turn(2-6)]
    note rest = Suc.IH [OF turn(7) Suc.prems(2)]
    have "ac_id r \<in> set att' - set att" using rest turn(1) by (auto simp: claimable_def)
    then have "spares (set att' - set att) w w4" by (intro spares_mono [OF one]) simp
    moreover have "spares (set att' - set att) w4 w'" by (rule spares_mono [OF conjunct2 [OF rest]]) auto
    ultimately have "spares (set att' - set att) w w'" by (rule spares_trans)
    with rest show ?thesis by simp
  qed
qed (simp add: spares_refl)

subsection \<open>No due account is left out\<close>

lemma due_later: "due wd t r \<Longrightarrow> t \<le> t' \<Longrightarrow> due wd t' r"
  by (auto simp: due_def split: option.splits)

lemma claimable_later:
  assumes "claimable J att w r" and "spares {i} w w'" and "ac_id r \<noteq> i"
  shows "claimable J (i # att) w' r"
  using assms due_later by (auto simp: claimable_def spares_def)


lemma job_loop_order:
  "job_loop J company n att rep w = (Ok (att', rep'), w') \<Longrightarrow> job_ports_still J \<Longrightarrow>
    distinct (map ac_id (accounts (tables w))) \<Longrightarrow> claimable J att w r \<Longrightarrow> ac_id r \<notin> set att' \<Longrightarrow>
    length att' = length att + n \<and> (\<forall>i \<in> set att' - set att. \<exists>r' \<in> set (accounts (tables w)).
      ac_id r' = i \<and> ac_status r' = Active \<and> expiry_key r' \<le> expiry_key r)"
proof (induction n arbitrary: att rep w)
  case (Suc n)
  from Suc.prems(1) show ?case
  proof (cases rule: job_loop_turn)
    case idle
    with Suc.prems(4) show ?thesis by blast
  next
    case (turn r0 tx w3 rep1 w4)
    note one = turn_spares [OF Suc.prems(2) turn(2-6)]
    have "ac_id r0 \<in> set att'" using job_loop_spares [OF turn(7) Suc.prems(2)] by auto
    with Suc.prems(5) have "ac_id r \<noteq> ac_id r0" by auto
    note IH = Suc.IH [OF turn(7) Suc.prems(2) spares_distinct [OF one Suc.prems(3)]
        claimable_later [OF Suc.prems(4) one this] Suc.prems(5)]
    have r0: "r0 \<in> set (accounts (tables w))" "ac_status r0 = Active" "expiry_key r0 \<le> expiry_key r"
      using turn(1) turn(9) [OF Suc.prems(4)] by (auto simp: claimable_def due_def)
    have "\<exists>r' \<in> set (accounts (tables w)). ac_id r' = i \<and> ac_status r' = Active \<and> expiry_key r' \<le> expiry_key r"
      if "i \<in> set att' - set att" for i
    proof (cases "i = ac_id r0")
      case False
      with that IH obtain r' where "r' \<in> set (accounts (tables w4))" "ac_id r' = i" "ac_status r' = Active"
        "expiry_key r' \<le> expiry_key r" by auto
      with spares_back [OF one Suc.prems(3), of r'] False show ?thesis by auto
    qed (use r0 in blast)
    with IH show ?thesis by simp
  qed
qed simp

lemma job_run_order:
  assumes "job_run J company w = (Ok (att, rep), w')" and "job_ports_still J"
    and "distinct (map ac_id (accounts (tables w)))" and "r \<in> set (accounts (tables w))"
    and "due (rs_refresh_window_seconds (jb_schedule J)) (clock w) r" and "ac_id r \<notin> set (locked w)"
    and "ac_id r \<notin> set att"
  shows "length att = nat (rs_refresh_batch_size (jb_schedule J)) \<and> (\<forall>i \<in> set att. \<exists>r' \<in> set (accounts (tables w)).
      ac_id r' = i \<and> ac_status r' = Active \<and> expiry_key r' \<le> expiry_key r)"
  using job_loop_order [OF assms(1) [unfolded job_run_def] assms(2,3) _ assms(7)] assms(4-6)
  by (simp add: claimable_def)


subsection \<open>An account whose credential the store does not hand out\<close>

text \<open>
  The store the job reads: it keeps the contract \<open>credential_store\<close>, with \<open>act\<close> the credentials it holds and the
  world's clock its own, and it answers every read; an exchange at a provider stores nothing.
\<close>

locale job_store =
  credential_store "jb_store J" "\<lambda>w. act (ext w)" clock "\<lambda>w. sound (clock w) (ext w)"
  for J :: "'x job" and act :: "'x \<Rightarrow> uuid \<times> string \<times> string \<Rightarrow> token_bundle option"
    and sound :: "datetime \<Rightarrow> 'x \<Rightarrow> bool" +
  assumes answers: "sound (clock w) (ext w) \<Longrightarrow> st_read_token (jb_store J) c p a w = (Err f, w') \<Longrightarrow> \<not> is_transport f"
    and exchange_frame: "sound (clock w) (ext w) \<Longrightarrow> tp_exchange (jb_transport J) e form w = (r, w') \<Longrightarrow>
      sound (clock w') (ext w') \<and> act (ext w') = act (ext w)"

text \<open>Nothing to read in the scope \<open>k\<close>: no credential, or one past its expiry.\<close>

definition nothing_readable ::
  "('x \<Rightarrow> uuid \<times> string \<times> string \<Rightarrow> token_bundle option) \<Rightarrow> (datetime \<Rightarrow> 'x \<Rightarrow> bool)
    \<Rightarrow> uuid \<times> string \<times> string \<Rightarrow> 'x world \<Rightarrow> bool" where
  "nothing_readable act sound k w \<longleftrightarrow> sound (clock w) (ext w) \<and>
     (case act (ext w) k of None \<Rightarrow> True | Some b \<Rightarrow> tb_expires_at b \<le> clock w)"

lemma nothing_readable_moves:
  assumes "nothing_readable act sound k w" and "sound (clock w') (ext w')" and "act (ext w') k = act (ext w) k"
    and "clock w \<le> clock w'"
  shows "nothing_readable act sound k w'"
  using assms by (auto simp: nothing_readable_def split: option.splits)

lemma nothing_readable_same:
  "nothing_readable act sound k w \<Longrightarrow> ext w' = ext w \<Longrightarrow> clock w' = clock w \<Longrightarrow> nothing_readable act sound k w'"
  unfolding nothing_readable_def by (simp split: option.splits)

lemma stillD:
  assumes "job_ports_still J"
  shows "st_read_token (jb_store J) c p a w = (r, w') \<Longrightarrow> clock w \<le> clock w' \<and> locked w' = locked w \<and> tables w' = tables w"
    and "st_rotate (jb_store J) c p a b e w = (r2, w') \<Longrightarrow> clock w \<le> clock w' \<and> locked w' = locked w \<and> tables w' = tables w"
    and "tp_exchange (jb_transport J) ep form w = (r3, w') \<Longrightarrow> clock w \<le> clock w' \<and> locked w' = locked w \<and> tables w' = tables w"
  using assms unfolding job_ports_still_def still_def by (metis snd_conv)+

lemma job_expire_row:
  assumes "job_expire (ac_id r) t d = Inr (k, d')" and "r \<in> set (accounts d)"
  shows "\<exists>r' \<in> set (accounts d'). ac_id r' = ac_id r \<and> ac_status r' = Expired"
proof -
  let ?f = "\<lambda>r. r\<lparr>ac_status := Expired, ac_metadata := touch t (ac_metadata r)\<rparr>"
  have "?f r \<in> set (accounts d')"
    using assms by (auto simp: job_expire_def update_accounts_Inr update_where_def intro!: image_eqI [of _ _ r])
  then show ?thesis by (intro bexI [of _ "?f r"]) simp_all
qed

context job_store
begin

lemma read_refused:
  assumes "nothing_readable act sound (c, p, a) w" and "st_read_token (jb_store J) c p a w = (r, w')"
  shows "r = Panic \<or> (\<exists>f. r = Err f \<and> \<not> is_transport f)"
  using assms read_Ok [of w c p a _ w'] answers [of w c p a _ w']
  by (cases r) (auto simp: nothing_readable_def)

text \<open>The calls of one account's refresh leave a scope without a readable credential so.\<close>

lemma still_nothing:
  assumes "nothing_readable act sound k w" and "job_ports_still J"
  shows "st_read_token (jb_store J) c p a w = (r, w') \<Longrightarrow> nothing_readable act sound k w'"
    and "tp_exchange (jb_transport J) ep form w = (r3, w') \<Longrightarrow> nothing_readable act sound k w'"
    and "st_rotate (jb_store J) c p a b e w = (r2, w') \<Longrightarrow> r2 \<noteq> Panic \<Longrightarrow> k \<noteq> (c, p, a) \<Longrightarrow> nothing_readable act sound k w'"
proof -
  have sound: "sound (clock w) (ext w)" using assms(1) by (simp add: nothing_readable_def)
  show "nothing_readable act sound k w'" if "st_read_token (jb_store J) c p a w = (r, w')"
    using nothing_readable_moves [OF assms(1)] read_frame [OF sound, of c p a] keeps_inv(4) [OF sound, of c p a]
      stillD(1) [OF assms(2) that] that by simp
  show "nothing_readable act sound k w'" if "tp_exchange (jb_transport J) ep form w = (r3, w')"
    using nothing_readable_moves [OF assms(1)] exchange_frame [OF sound that] stillD(3) [OF assms(2) that] by simp
  show "nothing_readable act sound k w'" if c: "st_rotate (jb_store J) c p a b e w = (r2, w')" "r2 \<noteq> Panic" "k \<noteq> (c, p, a)"
  proof (rule nothing_readable_moves [OF assms(1)])
    show "sound (clock w') (ext w')" using keeps_inv(2) [OF sound, of c p a b e] c(1) by simp
    show "clock w \<le> clock w'" using stillD(2) [OF assms(2) c(1)] by simp
    show "act (ext w') k = act (ext w) k"
    proof (cases r2)
      case (Ok i)
      with rotate_Ok [OF sound, of c p a b e i w'] c show ?thesis by simp
    next
      case (Err f)
      with rotate_Err [OF sound, of c p a b e f w'] c show ?thesis by simp
    qed (use c(2) in simp)
  qed
qed

lemma chain_nothing:
  assumes n: "nothing_readable act sound (c, p0, a0) w" and still: "job_ports_still J"
    and rd: "st_read_token (jb_store J) c p a w = (Ok b, w1)"
  shows "tp_exchange (jb_transport J) ep form w1 = (r, w2) \<Longrightarrow> nothing_readable act sound (c, p0, a0) w2"
    and "tp_exchange (jb_transport J) ep form w1 = (r, w2) \<Longrightarrow> st_rotate (jb_store J) c p a b' e w2 = (q, w3) \<Longrightarrow>
      q \<noteq> Panic \<Longrightarrow> nothing_readable act sound (c, p0, a0) w3"
proof -
  have other: "(c, p0, a0) \<noteq> (c, p, a)" using read_refused [of c p a w] n rd by auto
  note n1 = still_nothing(1) [OF n still rd]
  show "nothing_readable act sound (c, p0, a0) w2" if "tp_exchange (jb_transport J) ep form w1 = (r, w2)"
    by (rule still_nothing(2) [OF n1 still that])
  show "nothing_readable act sound (c, p0, a0) w3" if "tp_exchange (jb_transport J) ep form w1 = (r, w2)"
    "st_rotate (jb_store J) c p a b' e w2 = (q, w3)" "q \<noteq> Panic"
    by (rule still_nothing(3) [OF still_nothing(2) [OF n1 still that(1)] still that(2,3) other])
qed

lemma refresh_one_nothing:
  assumes run: "refresh_one J tx c a rep w = (Ok rep', w')" and "empty_tx tx" and "chrono_laws (e_chrono (jb_env J))"
    and n: "nothing_readable act sound (c, p0, a0) w" and still: "job_ports_still J"
  shows "nothing_readable act sound (c, p0, a0) w'"
proof -
  note calls = chain_nothing [OF n still]
  have dead: "nothing_readable act sound (c, p0, a0) v" if "job_dead J c a w v" for v
    using that
  proof cases
    case (rejected b w1 rt eps cl f)
    then show ?thesis using calls(1) by blast
  next
    case (rotate_refused b w1 rt eps cl resp w2 secs e f)
    then show ?thesis using calls(2) by blast
  qed (use still_nothing(1) [OF n still] in blast)+
  have unable: "nothing_readable act sound (c, p0, a0) v" if "job_unable J c a w v" for v
    using that
  proof cases
    case (job_outage eps cl b w1 rt f)
    then show ?thesis using calls(1) by blast
  next
    case (no_job_lifetime eps cl b w1 rt resp)
    then show ?thesis using calls(1) by blast
  next
    case (rotate_down eps cl b w1 rt resp w2 secs e f)
    then show ?thesis using calls(2) by blast
  next
    case (row_gone eps cl b w1 rt resp w2 secs e rid)
    then show ?thesis using calls(2) by blast
  qed (use n still_nothing(1) [OF n still] in blast)+
  have ends: "nothing_readable act sound (c, p0, a0) w'" if "nothing_readable act sound (c, p0, a0) v" "settles v w'" for v
    using nothing_readable_same [OF that(1)] that(2) by (simp add: settles_def)
  from refresh_one_ends [OF assms(1-3)] show ?thesis
    unfolding job_ends_expired_def job_ends_skipped_def job_ends_refreshed_def
    using dead unable ends calls(2) res.distinct(3) by blast
qed

text \<open>
  A run that attempts an account without a readable credential expires it, whatever the provider would
  have said.
\<close>

lemma refresh_one_expires:
  assumes run: "refresh_one J tx c (claimed_account r) rep w = (Ok rep', w')" and tx: "empty_tx tx"
    and still: "job_ports_still J" and party: "job_party J (claimed_account r) eps cl"
    and n: "nothing_readable act sound (c, da_provider (claimed_account r), da_account_ref (claimed_account r)) w"
    and r: "r \<in> set (accounts (tables w))"
  shows "\<exists>r' \<in> set (accounts (tables w')). ac_id r' = ac_id r \<and> ac_status r' = Expired"
proof -
  let ?a = "claimed_account r"
  obtain x w1 where rd: "st_read_token (jb_store J) c (da_provider ?a) (da_account_ref ?a) w = (x, w1)" by fastforce
  have "x \<noteq> Panic" using run rd party by (auto simp: refresh_one_def job_party_def)
  then obtain f where "x = Err f" "\<not> is_transport f" using read_refused [OF n rd] by blast
  then have "job_expired tx (da_id ?a) rep w1 = (Ok rep', w')"
    using run rd party by (simp add: refresh_one_def job_party_def)
  from job_expired_Ok [OF this tx] obtain k where
    x: "job_expire (ac_id r) (clock w1) (tables w1) = Inr (k, tables w')" by (auto simp: claimed_account_def)
  have "r \<in> set (accounts (tables w1))" using r stillD(1) [OF still rd] by simp
  with x show ?thesis by (rule job_expire_row)
qed

lemma job_loop_expires:
  "job_loop J c n att rep w = (Ok (att', rep'), w') \<Longrightarrow> job_ports_still J \<Longrightarrow> chrono_laws (e_chrono (jb_env J)) \<Longrightarrow>
    distinct (map ac_id (accounts (tables w))) \<Longrightarrow> r \<in> set (accounts (tables w)) \<Longrightarrow>
    job_party J (claimed_account r) eps cl \<Longrightarrow>
    nothing_readable act sound (c, da_provider (claimed_account r), da_account_ref (claimed_account r)) w \<Longrightarrow>
    ac_id r \<in> set att' - set att \<Longrightarrow> \<exists>r' \<in> set (accounts (tables w')). ac_id r' = ac_id r \<and> ac_status r' = Expired"
proof (induction n arbitrary: att rep w)
  case (Suc n)
  from Suc.prems(1) show ?case
  proof (cases rule: job_loop_turn)
    case idle
    with Suc.prems(8) show ?thesis by simp
  next
    case (turn r0 tx w3 rep1 w4)
    note one = turn_spares [OF Suc.prems(2) turn(2-6)]
    have n3: "nothing_readable act sound (c, da_provider (claimed_account r), da_account_ref (claimed_account r)) w3"
      using nothing_readable_same [OF Suc.prems(7) turn(8,4)] .
    show ?thesis
    proof (cases "ac_id r0 = ac_id r")
      case True
      with same_row [OF Suc.prems(4,5), of r0] turn(1) have r0: "r0 = r" by (simp add: claimable_def)
      have "r \<in> set (accounts (tables w3))" using Suc.prems(5) turn(3) by simp
      from refresh_one_expires [OF turn(6) [unfolded r0] turn(2) Suc.prems(2,6) n3 this] obtain r' where
        r': "r' \<in> set (accounts (tables w4))" "ac_id r' = ac_id r" "ac_status r' = Expired" by blast
      have "r' \<in> set (accounts (tables w'))"
        using spares_stays [OF conjunct2 [OF job_loop_spares [OF turn(7) Suc.prems(2)]] r'(1)] r'(2) True by simp
      with r' show ?thesis by blast
    next
      case False
      have n4: "nothing_readable act sound (c, da_provider (claimed_account r), da_account_ref (claimed_account r)) w4"
        by (rule refresh_one_nothing [OF turn(6,2) Suc.prems(3) n3 Suc.prems(2)])
      have "r \<in> set (accounts (tables w4))" using spares_stays [OF one Suc.prems(5)] False by simp
      moreover have "ac_id r \<in> set att' - set (ac_id r0 # att)" using Suc.prems(8) False by simp
      ultimately show ?thesis
        by (rule Suc.IH [OF turn(7) Suc.prems(2,3) spares_distinct [OF one Suc.prems(4)] _ Suc.prems(6) n4])
    qed
  qed
qed simp

lemma job_run_expires:
  assumes "job_run J c w = (Ok (att, rep), w')" and "job_ports_still J" and "chrono_laws (e_chrono (jb_env J))"
    and "distinct (map ac_id (accounts (tables w)))" and "r \<in> set (accounts (tables w))"
    and "due (rs_refresh_window_seconds (jb_schedule J)) (clock w) r" and "ac_id r \<notin> set (locked w)"
    and "job_party J (claimed_account r) eps cl"
    and "nothing_readable act sound (c, da_provider (claimed_account r), da_account_ref (claimed_account r)) w"
    and "length att < nat (rs_refresh_batch_size (jb_schedule J))"
  shows "\<exists>r' \<in> set (accounts (tables w')). ac_id r' = ac_id r \<and> ac_status r' = Expired"
proof -
  have "ac_id r \<in> set att" using job_run_order [OF assms(1,2,4-7)] assms(10) by auto
  then show ?thesis
    using job_loop_expires [OF assms(1) [unfolded job_run_def] assms(2-5,8,9)] by simp
qed

end

subsection \<open>A run for another company\<close>

text \<open>A row that is not active is left alone by every run, whatever its result.\<close>

definition settled_row :: "account \<Rightarrow> 'x world \<Rightarrow> bool" where
  "settled_row r w \<longleftrightarrow> distinct (map ac_id (accounts (tables w))) \<and> r \<in> set (accounts (tables w)) \<and> ac_status r \<noteq> Active"

lemma settled_row_frame: "settled_row r w \<Longrightarrow> tables w' = tables w \<Longrightarrow> settled_row r w'"
  by (simp add: settled_row_def)

lemma settled_row_spared: "settled_row r w \<Longrightarrow> spares {i} w w' \<Longrightarrow> ac_id r \<noteq> i \<Longrightarrow> settled_row r w'"
  using spares_distinct [of "{i}" w w'] spares_stays [of "{i}" w w' r] by (simp add: settled_row_def)

lemma fan_out_settled:
  assumes "job_ports_still J" and "settled_row r w"
  shows "settled_row r (snd (refresh_for_companies J cs w))"
proof (rule fan_out_invariant [where I = "settled_row r", OF settled_row_frame _ assms(2)])
  fix r0 tx c rep and w :: "'a world"
  assume w: "settled_row r w" and "empty_tx tx" and r0: "r0 \<in> set (accounts (tables w))" "ac_status r0 = Active"
  then have "spares {ac_id r0} w (snd (refresh_one J tx c (claimed_account r0) rep w))"
    using spares_refresh_one [OF assms(1), of tx "claimed_account r0" w c rep] by (simp add: claimed_account_def)
  moreover have "ac_id r \<noteq> ac_id r0" using w r0 same_row by (metis settled_row_def)
  ultimately show "settled_row r (snd (refresh_one J tx c (claimed_account r0) rep w))"
    using w settled_row_spared by blast
qed

text \<open>
  C24.  The fan-out expires the accounts of the companies after the first.  The claim does not look at the
  company, only the store reads do: when the scopes of a fan-out share the account rows its sweeps can
  see, the first company's sweep claims every due account, and one whose credential the store holds for
  another company is not found and moved to expired, for ever, whoever owns it and however good its
  refresh token is.  This holds for every store that keeps its contract and answers, unless the batch is
  used up, and whatever the later sweeps of the fan-out do.
\<close>

theorem fan_out_expires_foreign:
  assumes "job_store J act sound" and "job_ports_still J" and "chrono_laws (e_chrono (jb_env J))"
    and "refresh_for_companies J (c # cs) w = (Ok ((c, Inr rep) # out), w')"
    and "rp_refreshed rep + rp_expired rep + rp_skipped rep < nat (rs_refresh_batch_size (jb_schedule J))"
    and "distinct (map ac_id (accounts (tables w)))" and "r \<in> set (accounts (tables w))"
    and "due (rs_refresh_window_seconds (jb_schedule J)) (clock w) r" and "ac_id r \<notin> set (locked w)"
    and "job_party J (claimed_account r) eps cl"
    and "sound (clock w) (ext w)" and "act (ext w) (c, oauth_provider_str (ac_provider r), ac_ref r) = None"
  shows "\<exists>r' \<in> set (accounts (tables w')). ac_id r' = ac_id r \<and> ac_status r' = Expired"
proof -
  obtain x w1 where x: "refresh_oauth_credentials J c w = (x, w1)" by fastforce
  with assms(4) have one: "refresh_oauth_credentials J c w = (Ok rep, w1)"
      and rest: "refresh_for_companies J cs w1 = (Ok out, w')"
    by (cases x; simp add: attempt_eq_Ok)+
  from one obtain att where run: "job_run J c w = (Ok (att, rep), w1)"
    by (auto simp: refresh_oauth_credentials_def attempt_eq_Ok)
  have few: "length att < nat (rs_refresh_batch_size (jb_schedule J))"
    using job_run_attempts [OF run assms(3)] assms(5) by (simp add: report_total_def)
  have "nothing_readable act sound (c, da_provider (claimed_account r), da_account_ref (claimed_account r)) w"
    using assms(11,12) by (simp add: nothing_readable_def claimed_account_def)
  from job_store.job_run_expires [OF assms(1) run assms(2,3,6-10) this few]
  obtain r' where r': "r' \<in> set (accounts (tables w1))" "ac_id r' = ac_id r" "ac_status r' = Expired" by blast
  have "distinct (map ac_id (accounts (tables w1)))"
    using spares_distinct [OF conjunct2 [OF job_loop_spares [OF run [unfolded job_run_def] assms(2)]] assms(6)] .
  with r' have "settled_row r' w1" by (simp add: settled_row_def)
  from fan_out_settled [OF assms(2) this, of cs] rest r' show ?thesis by (auto simp: settled_row_def)
qed

subsection \<open>The gap between two ticks\<close>

text \<open>The job's interval, as the declared schedule \<open>*/15 * * * *\<close> has it, in seconds.\<close>

definition job_interval_seconds :: int where
  "job_interval_seconds = 15 * 60"

text \<open>An account that is not due when a run ends was not attempted by it.\<close>

lemma job_loop_undue:
  "job_loop J company n att rep w = (Ok (att', rep'), w') \<Longrightarrow> job_ports_still J \<Longrightarrow>
    distinct (map ac_id (accounts (tables w))) \<Longrightarrow> r \<in> set (accounts (tables w)) \<Longrightarrow>
    \<not> due (rs_refresh_window_seconds (jb_schedule J)) (clock w') r \<Longrightarrow> ac_id r \<notin> set att' - set att"
proof (induction n arbitrary: att rep w)
  case (Suc n)
  from Suc.prems(1) show ?case
  proof (cases rule: job_loop_turn)
    case (turn r0 tx w3 rep1 w4)
    note one = turn_spares [OF Suc.prems(2) turn(2-6)]
    have "clock w \<le> clock w'"
      using job_loop_spares [OF Suc.prems(1,2)] by (simp add: spares_def)
    with Suc.prems(5) have "\<not> due (rs_refresh_window_seconds (jb_schedule J)) (clock w) r" using due_later by blast
    moreover have r0: "r0 \<in> set (accounts (tables w))" "due (rs_refresh_window_seconds (jb_schedule J)) (clock w) r0"
      using turn(1) by (simp_all add: claimable_def)
    ultimately have "r0 \<noteq> r" by blast
    with same_row [OF Suc.prems(3,4) r0(1)] have id: "ac_id r \<noteq> ac_id r0" by metis
    have "r \<in> set (accounts (tables w4))" using spares_stays [OF one Suc.prems(4)] id by simp
    from Suc.IH [OF turn(7) Suc.prems(2) spares_distinct [OF one Suc.prems(3)] this Suc.prems(5)] id
    show ?thesis by simp
  qed simp
qed simp

text \<open>
  C25.  A gap in the job's schedule costs connections, not only latency.  An active account that expires later
  than a window after one run of the job is left alone by it; if the next run comes at or after that
  expiry, the store no longer hands out the credential, and the run moves the account to expired whatever
  refresh token the credential carries and whatever the provider would have answered.  The
  default window of 600 seconds is shorter than the declared interval of 900, so there are such accounts
  even when no run is late: those that expire in the 300 seconds between.
\<close>

theorem schedule_gap_expires:
  assumes "job_store J act sound" and "job_ports_still J" and "chrono_laws (e_chrono (jb_env J))"
    and "job_run J company w1 = (Ok (att1, rep1), v1)"
    and "distinct (map ac_id (accounts (tables w1)))" and "r \<in> set (accounts (tables w1))"
    and "ac_status r = Active" and "ac_expires_at r = Some e"
    and "clock v1 + micros (rs_refresh_window_seconds (jb_schedule J)) \<le> e"
    and "tables w2 = tables v1" and "e \<le> clock w2" and "0 < rs_refresh_window_seconds (jb_schedule J)"
    and "ac_id r \<notin> set (locked w2)" and "job_party J (claimed_account r) eps cl"
    and "sound (clock w2) (ext w2)"
    and "act (ext w2) (company, oauth_provider_str (ac_provider r), ac_ref r) = Some b" and "tb_expires_at b = e"
    and "job_run J company w2 = (Ok (att2, rep2), v2)" and "length att2 < nat (rs_refresh_batch_size (jb_schedule J))"
  shows "rs_refresh_window_seconds default_schedule < job_interval_seconds \<and>
    ac_id r \<notin> set att1 \<and> r \<in> set (accounts (tables v1)) \<and>
    (\<exists>r' \<in> set (accounts (tables v2)). ac_id r' = ac_id r \<and> ac_status r' = Expired)"
proof -
  note first = assms(4) [unfolded job_run_def]
  have "\<not> due (rs_refresh_window_seconds (jb_schedule J)) (clock v1) r" using assms(8,9) by (simp add: due_def)
  from job_loop_undue [OF first assms(2,5,6) this] have out: "ac_id r \<notin> set att1" by simp
  note sp = conjunct2 [OF job_loop_spares [OF first assms(2)]]
  have v1: "r \<in> set (accounts (tables v1))" using spares_stays [OF sp assms(6)] out by simp
  have late: "due (rs_refresh_window_seconds (jb_schedule J)) (clock w2) r"
    using assms(7,8,11,12) by (simp add: due_def micros_def)
  have gone: "nothing_readable act sound (company, da_provider (claimed_account r), da_account_ref (claimed_account r)) w2"
    using assms(11,15-17) by (simp add: nothing_readable_def claimed_account_def)
  have "distinct (map ac_id (accounts (tables w2)))" "r \<in> set (accounts (tables w2))"
    using spares_distinct [OF sp assms(5)] v1 assms(10) by simp_all
  from job_store.job_run_expires [OF assms(1,18,2,3) this late assms(13,14) gone assms(19)] out v1
  show ?thesis by (simp add: job_interval_seconds_def default_schedule_def)
qed

subsection \<open>Concrete runs\<close>

lemma demo_job_still: "job_ports_still demo_job"
  by (auto simp: job_ports_still_def still_def demo_job_def answering_def lifted_store_def lift_call_def split: prod.split)

lemma demo_job_parts:
  "jb_store demo_job = lifted_store" "e_chrono (jb_env demo_job) = ranged_chrono" "jb_schedule demo_job = default_schedule"
  "rs_refresh_window_seconds default_schedule = 600" "rs_refresh_batch_size default_schedule = 100"
  by (simp_all add: demo_job_def demo_env_def default_schedule_def)

lemma store_answers [simp]:
  "\<not> is_transport failure_not_found" "\<not> is_transport (failure_not_active st)" "\<not> is_transport failure_expired"
  by (simp_all add: is_transport_def failure_not_found_def failure_not_active_def failure_expired_def failure_codes)

interpretation demo: job_store demo_job fake_active ready
proof (rule job_store.intro)
  show "credential_store (jb_store demo_job) (\<lambda>w. fake_active (ext w)) clock (\<lambda>w. ready (clock w) (ext w))"
    unfolding demo_job_parts(1) by (rule lifted.credential_store_axioms)
  show "job_store_axioms demo_job fake_active ready"
  proof
    show "\<not> is_transport f" if "ready (clock w) (ext w)" "st_read_token (jb_store demo_job) c p a w = (Err f, w')"
      for w :: "fake_store world" and c p a f w'
      using lifted_run [OF that(2) [unfolded demo_job_parts(1) lifted_verbs]] that(1)
      by (auto simp: ready_def fake_verbs split: option.splits if_splits)
    show "ready (clock w') (ext w') \<and> fake_active (ext w') = fake_active (ext w)"
      if "ready (clock w) (ext w)" "tp_exchange (jb_transport demo_job) e form w = (r, w')"
      for w w' :: "fake_store world" and e form r
      using that by (simp add: demo_job_def answering_def)
  qed
qed

definition expired_once :: refresh_report where
  "expired_once = \<lparr>rp_refreshed = 0, rp_expired = 1, rp_skipped = 0\<rparr>"

lemma demo_party:
  obtains eps cl where "job_party demo_job (claimed_account (demo_account st e)) eps cl"
proof -
  obtain eps where "resolve_endpoints plain_url_lib registry_with_builtin ''gmail'' [] = Ok eps"
    using builtin_resolves [of "''gmail''"] by auto
  then show ?thesis
    using that by (fastforce simp: job_party_def demo_job_def demo_env_def claimed_account_def demo_account_def clients_get_def btree_get_def)
qed

lemma demo_idle_run:
  assumes "faults w = []" and "\<And>r. r \<in> set (accounts (tables w)) \<Longrightarrow> \<not> due 600 (clock w) r"
  shows "job_run demo_job c w = (Ok ([], empty_report), w)"
proof -
  have n: "nat (rs_refresh_batch_size (jb_schedule demo_job)) = Suc 99" by (simp add: demo_job_parts)
  have c: "oldest (filter (\<lambda>r. due (rs_refresh_window_seconds (jb_schedule demo_job)) (clock w) r
      \<and> ac_id r \<notin> set [] \<and> ac_id r \<notin> set (locked w)) (accounts (tables w))) = None"
    using assms(2) by (simp add: filter_empty_conv demo_job_parts)
  show ?thesis unfolding job_run_def n job_loop_quiet_turn [OF assms(1) c] by simp
qed

lemma demo_dead_run:
  assumes "st_read_token lifted_store c ''gmail'' ''a@b.c'' (gap_world t e) = (Err f, (gap_world t e)\<lparr>ext := x\<rparr>)"
    and "\<not> is_transport f" and "e < t + micros 600"
  shows "\<exists>w'. job_run demo_job c (gap_world t e) = (Ok ([7], expired_once), w') \<and>
    map ac_status (accounts (tables w')) = [Expired] \<and> faults w' = [] \<and> ext w' = x"
proof -
  let ?w = "gap_world t e" and ?r = "demo_account Active (Some e)"
  define w1 where "w1 = ?w\<lparr>ext := x, tables := snd (projr (job_expire 7 t (tables ?w)))\<rparr>"
  have f: "faults ?w = []" by (simp add: gap_world_def demo_world_def)
  have n: "nat (rs_refresh_batch_size (jb_schedule demo_job)) = Suc (Suc 98)" by (simp add: demo_job_parts)
  have c: "oldest (filter (\<lambda>r. due (rs_refresh_window_seconds (jb_schedule demo_job)) (clock ?w) r
      \<and> ac_id r \<notin> set [] \<and> ac_id r \<notin> set (locked ?w)) (accounts (tables ?w))) = Some ?r"
    using assms(3) by (simp add: gap_world_def demo_world_def due_def demo_account_def oldest_def demo_job_parts)
  obtain eps cl where p: "job_party demo_job (claimed_account ?r) eps cl" by (rule demo_party)
  have a: "da_provider (claimed_account ?r) = ''gmail''" "da_account_ref (claimed_account ?r) = ''a@b.c''"
      "da_id (claimed_account ?r) = 7" "ac_id ?r = 7" by (simp_all add: claimed_account_def demo_account_def)
  have "job_expired id 7 empty_report (?w\<lparr>ext := x\<rparr>) = (Ok expired_once, w1)"
    by (simp add: job_expired_def expire_account_def no_fault_calls f job_expire_def update_accounts_def
        empty_report_def expired_once_def w1_def gap_world_def demo_world_def)
  then have one: "refresh_one demo_job id c (claimed_account ?r) empty_report ?w = (Ok expired_once, w1)"
    using p assms(1,2) by (simp add: refresh_one_def job_party_def a demo_job_parts)
  have w1: "map ac_status (accounts (tables w1)) = [Expired]" "faults w1 = []" "ext w1 = x"
    by (simp_all add: w1_def job_expire_def update_accounts_def update_where_def gap_world_def demo_world_def demo_account_def)
  have "\<not> due wd t' r" if "r \<in> set (accounts (tables w1))" for r wd t'
    using that w1(1) by (auto simp: due_def map_eq_Cons_conv)
  then have c1: "oldest (filter (\<lambda>r. due (rs_refresh_window_seconds (jb_schedule demo_job)) (clock w1) r
      \<and> ac_id r \<notin> set [7] \<and> ac_id r \<notin> set (locked w1)) (accounts (tables w1))) = None"
    by (simp add: filter_empty_conv)
  have "job_run demo_job c ?w = (Ok ([7], expired_once), w1)"
    unfolding job_run_def n job_loop_quiet_turn [OF f c] option.case one attempt.simps a(4) job_loop_quiet_turn [OF w1(2) c1] ..
  then show ?thesis using w1 by (intro exI [of _ w1] conjI)
qed


text \<open>Company 1's account, due and with a good credential, in a fan-out over the companies 2 and 1.\<close>

theorem fan_out_expires_foreign_witness:
  "\<exists>w'. refresh_for_companies demo_job [2, 1] (gap_world 0 soon) = (Ok [(2, Inr expired_once), (1, Inr empty_report)], w') \<and>
    fk_rows (ext w') = [credential_row ''gmail'' soon] \<and>
    (\<exists>r' \<in> set (accounts (tables w')). ac_id r' = 7 \<and> ac_status r' = Expired)"
proof -
  let ?w = "gap_world 0 soon"
  have i: "active_row_index (fk_rows (ext ?w)) 2 ''gmail'' ''a@b.c'' = None"
    by (simp add: gap_world_def credential_row_def fake_row_def active_row_index_def fake_matches_def)
  then have none: "fake_active (ext ?w) (2, ''gmail'', ''a@b.c'') = None" by (simp add: fake_no_row)
  have rd: "st_read_token lifted_store 2 ''gmail'' ''a@b.c'' ?w
      = (Err failure_not_found, ?w\<lparr>ext := fake_log (Read 2 ''gmail'' ''a@b.c'') (ext ?w)\<rparr>)"
    by (simp add: lifted_store_def lift_call_def fake_read_token_def fake_gate_def fake_log_def Let_def gap_world_def
        credential_row_def fake_row_def demo_store_def demo_world_def active_row_index_def fake_matches_def)
  obtain w1 where w1: "job_run demo_job 2 ?w = (Ok ([7], expired_once), w1)" "map ac_status (accounts (tables w1)) = [Expired]"
      "faults w1 = []" "ext w1 = fake_log (Read 2 ''gmail'' ''a@b.c'') (ext ?w)"
    by (rule exE [OF demo_dead_run [OF rd]]) (simp_all add: micros_def)
  have "job_run demo_job 1 w1 = (Ok ([], empty_report), w1)"
    by (rule demo_idle_run [OF w1(3)]) (use w1(2) in \<open>auto simp: due_def map_eq_Cons_conv\<close>)
  with w1(1) have run: "refresh_for_companies demo_job [2, 1] ?w = (Ok [(2, Inr expired_once), (1, Inr empty_report)], w1)"
    by (simp add: refresh_oauth_credentials_def)
  obtain eps cl where p: "job_party demo_job (claimed_account due_soon) eps cl" by (rule demo_party)
  have laws: "chrono_laws (e_chrono (jb_env demo_job))" by (simp add: demo_job_parts ranged_chrono_laws)
  have "\<exists>r' \<in> set (accounts (tables w1)). ac_id r' = ac_id due_soon \<and> ac_status r' = Expired"
    by (rule fan_out_expires_foreign [OF demo.job_store_axioms demo_job_still laws run _ _ _ _ _ p])
      (use none in \<open>simp_all add: expired_once_def demo_job_parts gap_world_def demo_world_def demo_account_def due_def
        micros_def ready_def demo_store_def\<close>)
  with run w1(4) show ?thesis
    by (intro exI [of _ w1]) (simp add: demo_account_def fake_log_def gap_world_def)
qed

text \<open>A run at 0 and the next one an interval later; the account expires at 700 seconds.\<close>

theorem schedule_gap_expires_witness:
  "rs_refresh_window_seconds default_schedule < 700 \<and> 700 < job_interval_seconds \<and>
   job_run demo_job 1 (gap_world 0 (micros 700)) = (Ok ([], empty_report), gap_world 0 (micros 700)) \<and>
   (\<exists>w'. job_run demo_job 1 (gap_world (micros job_interval_seconds) (micros 700)) = (Ok ([7], expired_once), w') \<and>
     (\<exists>r' \<in> set (accounts (tables w')). ac_id r' = 7 \<and> ac_status r' = Expired) \<and>
     fk_rows (ext w') = [credential_row ''gmail'' (micros 700)] \<and>
     sc_refresh_token (credential_row ''gmail'' (micros 700)) = Some ''rt'')"
proof -
  let ?w1 = "gap_world 0 (micros 700)" and ?w2 = "gap_world (micros job_interval_seconds) (micros 700)"
  let ?r = "demo_account Active (Some (micros 700))"
  have first: "job_run demo_job 1 ?w1 = (Ok ([], empty_report), ?w1)"
    by (rule demo_idle_run) (auto simp: gap_world_def demo_world_def due_def demo_account_def micros_def)
  have rd: "st_read_token lifted_store 1 ''gmail'' ''a@b.c'' ?w2
      = (Err failure_expired, ?w2\<lparr>ext := fake_log (Read 1 ''gmail'' ''a@b.c'') (ext ?w2)\<rparr>)"
    by (rule gap_read) (simp add: job_interval_seconds_def micros_def)
  obtain w' where second: "job_run demo_job 1 ?w2 = (Ok ([7], expired_once), w')"
      "ext w' = fake_log (Read 1 ''gmail'' ''a@b.c'') (ext ?w2)"
    by (rule exE [OF demo_dead_run [OF rd]]) (simp_all add: micros_def job_interval_seconds_def)
  obtain eps cl where p: "job_party demo_job (claimed_account ?r) eps cl" by (rule demo_party)
  have laws: "chrono_laws (e_chrono (jb_env demo_job))" by (simp add: demo_job_parts ranged_chrono_laws)
  have act: "fake_active (ext ?w2) (1, ''gmail'', ''a@b.c'') = Some (token_bundle_new ''at'' (Some ''rt'') (micros 700) None)"
    by (simp add: fake_active_def rows_active_def gap_world_def live_def fake_matches_def credential_row_def fake_row_def
        bundle_of_def token_bundle_new_def)
  have "rs_refresh_window_seconds default_schedule < job_interval_seconds \<and>
    ac_id ?r \<notin> set [] \<and> ?r \<in> set (accounts (tables ?w1)) \<and>
    (\<exists>r' \<in> set (accounts (tables w')). ac_id r' = ac_id ?r \<and> ac_status r' = Expired)"
    by (rule schedule_gap_expires [OF demo.job_store_axioms demo_job_still laws first _ _ _ _ _ _ _ _ _ p _ _ _ second(1)])
      (use act in \<open>simp_all add: demo_job_parts gap_world_def demo_world_def demo_account_def micros_def ready_def demo_store_def
        job_interval_seconds_def token_bundle_new_def\<close>)
  then show ?thesis
    using first second
    by (auto simp: demo_job_parts job_interval_seconds_def demo_account_def fake_log_def gap_world_def credential_row_def
        fake_row_def token_bundle_new_def)
qed

end
