(* ===== verification/Partial_Update.thy ===== *)
theory Partial_Update
  imports Outside
begin

text \<open>
  What the generated \<open>apply_patch\<close> of the three entities shares: \<open>serde_json::from_value\<close> at the
  types of their entries, and the loop over the entries of the patch.  The entries come from a
  \<open>HashMap\<close>, so the loop sees them in an unspecified order, each key once; the lemma at the end
  gives the effect on one field without mentioning an order.
\<close>

subsection \<open>serde_json::from_value\<close>

text \<open>\<open>None\<close> is a decoding error.  A unit variant is its label, or an object with the label as its
  only key and \<open>null\<close> below it.\<close>

fun decode_string :: "json \<Rightarrow> string option" where
  "decode_string (JString s) = Some s"
| "decode_string _ = None"

fun decode_parsed :: "(string \<Rightarrow> 'a option) \<Rightarrow> json \<Rightarrow> 'a option" where
  "decode_parsed p (JString s) = p s"
| "decode_parsed p _ = None"

fun decode_enum :: "('a \<Rightarrow> string) \<Rightarrow> 'a list \<Rightarrow> json \<Rightarrow> 'a option" where
  "decode_enum label vs (JString s) = find (\<lambda>v. label v = s) vs"
| "decode_enum label vs (JObject [(s, JNull)]) = find (\<lambda>v. label v = s) vs"
| "decode_enum label vs _ = None"

definition decode_opt :: "(json \<Rightarrow> 'a option) \<Rightarrow> json \<Rightarrow> 'a option option" where
  "decode_opt d j = (if j = JNull then Some None else map_option Some (d j))"

text \<open>Decoding undoes encoding.\<close>

lemma decode_enum_label:
  assumes "inj label" and "v \<in> set vs"
  shows "decode_enum label vs (JString (label v)) = Some v"
proof -
  have "find (\<lambda>x. label x = label v) vs = find (\<lambda>x. x = v) vs"
    using assms(1) by (simp add: inj_eq)
  also have "\<dots> = Some v"
    using assms(2) by (induction vs) auto
  finally show ?thesis by simp
qed

subsection \<open>One entry, and the loop\<close>

text \<open>\<open>if let Ok(v) = serde_json::from_value(value) { self.field = v; }\<close>\<close>

definition assign :: "(json \<Rightarrow> 'a option) \<Rightarrow> (('a \<Rightarrow> 'a) \<Rightarrow> 'e \<Rightarrow> 'e) \<Rightarrow> json \<Rightarrow> 'e \<Rightarrow> 'e" where
  "assign decode upd v e = (case decode v of Some x \<Rightarrow> upd (\<lambda>_. x) e | None \<Rightarrow> e)"

text \<open>Assigning is setting the field to the decoded value, or to its old one.\<close>

definition decoded :: "(json \<Rightarrow> 'a option) \<Rightarrow> json \<Rightarrow> 'a \<Rightarrow> 'a" where
  "decoded decode v old = (case decode v of None \<Rightarrow> old | Some x \<Rightarrow> x)"

lemma assign_decoded:
  "upd (\<lambda>_. get e) e = e \<Longrightarrow> assign decode upd v e = upd (\<lambda>_. decoded decode v (get e)) e"
  by (simp add: assign_def decoded_def split: option.split)

text \<open>The value a patch gives a field whose old value is \<open>old\<close>.\<close>

definition patched :: "(json \<Rightarrow> 'a option) \<Rightarrow> (string \<times> json) list \<Rightarrow> string \<Rightarrow> 'a \<Rightarrow> 'a" where
  "patched decode entries key old =
    (case map_of entries key of
       None \<Rightarrow> old
     | Some v \<Rightarrow> decoded decode v old)"

lemma patched_Nil [simp]: "patched d [] key old = old"
  by (simp add: patched_def)

lemma patched_absent: "key \<notin> fst ` set entries \<Longrightarrow> patched d entries key old = old"
  by (auto simp: patched_def split: option.split dest: map_of_SomeD intro: rev_image_eqI)

text \<open>A permutation of the entries is the same patch.\<close>

lemma patched_order:
  assumes "distinct (map fst entries)" and "distinct (map fst entries')" and "set entries = set entries'"
  shows "patched d entries key old = patched d entries' key old"
  using map_of_inject_set [OF assms(1,2)] assms(3) by (simp add: patched_def)

lemma fold_field:
  assumes step: "\<And>k v e. get (step (k, v) e) =
      (if k = key then decoded decode v (get e) else get e)"
    and "distinct (map fst entries)"
  shows "get (fold step entries e) = patched decode entries key (get e)"
  using assms(2)
proof (induction entries arbitrary: e)
  case (Cons p ps)
  obtain k v where p: "p = (k, v)" by (cases p)
  with Cons.prems have *: "distinct (map fst ps)" "k \<notin> fst ` set ps" by auto
  have "get (fold step (p # ps) e) = patched decode ps key (get (step (k, v) e))"
    using Cons.IH [OF *(1)] by (simp add: p)
  also have "\<dots> = patched decode (p # ps) key (get e)"
  proof (cases "k = key")
    case True
    then show ?thesis
      using *(2) by (simp add: step p patched_absent) (simp add: patched_def)
  next
    case False
    then show ?thesis by (simp add: step p) (simp add: patched_def)
  qed
  finally show ?case .
qed simp

lemma fold_frame:
  assumes "\<And>k v e. get (step (k, v) e) = get e"
  shows "get (fold step entries e) = get e"
  using assms by (induction entries arbitrary: e) auto

end
