(* ===== verification/Persistent.thy ===== *)
theory Persistent
  imports Partial_Update
begin

text \<open>
  The decoders of the six enums, and the contract of \<open>backbone_core::PersistentEntity\<close>, the trait the
  generic repository and service read and stamp the entities through: each setter is seen by its own
  getter and by no other, and an id that does not parse changes nothing.
\<close>

subsection \<open>Enum labels in JSON\<close>

definition decode_oauth_provider :: "json \<Rightarrow> oauth_provider option" where
  "decode_oauth_provider = decode_enum oauth_provider_str [Gmail, Outlook, GoogleCalendar, MicrosoftCalendar]"

definition decode_account_status :: "json \<Rightarrow> account_status option" where
  "decode_account_status = decode_enum account_status_str [Pending, Active, Expired, Revoked]"

definition decode_connector_kind :: "json \<Rightarrow> connector_kind option" where
  "decode_connector_kind = decode_enum connector_kind_str [PaymentGateway, Marketplace, BankFeed, Courier]"

definition decode_connector_direction :: "json \<Rightarrow> connector_direction option" where
  "decode_connector_direction = decode_enum connector_direction_str [Inbound, Outbound, Both]"

definition decode_connector_status :: "json \<Rightarrow> connector_status option" where
  "decode_connector_status = decode_enum connector_status_str [Enabled, Disabled]"

definition decode_integration_status :: "json \<Rightarrow> integration_status option" where
  "decode_integration_status = decode_enum integration_status_str [Received, Mapped, Ignored, Failed]"

lemmas decode_enums =
  decode_oauth_provider_def decode_account_status_def decode_connector_kind_def
  decode_connector_direction_def decode_connector_status_def decode_integration_status_def

text \<open>Every label decodes to its variant: the lists above are complete.\<close>

lemma decode_labels [simp]:
  "decode_oauth_provider (JString (oauth_provider_str p)) = Some p"
  "decode_account_status (JString (account_status_str s)) = Some s"
  "decode_connector_kind (JString (connector_kind_str k)) = Some k"
  "decode_connector_direction (JString (connector_direction_str d)) = Some d"
  "decode_connector_status (JString (connector_status_str c)) = Some c"
  "decode_integration_status (JString (integration_status_str i)) = Some i"
  subgoal by (cases p) (simp_all add: decode_enums)
  subgoal by (cases s) (simp_all add: decode_enums)
  subgoal by (cases k) (simp_all add: decode_enums)
  subgoal by (cases d) (simp_all add: decode_enums)
  subgoal by (cases c) (simp_all add: decode_enums)
  subgoal by (cases i) (simp_all add: decode_enums)
  done

subsection \<open>PersistentEntity\<close>

locale persistent_entity =
  fixes X :: uuid_text
    and entity_id :: "'e \<Rightarrow> string"
    and set_entity_id :: "string \<Rightarrow> 'e \<Rightarrow> 'e"
    and get_created :: "'e \<Rightarrow> datetime option"
    and set_created_at :: "datetime \<Rightarrow> 'e \<Rightarrow> 'e"
    and get_updated :: "'e \<Rightarrow> datetime option"
    and set_updated_at :: "datetime \<Rightarrow> 'e \<Rightarrow> 'e"
    and get_deleted :: "'e \<Rightarrow> datetime option"
    and set_deleted_at :: "datetime option \<Rightarrow> 'e \<Rightarrow> 'e"
  assumes id_printed: "\<exists>u. entity_id e = show_uuid X u"
    and set_id: "read_uuid X s = Some u \<Longrightarrow> entity_id (set_entity_id s e) = show_uuid X u"
    and set_id_same: "set_entity_id (entity_id e) e = e"
    and set_id_bad: "read_uuid X s = None \<Longrightarrow> set_entity_id s e = e"
    and created_seen: "get_created (set_created_at t e) = Some t"
    and updated_seen: "get_updated (set_updated_at t e) = Some t"
    and deleted_seen: "get_deleted (set_deleted_at d e) = d"
    and deleted_last: "set_deleted_at d (set_deleted_at d' e) = set_deleted_at d e"
    and deleted_same: "set_deleted_at (get_deleted e) e = e"
    and apart:
      "entity_id (set_created_at t e) = entity_id e" "entity_id (set_updated_at t e) = entity_id e"
      "entity_id (set_deleted_at d e) = entity_id e"
      "get_created (set_updated_at t e) = get_created e" "get_created (set_deleted_at d e) = get_created e"
      "get_updated (set_created_at t e) = get_updated e" "get_updated (set_deleted_at d e) = get_updated e"
      "get_deleted (set_created_at t e) = get_deleted e" "get_deleted (set_updated_at t e) = get_deleted e"
begin

text \<open>Restoring after a soft delete gives the entity back; stamping never changes its identity.\<close>

lemma restore_deleted: "get_deleted e = None \<Longrightarrow> set_deleted_at None (set_deleted_at (Some t) e) = e"
  using deleted_last deleted_same by metis

lemma stamps_keep_id:
  "entity_id (set_deleted_at d (set_updated_at t (set_created_at t' e))) = entity_id e"
  by (simp add: apart)

end

end
