(* ===== verification/Account_Entity.thy ===== *)
theory Account_Entity
  imports Persistent
begin

text \<open>
  The entity \<open>IntegrationAccount\<close> (\<open>domain/entity/integration_account.rs\<close>): its typed id,
  constructor, chained setters, partial update, the traits the generic repository and service use it through, and
  its builder.  \<open>Uuid::new_v4()\<close> is an argument; \<open>T\<close> reads an instant from its JSON string (chrono).
\<close>

subsection \<open>The typed id\<close>

datatype account_id = Account_Id (account_uuid: uuid)

definition account_id_str :: "uuid_text \<Rightarrow> account_id \<Rightarrow> string" where
  "account_id_str X i = show_uuid X (account_uuid i)"

definition account_id_from_str :: "uuid_text \<Rightarrow> string \<Rightarrow> account_id option" where
  "account_id_from_str X s = map_option Account_Id (read_uuid X s)"

lemma account_id_roundtrip: "uuid_laws X \<Longrightarrow> account_id_from_str X (account_id_str X i) = Some i"
  by (simp add: account_id_from_str_def account_id_str_def uuid_lawsD)

subsection \<open>Construction\<close>

definition new_account :: "uuid \<Rightarrow> oauth_provider \<Rightarrow> string \<Rightarrow> account_status \<Rightarrow> string \<Rightarrow> account" where
  "new_account u provider account_ref status scopes =
     \<lparr>ac_id = u, ac_provider = provider, ac_ref = account_ref, ac_status = status,
       ac_scopes = scopes, ac_pkce = None, ac_expires_at = None, ac_last_refreshed = None,
       ac_metadata = default_audit\<rparr>"

definition account_typed_id :: "account \<Rightarrow> account_id" where
  "account_typed_id e = Account_Id (ac_id e)"

definition account_is_deleted :: "account \<Rightarrow> bool" where
  "account_is_deleted e = is_deleted (ac_metadata e)"

definition account_is_active :: "account \<Rightarrow> bool" where
  "account_is_active e = is_active (ac_metadata e)"

definition with_pkce_verifier :: "string \<Rightarrow> account \<Rightarrow> account" where
  "with_pkce_verifier x e = e\<lparr>ac_pkce := Some x\<rparr>"

definition with_expires_at :: "datetime \<Rightarrow> account \<Rightarrow> account" where
  "with_expires_at x e = e\<lparr>ac_expires_at := Some x\<rparr>"

definition with_last_refreshed_at :: "datetime \<Rightarrow> account \<Rightarrow> account" where
  "with_last_refreshed_at x e = e\<lparr>ac_last_refreshed := Some x\<rparr>"

subsection \<open>Partial update\<close>

text \<open>One turn of the loop of \<open>apply_patch\<close>; unknown keys are ignored.\<close>

fun patch_account_field :: "(string \<Rightarrow> datetime option) \<Rightarrow> string \<times> json \<Rightarrow> account \<Rightarrow> account" where
  "patch_account_field T (key, v) e =
    (if key = ''provider'' then assign decode_oauth_provider ac_provider_update v e else
     if key = ''account_ref'' then assign decode_string ac_ref_update v e else
     if key = ''status'' then assign decode_account_status ac_status_update v e else
     if key = ''scopes'' then assign decode_string ac_scopes_update v e else
     if key = ''pkce_verifier'' then assign (decode_opt decode_string) ac_pkce_update v e else
     if key = ''expires_at'' then assign (decode_opt (decode_parsed T)) ac_expires_at_update v e
         else
     if key = ''last_refreshed_at'' then assign (decode_opt (decode_parsed T))
         ac_last_refreshed_update v e else e)"

definition apply_patch_account :: "(string \<Rightarrow> datetime option) \<Rightarrow> (string \<times> json) list \<Rightarrow> account \<Rightarrow>
    account" where
  "apply_patch_account T entries e = fold (patch_account_field T) entries e"

subsection \<open>The traits of the generic repository\<close>

definition account_entity_id :: "uuid_text \<Rightarrow> account \<Rightarrow> string" where
  "account_entity_id X e = show_uuid X (ac_id e)"

definition account_set_entity_id :: "uuid_text \<Rightarrow> string \<Rightarrow> account \<Rightarrow> account" where
  "account_set_entity_id X s e = (case read_uuid X s of Some u \<Rightarrow> e\<lparr>ac_id := u\<rparr> | None \<Rightarrow> e)"

definition account_created_at :: "account \<Rightarrow> datetime option" where
  "account_created_at e = created_at (ac_metadata e)"

definition account_set_created_at :: "datetime \<Rightarrow> account \<Rightarrow> account" where
  "account_set_created_at t e = e\<lparr>ac_metadata := (ac_metadata e)\<lparr>created_at := Some t\<rparr>\<rparr>"

definition account_updated_at :: "account \<Rightarrow> datetime option" where
  "account_updated_at e = updated_at (ac_metadata e)"

definition account_set_updated_at :: "datetime \<Rightarrow> account \<Rightarrow> account" where
  "account_set_updated_at t e = e\<lparr>ac_metadata := (ac_metadata e)\<lparr>updated_at := Some t\<rparr>\<rparr>"

definition account_deleted_at :: "account \<Rightarrow> datetime option" where
  "account_deleted_at e = deleted_at (ac_metadata e)"

definition account_set_deleted_at :: "datetime option \<Rightarrow> account \<Rightarrow> account" where
  "account_set_deleted_at t e = e\<lparr>ac_metadata := (ac_metadata e)\<lparr>deleted_at := t\<rparr>\<rparr>"

definition account_column_types :: "string \<rightharpoonup> string" where
  "account_column_types = [''id'' \<mapsto> ''uuid'',
     ''provider'' \<mapsto> ''o_auth_provider'',
     ''status'' \<mapsto> ''integration_account_status'',
     ''expires_at'' \<mapsto> ''timestamptz'',
     ''last_refreshed_at'' \<mapsto> ''timestamptz'']"

definition account_search_fields :: "string list" where
  "account_search_fields = [''account_ref'', ''scopes'']"

text \<open>The entity meets the contract of the trait.\<close>

lemmas account_entity_ops = 
  account_entity_id_def account_set_entity_id_def account_created_at_def 
  account_set_created_at_def account_updated_at_def account_set_updated_at_def 
  account_deleted_at_def account_set_deleted_at_def

lemma account_persistent:
  assumes "uuid_laws X"
  shows "persistent_entity X (account_entity_id X) (account_set_entity_id X) 
    account_created_at account_set_created_at account_updated_at account_set_updated_at
        account_deleted_at account_set_deleted_at"
  by unfold_locales (auto simp: account_entity_ops uuid_lawsD [OF assms] split: option.splits)

interpretation account_entity: persistent_entity bit_uuids "account_entity_id bit_uuids"
  "account_set_entity_id bit_uuids" account_created_at account_set_created_at
  account_updated_at account_set_updated_at account_deleted_at account_set_deleted_at
  by (rule account_persistent [OF bit_uuids_laws])

subsection \<open>The builder\<close>

record account_builder =
  acb_provider :: "oauth_provider option"
  acb_account_ref :: "string option"
  acb_status :: "account_status option"
  acb_scopes :: "string option"
  acb_pkce_verifier :: "string option"
  acb_expires_at :: "datetime option"
  acb_last_refreshed_at :: "datetime option"

definition default_account_builder :: account_builder where
  "default_account_builder =
     \<lparr>acb_provider = None,
      acb_account_ref = None,
      acb_status = None,
      acb_scopes = None,
      acb_pkce_verifier = None,
      acb_expires_at = None,
      acb_last_refreshed_at = None\<rparr>"

definition account_builder_provider :: "oauth_provider \<Rightarrow> account_builder \<Rightarrow> account_builder" where
  "account_builder_provider x b = b\<lparr>acb_provider := Some x\<rparr>"

definition account_builder_account_ref :: "string \<Rightarrow> account_builder \<Rightarrow> account_builder" where
  "account_builder_account_ref x b = b\<lparr>acb_account_ref := Some x\<rparr>"

definition account_builder_status :: "account_status \<Rightarrow> account_builder \<Rightarrow> account_builder" where
  "account_builder_status x b = b\<lparr>acb_status := Some x\<rparr>"

definition account_builder_scopes :: "string \<Rightarrow> account_builder \<Rightarrow> account_builder" where
  "account_builder_scopes x b = b\<lparr>acb_scopes := Some x\<rparr>"

definition account_builder_pkce_verifier :: "string \<Rightarrow> account_builder \<Rightarrow> account_builder" where
  "account_builder_pkce_verifier x b = b\<lparr>acb_pkce_verifier := Some x\<rparr>"

definition account_builder_expires_at :: "datetime \<Rightarrow> account_builder \<Rightarrow> account_builder" where
  "account_builder_expires_at x b = b\<lparr>acb_expires_at := Some x\<rparr>"

definition account_builder_last_refreshed_at :: "datetime \<Rightarrow> account_builder \<Rightarrow> account_builder" where
  "account_builder_last_refreshed_at x b = b\<lparr>acb_last_refreshed_at := Some x\<rparr>"

definition build_account :: "uuid \<Rightarrow> account_builder \<Rightarrow> (string, account) res" where
  "build_account u b =
     and_then (ok_or ''provider is required'' (acb_provider b)) (\<lambda>provider.
     and_then (ok_or ''account_ref is required'' (acb_account_ref b)) (\<lambda>account_ref.
     Ok \<lparr>ac_id = u, ac_provider = provider, ac_ref = account_ref,
       ac_status = (case acb_status b of Some x \<Rightarrow> x | None \<Rightarrow> default_account_status),
       ac_scopes = (case acb_scopes b of Some x \<Rightarrow> x | None \<Rightarrow> []),
       ac_pkce = acb_pkce_verifier b, ac_expires_at = acb_expires_at b,
       ac_last_refreshed = acb_last_refreshed_at b, ac_metadata = default_audit\<rparr>))"

subsection \<open>What the operations do\<close>

lemma build_account_Ok:
  "build_account u b = Ok e \<longleftrightarrow>
    (\<exists>provider account_ref.
      acb_provider b = Some provider \<and> acb_account_ref b = Some account_ref \<and>
      e = \<lparr>ac_id = u, ac_provider = provider, ac_ref = account_ref,
       ac_status = (case acb_status b of Some x \<Rightarrow> x | None \<Rightarrow> default_account_status),
       ac_scopes = (case acb_scopes b of Some x \<Rightarrow> x | None \<Rightarrow> []),
       ac_pkce = acb_pkce_verifier b, ac_expires_at = acb_expires_at b,
       ac_last_refreshed = acb_last_refreshed_at b, ac_metadata = default_audit\<rparr>)"
  by (auto simp: build_account_def and_then_eq_Ok)

text \<open>Without optional fields the builder and the constructor agree.\<close>

lemma build_account_new:
  "build_account u (account_builder_scopes scopes (account_builder_status status
      (account_builder_account_ref account_ref (account_builder_provider provider
      default_account_builder)))) =
    Ok (new_account u provider account_ref status scopes)"
  by (simp add: build_account_def new_account_def default_account_builder_def
      account_builder_provider_def account_builder_account_ref_def account_builder_status_def
      account_builder_scopes_def)

lemmas account_assign =
  assign_decoded [where get = ac_provider and upd = ac_provider_update]
  assign_decoded [where get = ac_ref and upd = ac_ref_update]
  assign_decoded [where get = ac_status and upd = ac_status_update]
  assign_decoded [where get = ac_scopes and upd = ac_scopes_update]
  assign_decoded [where get = ac_pkce and upd = ac_pkce_update]
  assign_decoded [where get = ac_expires_at and upd = ac_expires_at_update]
  assign_decoded [where get = ac_last_refreshed and upd = ac_last_refreshed_update]

text \<open>One entry sets its own field alone, so the order of the loop does not matter.\<close>

lemma account_patch_step:
  "ac_provider (patch_account_field T (k, v) e) =
     (if k = ''provider'' then decoded decode_oauth_provider v (ac_provider e) else ac_provider e)"
  "ac_ref (patch_account_field T (k, v) e) =
     (if k = ''account_ref'' then decoded decode_string v (ac_ref e) else ac_ref e)"
  "ac_status (patch_account_field T (k, v) e) =
     (if k = ''status'' then decoded decode_account_status v (ac_status e) else ac_status e)"
  "ac_scopes (patch_account_field T (k, v) e) =
     (if k = ''scopes'' then decoded decode_string v (ac_scopes e) else ac_scopes e)"
  "ac_pkce (patch_account_field T (k, v) e) =
     (if k = ''pkce_verifier'' then decoded (decode_opt decode_string) v (ac_pkce e) else
       ac_pkce e)"
  "ac_expires_at (patch_account_field T (k, v) e) =
     (if k = ''expires_at'' then decoded (decode_opt (decode_parsed T)) v (ac_expires_at e) else
         ac_expires_at e)"
  "ac_last_refreshed (patch_account_field T (k, v) e) =
     (if k = ''last_refreshed_at'' then decoded (decode_opt (decode_parsed T)) v
       (ac_last_refreshed e) else ac_last_refreshed e)"
  "ac_id (patch_account_field T (k, v) e) = ac_id e"
  "ac_metadata (patch_account_field T (k, v) e) = ac_metadata e"
  by (simp_all add: account_assign)

lemma account_patch:
  assumes "distinct (map fst entries)"
  shows "apply_patch_account T entries e = e
     \<lparr>ac_provider := patched decode_oauth_provider entries ''provider'' (ac_provider e),
      ac_ref := patched decode_string entries ''account_ref'' (ac_ref e),
      ac_status := patched decode_account_status entries ''status'' (ac_status e),
      ac_scopes := patched decode_string entries ''scopes'' (ac_scopes e),
      ac_pkce := patched (decode_opt decode_string) entries ''pkce_verifier'' (ac_pkce e),
      ac_expires_at := patched (decode_opt (decode_parsed T)) entries ''expires_at''
       (ac_expires_at e),
      ac_last_refreshed := patched (decode_opt (decode_parsed T)) entries ''last_refreshed_at''
      (ac_last_refreshed e)\<rparr>"
  unfolding apply_patch_account_def
  by (rule account.equality)
    (simp_all add: fold_field [where get = ac_provider and step = "patch_account_field T",
        OF account_patch_step(1) assms]
      fold_field [where get = ac_ref and step = "patch_account_field T", OF account_patch_step(2) assms]
      fold_field [where get = ac_status and step = "patch_account_field T", OF account_patch_step(3) assms]
      fold_field [where get = ac_scopes and step = "patch_account_field T", OF account_patch_step(4) assms]
      fold_field [where get = ac_pkce and step = "patch_account_field T", OF account_patch_step(5) assms]
      fold_field [where get = ac_expires_at and step = "patch_account_field T",
        OF account_patch_step(6) assms]
      fold_field [where get = ac_last_refreshed and step = "patch_account_field T",
        OF account_patch_step(7) assms]
      fold_frame [where get = ac_id and step = "patch_account_field T", OF account_patch_step(8)]
      fold_frame [where get = ac_metadata and step = "patch_account_field T",
        OF account_patch_step(9)]
      del: patch_account_field.simps)

end
