(* ===== verification/Connector_Entity.thy ===== *)
theory Connector_Entity
  imports Persistent
begin

text \<open>
  The entity \<open>IntegrationConnector\<close> (\<open>domain/entity/integration_connector.rs\<close>): its typed id,
  constructor, partial update, the traits the generic repository and service use it through, and its
  builder.  \<open>Uuid::new_v4()\<close> is an argument.
\<close>

subsection \<open>The typed id\<close>

datatype connector_id = Connector_Id (connector_uuid: uuid)

definition connector_id_str :: "uuid_text \<Rightarrow> connector_id \<Rightarrow> string" where
  "connector_id_str X i = show_uuid X (connector_uuid i)"

definition connector_id_from_str :: "uuid_text \<Rightarrow> string \<Rightarrow> connector_id option" where
  "connector_id_from_str X s = map_option Connector_Id (read_uuid X s)"

lemma connector_id_roundtrip: "uuid_laws X \<Longrightarrow> connector_id_from_str X (connector_id_str X i) = Some
    i"
  by (simp add: connector_id_from_str_def connector_id_str_def uuid_lawsD)

subsection \<open>Construction\<close>

definition new_connector :: "uuid \<Rightarrow> string \<Rightarrow> connector_kind \<Rightarrow> connector_direction \<Rightarrow> connector_status
    \<Rightarrow> connector" where
  "new_connector u provider kind direction status =
     \<lparr>co_id = u, co_provider = provider, co_kind = kind, co_direction = direction,
       co_status = status, co_metadata = default_audit\<rparr>"

definition connector_typed_id :: "connector \<Rightarrow> connector_id" where
  "connector_typed_id e = Connector_Id (co_id e)"

definition connector_is_deleted :: "connector \<Rightarrow> bool" where
  "connector_is_deleted e = is_deleted (co_metadata e)"

definition connector_is_active :: "connector \<Rightarrow> bool" where
  "connector_is_active e = is_active (co_metadata e)"

subsection \<open>Partial update\<close>

text \<open>One turn of the loop of \<open>apply_patch\<close>; unknown keys are ignored.\<close>

fun patch_connector_field :: "string \<times> json \<Rightarrow> connector \<Rightarrow> connector" where
  "patch_connector_field (key, v) e =
    (if key = ''provider'' then assign decode_string co_provider_update v e else
     if key = ''kind'' then assign decode_connector_kind co_kind_update v e else
     if key = ''direction'' then assign decode_connector_direction co_direction_update v e else
     if key = ''status'' then assign decode_connector_status co_status_update v e else e)"

definition apply_patch_connector :: "(string \<times> json) list \<Rightarrow> connector \<Rightarrow> connector" where
  "apply_patch_connector entries e = fold patch_connector_field entries e"

subsection \<open>The traits of the generic repository\<close>

definition connector_entity_id :: "uuid_text \<Rightarrow> connector \<Rightarrow> string" where
  "connector_entity_id X e = show_uuid X (co_id e)"

definition connector_set_entity_id :: "uuid_text \<Rightarrow> string \<Rightarrow> connector \<Rightarrow> connector" where
  "connector_set_entity_id X s e = (case read_uuid X s of Some u \<Rightarrow> e\<lparr>co_id := u\<rparr> | None \<Rightarrow> e)"

definition connector_created_at :: "connector \<Rightarrow> datetime option" where
  "connector_created_at e = created_at (co_metadata e)"

definition connector_set_created_at :: "datetime \<Rightarrow> connector \<Rightarrow> connector" where
  "connector_set_created_at t e = e\<lparr>co_metadata := (co_metadata e)\<lparr>created_at := Some t\<rparr>\<rparr>"

definition connector_updated_at :: "connector \<Rightarrow> datetime option" where
  "connector_updated_at e = updated_at (co_metadata e)"

definition connector_set_updated_at :: "datetime \<Rightarrow> connector \<Rightarrow> connector" where
  "connector_set_updated_at t e = e\<lparr>co_metadata := (co_metadata e)\<lparr>updated_at := Some t\<rparr>\<rparr>"

definition connector_deleted_at :: "connector \<Rightarrow> datetime option" where
  "connector_deleted_at e = deleted_at (co_metadata e)"

definition connector_set_deleted_at :: "datetime option \<Rightarrow> connector \<Rightarrow> connector" where
  "connector_set_deleted_at t e = e\<lparr>co_metadata := (co_metadata e)\<lparr>deleted_at := t\<rparr>\<rparr>"

definition connector_column_types :: "string \<rightharpoonup> string" where
  "connector_column_types = [''id'' \<mapsto> ''uuid'',
     ''kind'' \<mapsto> ''connector_kind'',
     ''direction'' \<mapsto> ''connector_direction'',
     ''status'' \<mapsto> ''connector_status'']"

definition connector_search_fields :: "string list" where
  "connector_search_fields = [''provider'']"

text \<open>The entity meets the contract of the trait.\<close>

lemmas connector_entity_ops = 
  connector_entity_id_def connector_set_entity_id_def connector_created_at_def 
  connector_set_created_at_def connector_updated_at_def connector_set_updated_at_def 
  connector_deleted_at_def connector_set_deleted_at_def

lemma connector_persistent:
  assumes "uuid_laws X"
  shows "persistent_entity X (connector_entity_id X) (connector_set_entity_id X) 
    connector_created_at connector_set_created_at connector_updated_at connector_set_updated_at
        connector_deleted_at connector_set_deleted_at"
  by unfold_locales (auto simp: connector_entity_ops uuid_lawsD [OF assms] split: option.splits)

interpretation connector_entity: persistent_entity bit_uuids "connector_entity_id bit_uuids"
  "connector_set_entity_id bit_uuids" connector_created_at connector_set_created_at
  connector_updated_at connector_set_updated_at connector_deleted_at connector_set_deleted_at
  by (rule connector_persistent [OF bit_uuids_laws])

subsection \<open>The builder\<close>

record connector_builder =
  cob_provider :: "string option"
  cob_kind :: "connector_kind option"
  cob_direction :: "connector_direction option"
  cob_status :: "connector_status option"

definition default_connector_builder :: connector_builder where
  "default_connector_builder =
     \<lparr>cob_provider = None,
      cob_kind = None,
      cob_direction = None,
      cob_status = None\<rparr>"

definition connector_builder_provider :: "string \<Rightarrow> connector_builder \<Rightarrow> connector_builder" where
  "connector_builder_provider x b = b\<lparr>cob_provider := Some x\<rparr>"

definition connector_builder_kind :: "connector_kind \<Rightarrow> connector_builder \<Rightarrow> connector_builder" where
  "connector_builder_kind x b = b\<lparr>cob_kind := Some x\<rparr>"

definition connector_builder_direction :: "connector_direction \<Rightarrow> connector_builder \<Rightarrow>
    connector_builder" where
  "connector_builder_direction x b = b\<lparr>cob_direction := Some x\<rparr>"

definition connector_builder_status :: "connector_status \<Rightarrow> connector_builder \<Rightarrow> connector_builder"
    where
  "connector_builder_status x b = b\<lparr>cob_status := Some x\<rparr>"

definition build_connector :: "uuid \<Rightarrow> connector_builder \<Rightarrow> (string, connector) res" where
  "build_connector u b =
     and_then (ok_or ''provider is required'' (cob_provider b)) (\<lambda>provider.
     and_then (ok_or ''kind is required'' (cob_kind b)) (\<lambda>kind.
     and_then (ok_or ''direction is required'' (cob_direction b)) (\<lambda>direction.
     Ok \<lparr>co_id = u, co_provider = provider, co_kind = kind, co_direction = direction,
       co_status = (case cob_status b of Some x \<Rightarrow> x | None \<Rightarrow> default_connector_status),
       co_metadata = default_audit\<rparr>)))"

subsection \<open>What the operations do\<close>

lemma build_connector_Ok:
  "build_connector u b = Ok e \<longleftrightarrow>
    (\<exists>provider kind direction.
      cob_provider b = Some provider \<and> cob_kind b = Some kind \<and> cob_direction b = Some direction \<and>
      e = \<lparr>co_id = u, co_provider = provider, co_kind = kind, co_direction = direction,
       co_status = (case cob_status b of Some x \<Rightarrow> x | None \<Rightarrow> default_connector_status),
       co_metadata = default_audit\<rparr>)"
  by (auto simp: build_connector_def and_then_eq_Ok)

text \<open>Without optional fields the builder and the constructor agree.\<close>

lemma build_connector_new:
  "build_connector u (connector_builder_status status (connector_builder_direction direction
      (connector_builder_kind kind (connector_builder_provider provider
      default_connector_builder)))) =
    Ok (new_connector u provider kind direction status)"
  by (simp add: build_connector_def new_connector_def default_connector_builder_def
      connector_builder_provider_def connector_builder_kind_def connector_builder_direction_def
      connector_builder_status_def)

lemmas connector_assign =
  assign_decoded [where get = co_provider and upd = co_provider_update]
  assign_decoded [where get = co_kind and upd = co_kind_update]
  assign_decoded [where get = co_direction and upd = co_direction_update]
  assign_decoded [where get = co_status and upd = co_status_update]

text \<open>One entry sets its own field alone, so the order of the loop does not matter.\<close>

lemma connector_patch_step:
  "co_provider (patch_connector_field (k, v) e) =
     (if k = ''provider'' then decoded decode_string v (co_provider e) else co_provider e)"
  "co_kind (patch_connector_field (k, v) e) =
     (if k = ''kind'' then decoded decode_connector_kind v (co_kind e) else co_kind e)"
  "co_direction (patch_connector_field (k, v) e) =
     (if k = ''direction'' then decoded decode_connector_direction v (co_direction e) else
         co_direction e)"
  "co_status (patch_connector_field (k, v) e) =
     (if k = ''status'' then decoded decode_connector_status v (co_status e) else co_status e)"
  "co_id (patch_connector_field (k, v) e) = co_id e"
  "co_metadata (patch_connector_field (k, v) e) = co_metadata e"
  by (simp_all add: connector_assign)

lemma connector_patch:
  assumes "distinct (map fst entries)"
  shows "apply_patch_connector entries e = e
     \<lparr>co_provider := patched decode_string entries ''provider'' (co_provider e),
      co_kind := patched decode_connector_kind entries ''kind'' (co_kind e),
      co_direction := patched decode_connector_direction entries ''direction'' (co_direction e),
      co_status := patched decode_connector_status entries ''status'' (co_status e)\<rparr>"
  unfolding apply_patch_connector_def
  by (rule connector.equality)
    (simp_all add: fold_field [where get = co_provider and step = patch_connector_field,
        OF connector_patch_step(1) assms]
      fold_field [where get = co_kind and step = patch_connector_field, OF connector_patch_step(2) assms]
      fold_field [where get = co_direction and step = patch_connector_field,
        OF connector_patch_step(3) assms]
      fold_field [where get = co_status and step = patch_connector_field, OF connector_patch_step(4) assms]
      fold_frame [where get = co_id and step = patch_connector_field, OF connector_patch_step(5)]
      fold_frame [where get = co_metadata and step = patch_connector_field,
        OF connector_patch_step(6)]
      del: patch_connector_field.simps)

end
