(* ===== verification/Event_Entity.thy ===== *)
theory Event_Entity
  imports Persistent
begin

text \<open>
  The entity \<open>IntegrationEvent\<close> (\<open>domain/entity/integration_event.rs\<close>): its typed id, constructor,
  chained setters, partial update, the traits the generic repository and service use it through, and
  its builder.  \<open>Uuid::new_v4()\<close> is an argument; \<open>X\<close> prints and reads uuids.
\<close>

subsection \<open>The typed id\<close>

datatype event_id = Event_Id (event_uuid: uuid)

definition event_id_str :: "uuid_text \<Rightarrow> event_id \<Rightarrow> string" where
  "event_id_str X i = show_uuid X (event_uuid i)"

definition event_id_from_str :: "uuid_text \<Rightarrow> string \<Rightarrow> event_id option" where
  "event_id_from_str X s = map_option Event_Id (read_uuid X s)"

lemma event_id_roundtrip: "uuid_laws X \<Longrightarrow> event_id_from_str X (event_id_str X i) = Some i"
  by (simp add: event_id_from_str_def event_id_str_def uuid_lawsD)

subsection \<open>Construction\<close>

definition new_event :: "uuid \<Rightarrow> uuid \<Rightarrow> string \<Rightarrow> string \<Rightarrow> string \<Rightarrow> integration_status \<Rightarrow> string \<Rightarrow>
    event" where
  "new_event u connector_id event_type external_id business_key status payload =
     \<lparr>ev_id = u, ev_connector = connector_id, ev_type = event_type,
       ev_external_id = external_id, ev_business_key = business_key, ev_status = status,
       ev_payload = payload, ev_ref_type = None, ev_ref_id = None, ev_error = None,
       ev_metadata = default_audit\<rparr>"

definition event_typed_id :: "event \<Rightarrow> event_id" where
  "event_typed_id e = Event_Id (ev_id e)"

definition event_is_deleted :: "event \<Rightarrow> bool" where
  "event_is_deleted e = is_deleted (ev_metadata e)"

definition event_is_active :: "event \<Rightarrow> bool" where
  "event_is_active e = is_active (ev_metadata e)"

definition with_mapped_ref_type :: "string \<Rightarrow> event \<Rightarrow> event" where
  "with_mapped_ref_type x e = e\<lparr>ev_ref_type := Some x\<rparr>"

definition with_mapped_ref_id :: "uuid \<Rightarrow> event \<Rightarrow> event" where
  "with_mapped_ref_id x e = e\<lparr>ev_ref_id := Some x\<rparr>"

definition with_error_detail :: "string \<Rightarrow> event \<Rightarrow> event" where
  "with_error_detail x e = e\<lparr>ev_error := Some x\<rparr>"

subsection \<open>Partial update\<close>

text \<open>One turn of the loop of \<open>apply_patch\<close>; unknown keys are ignored.\<close>

fun patch_event_field :: "uuid_text \<Rightarrow> string \<times> json \<Rightarrow> event \<Rightarrow> event" where
  "patch_event_field X (key, v) e =
    (if key = ''connector_id'' then assign (decode_parsed (read_uuid X)) ev_connector_update v e
        else
     if key = ''event_type'' then assign decode_string ev_type_update v e else
     if key = ''external_id'' then assign decode_string ev_external_id_update v e else
     if key = ''business_key'' then assign decode_string ev_business_key_update v e else
     if key = ''status'' then assign decode_integration_status ev_status_update v e else
     if key = ''payload'' then assign decode_string ev_payload_update v e else
     if key = ''mapped_ref_type'' then assign (decode_opt decode_string) ev_ref_type_update v e else
     if key = ''mapped_ref_id'' then assign (decode_opt (decode_parsed (read_uuid X)))
         ev_ref_id_update v e else
     if key = ''error_detail'' then assign (decode_opt decode_string) ev_error_update v e else e)"

definition apply_patch_event :: "uuid_text \<Rightarrow> (string \<times> json) list \<Rightarrow> event \<Rightarrow> event" where
  "apply_patch_event X entries e = fold (patch_event_field X) entries e"

subsection \<open>The traits of the generic repository\<close>

definition event_entity_id :: "uuid_text \<Rightarrow> event \<Rightarrow> string" where
  "event_entity_id X e = show_uuid X (ev_id e)"

definition event_set_entity_id :: "uuid_text \<Rightarrow> string \<Rightarrow> event \<Rightarrow> event" where
  "event_set_entity_id X s e = (case read_uuid X s of Some u \<Rightarrow> e\<lparr>ev_id := u\<rparr> | None \<Rightarrow> e)"

definition event_created_at :: "event \<Rightarrow> datetime option" where
  "event_created_at e = created_at (ev_metadata e)"

definition event_set_created_at :: "datetime \<Rightarrow> event \<Rightarrow> event" where
  "event_set_created_at t e = e\<lparr>ev_metadata := (ev_metadata e)\<lparr>created_at := Some t\<rparr>\<rparr>"

definition event_updated_at :: "event \<Rightarrow> datetime option" where
  "event_updated_at e = updated_at (ev_metadata e)"

definition event_set_updated_at :: "datetime \<Rightarrow> event \<Rightarrow> event" where
  "event_set_updated_at t e = e\<lparr>ev_metadata := (ev_metadata e)\<lparr>updated_at := Some t\<rparr>\<rparr>"

definition event_deleted_at :: "event \<Rightarrow> datetime option" where
  "event_deleted_at e = deleted_at (ev_metadata e)"

definition event_set_deleted_at :: "datetime option \<Rightarrow> event \<Rightarrow> event" where
  "event_set_deleted_at t e = e\<lparr>ev_metadata := (ev_metadata e)\<lparr>deleted_at := t\<rparr>\<rparr>"

definition event_column_types :: "string \<rightharpoonup> string" where
  "event_column_types = [''id'' \<mapsto> ''uuid'',
     ''connector_id'' \<mapsto> ''uuid'',
     ''mapped_ref_id'' \<mapsto> ''uuid'',
     ''status'' \<mapsto> ''integration_status'']"

definition event_search_fields :: "string list" where
  "event_search_fields = [''event_type'', ''external_id'', ''business_key'', ''payload'']"

definition event_relations :: "(string \<times> string \<times> string) list" where
  "event_relations = [(''connector'', ''integration_connectors'', ''connectorId'')]"

text \<open>The entity meets the contract of the trait.\<close>

lemmas event_entity_ops = 
  event_entity_id_def event_set_entity_id_def event_created_at_def 
  event_set_created_at_def event_updated_at_def event_set_updated_at_def 
  event_deleted_at_def event_set_deleted_at_def

lemma event_persistent:
  assumes "uuid_laws X"
  shows "persistent_entity X (event_entity_id X) (event_set_entity_id X) 
    event_created_at event_set_created_at event_updated_at event_set_updated_at event_deleted_at
        event_set_deleted_at"
  by unfold_locales (auto simp: event_entity_ops uuid_lawsD [OF assms] split: option.splits)

interpretation event_entity: persistent_entity bit_uuids "event_entity_id bit_uuids"
  "event_set_entity_id bit_uuids" event_created_at event_set_created_at
  event_updated_at event_set_updated_at event_deleted_at event_set_deleted_at
  by (rule event_persistent [OF bit_uuids_laws])

subsection \<open>The builder\<close>

record event_builder =
  evb_connector_id :: "uuid option"
  evb_event_type :: "string option"
  evb_external_id :: "string option"
  evb_business_key :: "string option"
  evb_status :: "integration_status option"
  evb_payload :: "string option"
  evb_mapped_ref_type :: "string option"
  evb_mapped_ref_id :: "uuid option"
  evb_error_detail :: "string option"

definition default_event_builder :: event_builder where
  "default_event_builder =
     \<lparr>evb_connector_id = None,
      evb_event_type = None,
      evb_external_id = None,
      evb_business_key = None,
      evb_status = None,
      evb_payload = None,
      evb_mapped_ref_type = None,
      evb_mapped_ref_id = None,
      evb_error_detail = None\<rparr>"

definition event_builder_connector_id :: "uuid \<Rightarrow> event_builder \<Rightarrow> event_builder" where
  "event_builder_connector_id x b = b\<lparr>evb_connector_id := Some x\<rparr>"

definition event_builder_event_type :: "string \<Rightarrow> event_builder \<Rightarrow> event_builder" where
  "event_builder_event_type x b = b\<lparr>evb_event_type := Some x\<rparr>"

definition event_builder_external_id :: "string \<Rightarrow> event_builder \<Rightarrow> event_builder" where
  "event_builder_external_id x b = b\<lparr>evb_external_id := Some x\<rparr>"

definition event_builder_business_key :: "string \<Rightarrow> event_builder \<Rightarrow> event_builder" where
  "event_builder_business_key x b = b\<lparr>evb_business_key := Some x\<rparr>"

definition event_builder_status :: "integration_status \<Rightarrow> event_builder \<Rightarrow> event_builder" where
  "event_builder_status x b = b\<lparr>evb_status := Some x\<rparr>"

definition event_builder_payload :: "string \<Rightarrow> event_builder \<Rightarrow> event_builder" where
  "event_builder_payload x b = b\<lparr>evb_payload := Some x\<rparr>"

definition event_builder_mapped_ref_type :: "string \<Rightarrow> event_builder \<Rightarrow> event_builder" where
  "event_builder_mapped_ref_type x b = b\<lparr>evb_mapped_ref_type := Some x\<rparr>"

definition event_builder_mapped_ref_id :: "uuid \<Rightarrow> event_builder \<Rightarrow> event_builder" where
  "event_builder_mapped_ref_id x b = b\<lparr>evb_mapped_ref_id := Some x\<rparr>"

definition event_builder_error_detail :: "string \<Rightarrow> event_builder \<Rightarrow> event_builder" where
  "event_builder_error_detail x b = b\<lparr>evb_error_detail := Some x\<rparr>"

definition build_event :: "uuid \<Rightarrow> event_builder \<Rightarrow> (string, event) res" where
  "build_event u b =
     and_then (ok_or ''connector_id is required'' (evb_connector_id b)) (\<lambda>connector_id.
     and_then (ok_or ''event_type is required'' (evb_event_type b)) (\<lambda>event_type.
     and_then (ok_or ''external_id is required'' (evb_external_id b)) (\<lambda>external_id.
     and_then (ok_or ''business_key is required'' (evb_business_key b)) (\<lambda>business_key.
     and_then (ok_or ''payload is required'' (evb_payload b)) (\<lambda>payload.
     Ok \<lparr>ev_id = u, ev_connector = connector_id, ev_type = event_type,
       ev_external_id = external_id, ev_business_key = business_key,
       ev_status = (case evb_status b of Some x \<Rightarrow> x | None \<Rightarrow> default_integration_status),
       ev_payload = payload, ev_ref_type = evb_mapped_ref_type b,
       ev_ref_id = evb_mapped_ref_id b, ev_error = evb_error_detail b,
       ev_metadata = default_audit\<rparr>)))))"

subsection \<open>What the operations do\<close>

lemma build_event_Ok:
  "build_event u b = Ok e \<longleftrightarrow>
    (\<exists>connector_id event_type external_id business_key payload.
      evb_connector_id b = Some connector_id \<and> evb_event_type b = Some event_type \<and> evb_external_id
      b = Some external_id \<and> evb_business_key b = Some business_key \<and> evb_payload b = Some payload \<and>
      e = \<lparr>ev_id = u, ev_connector = connector_id, ev_type = event_type,
       ev_external_id = external_id, ev_business_key = business_key,
       ev_status = (case evb_status b of Some x \<Rightarrow> x | None \<Rightarrow> default_integration_status),
       ev_payload = payload, ev_ref_type = evb_mapped_ref_type b,
       ev_ref_id = evb_mapped_ref_id b, ev_error = evb_error_detail b,
       ev_metadata = default_audit\<rparr>)"
  by (auto simp: build_event_def and_then_eq_Ok)

text \<open>Without optional fields the builder and the constructor agree.\<close>

lemma build_event_new:
  "build_event u (event_builder_payload payload (event_builder_status status
      (event_builder_business_key business_key (event_builder_external_id external_id
      (event_builder_event_type event_type (event_builder_connector_id connector_id
      default_event_builder)))))) =
    Ok (new_event u connector_id event_type external_id business_key status payload)"
  by (simp add: build_event_def new_event_def default_event_builder_def
      event_builder_connector_id_def event_builder_event_type_def event_builder_external_id_def
      event_builder_business_key_def event_builder_status_def event_builder_payload_def)

lemmas event_assign =
  assign_decoded [where get = ev_connector and upd = ev_connector_update]
  assign_decoded [where get = ev_type and upd = ev_type_update]
  assign_decoded [where get = ev_external_id and upd = ev_external_id_update]
  assign_decoded [where get = ev_business_key and upd = ev_business_key_update]
  assign_decoded [where get = ev_status and upd = ev_status_update]
  assign_decoded [where get = ev_payload and upd = ev_payload_update]
  assign_decoded [where get = ev_ref_type and upd = ev_ref_type_update]
  assign_decoded [where get = ev_ref_id and upd = ev_ref_id_update]
  assign_decoded [where get = ev_error and upd = ev_error_update]

text \<open>One entry sets its own field alone, so the order of the loop does not matter.\<close>

lemma event_patch_step:
  "ev_connector (patch_event_field X (k, v) e) =
     (if k = ''connector_id'' then decoded (decode_parsed (read_uuid X)) v (ev_connector e) else
         ev_connector e)"
  "ev_type (patch_event_field X (k, v) e) =
     (if k = ''event_type'' then decoded decode_string v (ev_type e) else ev_type e)"
  "ev_external_id (patch_event_field X (k, v) e) =
     (if k = ''external_id'' then decoded decode_string v (ev_external_id e) else ev_external_id e)"
  "ev_business_key (patch_event_field X (k, v) e) =
     (if k = ''business_key'' then decoded decode_string v (ev_business_key e) else
       ev_business_key e)"
  "ev_status (patch_event_field X (k, v) e) =
     (if k = ''status'' then decoded decode_integration_status v (ev_status e) else ev_status e)"
  "ev_payload (patch_event_field X (k, v) e) =
     (if k = ''payload'' then decoded decode_string v (ev_payload e) else ev_payload e)"
  "ev_ref_type (patch_event_field X (k, v) e) =
     (if k = ''mapped_ref_type'' then decoded (decode_opt decode_string) v (ev_ref_type e) else
         ev_ref_type e)"
  "ev_ref_id (patch_event_field X (k, v) e) =
     (if k = ''mapped_ref_id'' then decoded (decode_opt (decode_parsed (read_uuid X))) v
       (ev_ref_id e) else ev_ref_id e)"
  "ev_error (patch_event_field X (k, v) e) =
     (if k = ''error_detail'' then decoded (decode_opt decode_string) v (ev_error e) else
       ev_error e)"
  "ev_id (patch_event_field X (k, v) e) = ev_id e"
  "ev_metadata (patch_event_field X (k, v) e) = ev_metadata e"
  by (simp_all add: event_assign)

text \<open>
  C27. A partial update of an integration event is the same update in every iteration order of the
  patch's hash map: each field becomes the decoded value of its own entry, keeps its old value when
  the entry is missing or does not decode, an explicit \<open>null\<close> clears an optional field, unknown keys
  do nothing, and the id and the audit metadata are never touched.
\<close>

theorem event_patch:
  assumes "distinct (map fst entries)"
  shows "apply_patch_event X entries e = e
     \<lparr>ev_connector := patched (decode_parsed (read_uuid X)) entries ''connector_id''
       (ev_connector e),
      ev_type := patched decode_string entries ''event_type'' (ev_type e),
      ev_external_id := patched decode_string entries ''external_id'' (ev_external_id e),
      ev_business_key := patched decode_string entries ''business_key'' (ev_business_key e),
      ev_status := patched decode_integration_status entries ''status'' (ev_status e),
      ev_payload := patched decode_string entries ''payload'' (ev_payload e),
      ev_ref_type := patched (decode_opt decode_string) entries ''mapped_ref_type'' (ev_ref_type e),
      ev_ref_id := patched (decode_opt (decode_parsed (read_uuid X))) entries ''mapped_ref_id''
      (ev_ref_id e),
      ev_error := patched (decode_opt decode_string) entries ''error_detail'' (ev_error e)\<rparr>"
  unfolding apply_patch_event_def
  by (rule event.equality)
    (simp_all add: fold_field [where get = ev_connector and step = "patch_event_field X",
        OF event_patch_step(1) assms]
      fold_field [where get = ev_type and step = "patch_event_field X", OF event_patch_step(2) assms]
      fold_field [where get = ev_external_id and step = "patch_event_field X",
        OF event_patch_step(3) assms]
      fold_field [where get = ev_business_key and step = "patch_event_field X",
        OF event_patch_step(4) assms]
      fold_field [where get = ev_status and step = "patch_event_field X", OF event_patch_step(5) assms]
      fold_field [where get = ev_payload and step = "patch_event_field X", OF event_patch_step(6) assms]
      fold_field [where get = ev_ref_type and step = "patch_event_field X", OF event_patch_step(7) assms]
      fold_field [where get = ev_ref_id and step = "patch_event_field X", OF event_patch_step(8) assms]
      fold_field [where get = ev_error and step = "patch_event_field X", OF event_patch_step(9) assms]
      fold_frame [where get = ev_id and step = "patch_event_field X", OF event_patch_step(10)]
      fold_frame [where get = ev_metadata and step = "patch_event_field X", OF event_patch_step(11)]
      del: patch_event_field.simps)

theorem event_patch_witness:
  "ev_status (apply_patch_event bit_uuids [(''payload'', JNull), (''status'', JString ''failed''),
      (''id'', JNull)]
      (new_event 1 2 ''order.paid'' ''x-1'' ''order-1'' Received ''{}'')) = Failed"
  by (subst event_patch) (simp_all add: patched_def decoded_def new_event_def
      decode_integration_status_def)

end
