(* ===== verification/Paging.thy ===== *)
theory Paging
  imports Prelude "HOL-Library.Word" "HOL-Library.Log_Nat"
begin

text \<open>
  Pages: the parameters of the repository traits (\<open>domain/repositories\<close>), the list response of the
  DTOs (\<open>presentation/dto\<close>), and as much of \<open>f64\<close> as the page count needs.  The same code is generated
  for the three entities.

  A finite non-negative double is a mantissa and an exponent, \<open>m * 2 ^ e\<close>; a result is rounded to 53
  significant bits, ties to even.  The values here stay between \<open>2 ^ -32\<close> and \<open>2 ^ 64\<close>, far from the
  subnormal and the infinite range.
\<close>

subsection \<open>Doubles\<close>

record f64 =
  mantissa :: nat
  exponent :: int

definition f64_value :: "f64 \<Rightarrow> real" where
  "f64_value x = of_nat (mantissa x) * 2 powi exponent x"

text \<open>The exponent of the leading bit of \<open>p / q\<close>.\<close>

definition leading_bit :: "nat \<Rightarrow> nat \<Rightarrow> int" where
  "leading_bit p q = (let k = int (floorlog 2 p) - int (floorlog 2 q)
     in if q * 2 ^ nat k \<le> p * 2 ^ nat (- k) then k else k - 1)"

text \<open>\<open>n / d\<close> rounded to an integer, ties to even.\<close>

definition round_even :: "nat \<Rightarrow> nat \<Rightarrow> nat" where
  "round_even n d = (let m = n div d; r = n mod d
     in if 2 * r < d then m else if d < 2 * r then m + 1 else if even m then m else m + 1)"

text \<open>The double nearest to \<open>p / q\<close>.\<close>

definition f64_ratio :: "nat \<Rightarrow> nat \<Rightarrow> f64" where
  "f64_ratio p q = (if p = 0 then \<lparr>mantissa = 0, exponent = 0\<rparr>
     else let t = 52 - leading_bit p q
       in \<lparr>mantissa = round_even (p * 2 ^ nat t) (q * 2 ^ nat (- t)), exponent = - t\<rparr>)"

definition f64_of :: "nat \<Rightarrow> f64" where
  "f64_of n = f64_ratio n 1"

definition f64_div :: "f64 \<Rightarrow> f64 \<Rightarrow> f64" where
  "f64_div x y = f64_ratio (mantissa x * 2 ^ nat (exponent x - exponent y))
     (mantissa y * 2 ^ nat (exponent y - exponent x))"

definition f64_ceil :: "f64 \<Rightarrow> nat" where
  "f64_ceil x = (if 0 \<le> exponent x then mantissa x * 2 ^ nat (exponent x)
     else (mantissa x + 2 ^ nat (- exponent x) - 1) div 2 ^ nat (- exponent x))"

text \<open>The saturating cast \<open>as u32\<close>.\<close>

definition as_u32 :: "nat \<Rightarrow> 32 word" where
  "as_u32 n = word_of_nat (min n (2 ^ 32 - 1))"

lemma powi_nat: "(2::real) powi i = 2 ^ nat i / 2 ^ nat (- i)"
  by (cases "0 \<le> i") (auto simp: power_int_def divide_simps)

lemma leading_bit_le:
  assumes "0 < p" and "0 < q"
  shows "2 powi leading_bit p q \<le> real p / real q"
proof -
  define k where "k = int (floorlog 2 p) - int (floorlog 2 q)"
  show ?thesis
  proof (cases "q * 2 ^ nat k \<le> p * 2 ^ nat (- k)")
    case True
    then have "real (q * 2 ^ nat k) \<le> real (p * 2 ^ nat (- k))"
      by (simp only: of_nat_le_iff)
    then have "real q * 2 ^ nat k \<le> real p * 2 ^ nat (- k)" by simp
    then have "2 powi k \<le> real p / real q"
      using assms by (simp add: powi_nat pos_divide_le_eq pos_le_divide_eq mult.commute)
    with True show ?thesis by (simp add: leading_bit_def k_def Let_def)
  next
    case False
    have "2 ^ (floorlog 2 p - 1) \<le> p" "q < 2 ^ floorlog 2 q"
      using floorlog_bounds [of p 2] floorlog_bounds [of q 2] assms by auto
    then have "real (2 ^ (floorlog 2 p - 1)) \<le> real p" "real q \<le> real (2 ^ floorlog 2 q)"
      by (simp_all only: of_nat_le_iff less_imp_le)
    then have b: "2 ^ (floorlog 2 p - 1) \<le> real p" "real q \<le> 2 ^ floorlog 2 q"
      by (simp_all only: of_nat_power of_nat_numeral)
    have "floorlog 2 p > 0" using floorlog_eq_zero_iff [of 2 p] assms by linarith
    then have k: "k - 1 = int (floorlog 2 p - 1) - int (floorlog 2 q)"
      by (simp add: k_def of_nat_diff)
    have "(2::real) powi (k - 1) = 2 ^ (floorlog 2 p - 1) / 2 ^ floorlog 2 q"
      unfolding k by (simp add: power_int_diff)
    also have "\<dots> \<le> real p / real q"
      using b assms by (intro frac_le) auto
    finally show ?thesis using False by (simp add: leading_bit_def k_def Let_def)
  qed
qed

lemma round_even_near:
  assumes "0 < d"
  shows "\<bar>real (round_even n d) - real n / real d\<bar> \<le> 1 / 2"
proof -
  have n: "real n = real (n div d) * real d + real (n mod d)"
    by (metis div_mult_mod_eq of_nat_add of_nat_mult)
  have r: "real (n mod d) < real d" using assms by simp
  have q: "real n / real d = real (n div d) + real (n mod d) / real d"
    using assms by (simp add: n add_divide_distrib)
  let ?f = "real (n mod d) / real d"
  have f: "0 \<le> ?f" "?f \<le> 1" using assms r by (auto simp: divide_simps)
  have "2 * (n mod d) < d \<Longrightarrow> ?f \<le> 1 / 2" "\<not> 2 * (n mod d) < d \<Longrightarrow> 1 / 2 \<le> ?f"
    "2 * (n mod d) = d \<Longrightarrow> ?f = 1 / 2"
    using assms by (auto simp: divide_simps)
  moreover have "round_even n d = n div d + 1 \<and> \<not> 2 * (n mod d) < d \<or>
      round_even n d = n div d \<and> \<not> d < 2 * (n mod d)"
    by (auto simp: round_even_def Let_def)
  ultimately show ?thesis
    using f unfolding q by (cases "2 * (n mod d) = d") auto
qed

lemma round_even_exact: "0 < d \<Longrightarrow> round_even (m * d) d = m"
  by (simp add: round_even_def)

text \<open>Rounding is off by at most one part in \<open>2 ^ 53\<close>, and exact on whole numbers below \<open>2 ^ 53\<close>.\<close>

lemma f64_ratio_near:
  assumes "0 < p" and "0 < q"
  shows "\<bar>f64_value (f64_ratio p q) - real p / real q\<bar> \<le> real p / real q / 2 ^ 53"
proof -
  define t where "t = 52 - leading_bit p q"
  let ?n = "p * 2 ^ nat t" and ?d = "q * 2 ^ nat (- t)"
  have d: "0 < ?d" using assms by simp
  have s: "real ?n / real ?d = real p / real q * 2 powi t"
    by (simp add: powi_nat)
  have v: "f64_value (f64_ratio p q) = real (round_even ?n ?d) * 2 powi (- t)"
    using assms by (simp add: f64_ratio_def f64_value_def t_def Let_def)
  have "f64_value (f64_ratio p q) - real p / real q
      = (real (round_even ?n ?d) - real ?n / real ?d) * 2 powi (- t)"
    unfolding v s by (simp add: algebra_simps power_int_minus)
  then have "\<bar>f64_value (f64_ratio p q) - real p / real q\<bar>
      = \<bar>real (round_even ?n ?d) - real ?n / real ?d\<bar> * 2 powi (- t)"
    by (simp add: abs_mult)
  also have "\<dots> \<le> 1 / 2 * 2 powi (- t)"
    by (intro mult_right_mono round_even_near d) simp
  also have "\<dots> = 2 powi leading_bit p q / 2 ^ 53"
    by (simp add: t_def power_int_diff)
  also have "\<dots> \<le> real p / real q / 2 ^ 53"
    by (intro divide_right_mono leading_bit_le assms) simp
  finally show ?thesis .
qed

lemma f64_ratio_whole:
  assumes "0 < n" and "n < 2 ^ 53" and "0 < q"
  shows "\<exists>s. f64_ratio (n * q) q = \<lparr>mantissa = n * 2 ^ s, exponent = - int s\<rparr>"
proof -
  have "(2::real) powi leading_bit (n * q) q \<le> real n"
    using leading_bit_le [of "n * q" q] assms by simp
  also have "\<dots> < 2 powi 53"
    using of_nat_less_iff [where 'a = real, THEN iffD2, OF assms(2)] by simp
  finally have "leading_bit (n * q) q < 53"
    by (meson not_le one_le_numeral power_int_increasing)
  then obtain s where s: "52 - leading_bit (n * q) q = int s"
    using zero_le_imp_eq_int [of "52 - leading_bit (n * q) q"] by auto
  have "round_even (n * q * 2 ^ s) q = n * 2 ^ s"
    using round_even_exact [of q "n * 2 ^ s"] assms by (simp add: ac_simps)
  with s assms show ?thesis by (auto simp: f64_ratio_def Let_def)
qed

text \<open>
  So the ceiling of the rounded quotient of two counts below \<open>2 ^ 53\<close> is the ceiling of the quotient:
  either the quotient is whole, or it is at least \<open>1 / b\<close> away from a whole number.
\<close>

lemma ceil_div_mult: "0 < d \<Longrightarrow> (n * d + d - 1) div d = (n::nat)"
  by (rule div_nat_eqI) (simp_all add: algebra_simps)

lemma ceiling_div:
  assumes "0 < d"
  shows "\<lceil>real m / real d\<rceil> = int ((m + d - 1) div d)"
proof -
  let ?k = "(m + d - 1) div d"
  have "m + d - 1 < d + ?k * d"
    using dividend_less_div_times [OF assms, of "m + d - 1"] by (simp add: add.commute)
  moreover have "?k * d \<le> m + d - 1" by (rule div_times_less_eq_dividend)
  ultimately have "?k * d < m + d" "m \<le> ?k * d" using assms by linarith+
  then have "real (?k * d) < real (m + d)" "real m \<le> real (?k * d)"
    by (simp_all only: of_nat_le_iff of_nat_less_iff)
  then have "real ?k - 1 < real m / real d" "real m / real d \<le> real ?k"
    using assms by (simp_all add: field_simps)
  then show ?thesis by (simp add: ceiling_eq_iff)
qed

lemma f64_ceil_value: "int (f64_ceil x) = \<lceil>f64_value x\<rceil>"
proof (cases "0 \<le> exponent x")
  case True
  then have "f64_value x = real (f64_ceil x)"
    by (simp add: f64_value_def f64_ceil_def powi_nat)
  then show ?thesis by simp
next
  case False
  then show ?thesis
    using ceiling_div [of "2 ^ nat (- exponent x)" "mantissa x"]
    by (simp add: f64_value_def f64_ceil_def powi_nat)
qed

lemma f64_div_counts:
  assumes "0 < a" and "a < 2 ^ 53" and "0 < b" and "b < 2 ^ 53"
  shows "\<exists>c > 0. f64_div (f64_of a) (f64_of b) = f64_ratio (a * c) (b * c)"
proof -
  obtain s where a: "f64_of a = \<lparr>mantissa = a * 2 ^ s, exponent = - int s\<rparr>"
    using f64_ratio_whole [of a 1] assms by (auto simp: f64_of_def)
  obtain t where b: "f64_of b = \<lparr>mantissa = b * 2 ^ t, exponent = - int t\<rparr>"
    using f64_ratio_whole [of b 1] assms by (auto simp: f64_of_def)
  have "s + nat (int t - int s) = max s t" "t + nat (int s - int t) = max s t" by linarith+
  then have "f64_div (f64_of a) (f64_of b) = f64_ratio (a * 2 ^ max s t) (b * 2 ^ max s t)"
    by (simp add: a b f64_div_def mult.assoc flip: power_add)
  then show ?thesis by (intro exI [of _ "2 ^ max s t"]) simp
qed

lemma f64_ceil_inexact:
  assumes "a < 2 ^ 53" and "0 < a" and "0 < b" and "0 < c" and "\<not> b dvd a"
  shows "f64_ceil (f64_ratio (a * c) (b * c)) = (a + b - 1) div b"
proof -
  let ?n = "a div b + 1" let ?q = "real a / real b"
  let ?y = "f64_value (f64_ratio (a * c) (b * c))"
  have r: "0 < a mod b" "a mod b < b" "a div b * b + a mod b = a" "?n * b = a div b * b + b"
    using assms by (auto simp: dvd_eq_mod_eq_0)
  have "a + b - 1 = ?n * b + (a mod b - 1)" using r by linarith
  moreover have "(a mod b - 1) div b = 0" using r by (intro div_less) linarith
  ultimately have up: "(a + b - 1) div b = ?n"
    using assms(3) by (simp only: div_mult_self3)
  have "a div b * b + 1 \<le> a" "a + 1 \<le> ?n * b" using r by linarith+
  then have "real (a div b * b + 1) \<le> real a" "real (a + 1) \<le> real (?n * b)"
    by (simp_all only: of_nat_le_iff)
  then have gap: "real (a div b) + 1 / real b \<le> ?q" "?q + 1 / real b \<le> real ?n"
    using assms by (simp_all add: pos_le_divide_eq pos_divide_le_eq distrib_right
        flip: add_divide_distrib)
  have "\<bar>?y - ?q\<bar> \<le> ?q / 2 ^ 53"
    using f64_ratio_near [of "a * c" "b * c"] assms by simp
  moreover have "?q / 2 ^ 53 < 1 / real b"
    using of_nat_less_iff [where 'a = real, THEN iffD2, OF assms(1)] assms by (simp add: field_simps)
  ultimately have "real ?n - 1 < ?y" "?y \<le> real ?n" using gap by auto
  then have "\<lceil>?y\<rceil> = int ?n" by (simp add: ceiling_eq_iff)
  then show ?thesis using up f64_ceil_value [of "f64_ratio (a * c) (b * c)"] by simp
qed

lemma f64_ceil_quotient:
  assumes "a < 2 ^ 53" and "0 < b" and "b < 2 ^ 53"
  shows "f64_ceil (f64_div (f64_of a) (f64_of b)) = (a + b - 1) div b"
proof (cases "a = 0")
  case True
  then show ?thesis using assms
    by (simp add: f64_of_def f64_div_def f64_ratio_def [of 0] f64_ceil_def)
next
  case False
  obtain c where c: "0 < c" and "f64_div (f64_of a) (f64_of b) = f64_ratio (a * c) (b * c)"
    using f64_div_counts [OF _ assms] False by auto
  moreover have "f64_ceil (f64_ratio (a * c) (b * c)) = (a + b - 1) div b"
  proof (cases "b dvd a")
    case True
    then obtain n where n: "a = n * b" by (metis dvdE mult.commute)
    then have "n \<le> a" "0 < n" using \<open>a \<noteq> 0\<close> assms by auto
    then have "n < 2 ^ 53" using assms by linarith
    with \<open>0 < n\<close> obtain s where "f64_ratio (n * (b * c)) (b * c) = \<lparr>mantissa = n * 2 ^ s, exponent = - int s\<rparr>"
      using f64_ratio_whole [of n "b * c"] assms c by auto
    then have "f64_ceil (f64_ratio (a * c) (b * c)) = n"
      using ceil_div_mult [of "2 ^ s" n] by (simp add: n mult.assoc f64_ceil_def)
    then show ?thesis using ceil_div_mult [of b n] assms by (simp add: n)
  next
    case False
    then show ?thesis using f64_ceil_inexact assms(1,2) c \<open>a \<noteq> 0\<close> by blast
  qed
  ultimately show ?thesis by simp
qed

subsection \<open>The list response\<close>

record 'a list_response =
  lr_items :: "'a list"
  lr_total :: "64 word"
  lr_page :: "32 word"
  lr_per_page :: "32 word"
  lr_total_pages :: "32 word"
  lr_has_next :: bool
  lr_has_prev :: bool

definition list_response_new :: "'a list \<Rightarrow> 64 word \<Rightarrow> 32 word \<Rightarrow> 32 word \<Rightarrow> 'a list_response" where
  "list_response_new items count page per_page =
    (let total_pages = (if per_page > 0
         then as_u32 (f64_ceil (f64_div (f64_of (unat count)) (f64_of (unat per_page)))) else 0)
     in \<lparr>lr_items = items, lr_total = count, lr_page = page, lr_per_page = per_page,
          lr_total_pages = total_pages, lr_has_next = page < total_pages, lr_has_prev = page > 1\<rparr>)"

lemma unat_as_u32: "unat (as_u32 n) = min n (2 ^ 32 - 1)"
  by (simp add: as_u32_def unat_of_nat)

lemma unat_per_page: "unat (w :: 32 word) < 2 ^ 32"
  using unsigned_less [of w, where ?'a = nat] by simp

lemma total_pages:
  assumes "unat count < 2 ^ 53" and "0 < per_page"
  shows "unat (lr_total_pages (list_response_new items count page per_page)) =
    min ((unat count + unat per_page - 1) div unat per_page) (2 ^ 32 - 1)"
proof -
  have "0 < unat per_page" using assms(2) by (simp add: word_less_nat_alt)
  moreover have "unat per_page < 2 ^ 53" using unat_per_page [of per_page] by simp
  ultimately show ?thesis
    using assms by (simp add: list_response_new_def Let_def unat_as_u32 f64_ceil_quotient)
qed

text \<open>
  C30. A list response says there is a next page exactly when items are left after the pages up to this
  one: below \<open>2 ^ 53\<close> items the page count computed in floating point, rounded twice, is exact, and the
  saturating cast to 32 bits cannot be seen below the last representable page.
\<close>

theorem has_next_iff:
  assumes "unat count < 2 ^ 53" and "0 < per_page" and "unat page < 2 ^ 32 - 1"
  shows "lr_has_next (list_response_new items count page per_page) \<longleftrightarrow>
    unat page * unat per_page < unat count"
proof -
  let ?p = "unat page" and ?b = "unat per_page" and ?t = "unat count"
  have b: "0 < ?b" using assms(2) by (simp add: word_less_nat_alt)
  have "lr_has_next (list_response_new items count page per_page) \<longleftrightarrow>
      ?p < unat (lr_total_pages (list_response_new items count page per_page))"
    by (simp add: list_response_new_def Let_def word_less_nat_alt)
  also have "\<dots> \<longleftrightarrow> ?p < (?t + ?b - 1) div ?b"
    using total_pages [OF assms(1,2), of items page] assms(3) by simp
  also have "\<dots> \<longleftrightarrow> (?p + 1) * ?b \<le> ?t + ?b - 1"
    using less_eq_div_iff_mult_less_eq [OF b, of "?p + 1"] by (simp add: Suc_le_eq)
  also have "\<dots> \<longleftrightarrow> ?p * ?b < ?t" using b by (simp add: algebra_simps) linarith
  finally show ?thesis .
qed

theorem has_next_iff_witness:
  "lr_has_next (list_response_new [] 41 2 20) \<and> \<not> lr_has_next (list_response_new [] 40 2 20)"
  using has_next_iff [of 41 20 2 "[]"] has_next_iff [of 40 20 2 "[]"] by simp

subsection \<open>The parameters of the repository traits\<close>

record pagination =
  pg_page :: "32 word"
  pg_per_page :: "32 word"

definition pagination_new :: "32 word \<Rightarrow> 32 word \<Rightarrow> pagination" where
  "pagination_new page per_page = \<lparr>pg_page = page, pg_per_page = per_page\<rparr>"

definition saturating_sub :: "32 word \<Rightarrow> 32 word \<Rightarrow> 32 word" where
  "saturating_sub a b = (if a < b then 0 else a - b)"

text \<open>\<open>checks\<close>: built with overflow checks (a debug build), where the product panics; without
  them it wraps.  The widening to 64 bits comes after the product.\<close>

definition offset :: "bool \<Rightarrow> pagination \<Rightarrow> (unit, 64 word) res" where
  "offset checks g = (let skipped = saturating_sub (pg_page g) 1
     in if checks \<and> 2 ^ 32 \<le> unat skipped * unat (pg_per_page g) then Panic
        else Ok (ucast (skipped * pg_per_page g)))"

definition limit :: "pagination \<Rightarrow> 64 word" where
  "limit g = ucast (pg_per_page g)"

record 'a paginated_result =
  pr_data :: "'a list"
  pr_total :: "64 word"
  pr_page :: "32 word"
  pr_per_page :: "32 word"

lemma unat_skipped: "unat (saturating_sub page 1) = unat page - 1"
  by (simp add: saturating_sub_def unat_sub word_less_nat_alt linorder_not_less word_le_nat_alt)

text \<open>
  C29. The SQL offset of a page, for all parameters: it is the number of items on the pages before as
  long as that number fits 32 bits; beyond, the multiplication, done before the widening to 64 bits,
  panics in a build with overflow checks and otherwise wraps, so that a far page silently shows an
  early one.
\<close>

theorem offset_value:
  "offset checks (pagination_new page per_page) =
    (let n = (unat page - 1) * unat per_page
     in if n < 2 ^ 32 then Ok (word_of_nat n)
        else if checks then Panic else Ok (word_of_nat (n mod 2 ^ 32)))"
proof -
  let ?s = "saturating_sub page 1"
  have "ucast (?s * per_page) = (word_of_nat (unat (?s * per_page)) :: 64 word)"
    by (simp only: of_nat_unat)
  then show ?thesis
    by (simp add: offset_def pagination_new_def Let_def unat_word_ariths unat_skipped
        del: of_nat_unat of_nat_mult)
qed

text \<open>For instance the page after 65536 pages of 65536 items is the first page again.\<close>

lemma far_page_wraps: "offset False (pagination_new 65537 65536) = offset False (pagination_new 1 65536)"
  by (simp add: offset_def pagination_new_def saturating_sub_def)

end
