(* ===== verification/Crud_Dtos.thy ===== *)
theory Crud_Dtos
  imports Account_Entity Connector_Entity Event_Entity Paging
begin

text \<open>
  The generated request and response types (\<open>presentation/dto\<close>) and the filters of the repository
  traits (\<open>domain/repositories\<close>), with their conversions to and from the entities.  The JSON codecs
  serde derives for them are not modelled; \<open>Uuid::new_v4()\<close> is an argument.
\<close>

named_theorems dto_ops \<open>definitions of the conversions\<close>

subsection \<open>The common types\<close>

text \<open>The defaults of missing query parameters; the derived \<open>Default\<close> of the type is zero pages of
    zero.\<close>

record pagination_params =
  pp_page :: "32 word"
  pp_per_page :: "32 word"
  pp_sort_by :: "string option"
  pp_sort_order :: "string option"

definition default_page :: "32 word" where
  "default_page = 1"

definition default_per_page :: "32 word" where
  "default_per_page = 20"

record api_error =
  ae_code :: string
  ae_message :: string
  ae_details :: "json option"

record 'a api_response =
  ar_success :: bool
  ar_data :: "'a option"
  ar_error :: "api_error option"

definition api_ok :: "'a \<Rightarrow> 'a api_response" where
  "api_ok d = \<lparr>ar_success = True, ar_data = Some d, ar_error = None\<rparr>"

definition api_err :: "string \<Rightarrow> string \<Rightarrow> 'a api_response" where
  "api_err code message = \<lparr>ar_success = False, ar_data = None,
     ar_error = Some \<lparr>ae_code = code, ae_message = message, ae_details = None\<rparr>\<rparr>"

subsection \<open>IntegrationAccount\<close>

record create_account =
  acc_provider :: "oauth_provider"
  acc_account_ref :: "string"
  acc_status :: "account_status"
  acc_scopes :: "string"
  acc_pkce_verifier :: "string option"
  acc_expires_at :: "datetime option"
  acc_last_refreshed_at :: "datetime option"

record update_account =
  acu_provider :: "oauth_provider"
  acu_account_ref :: "string"
  acu_status :: "account_status"
  acu_scopes :: "string"
  acu_pkce_verifier :: "string option"
  acu_expires_at :: "datetime option"
  acu_last_refreshed_at :: "datetime option"

record patch_account =
  acp_provider :: "oauth_provider option"
  acp_account_ref :: "string option"
  acp_status :: "account_status option"
  acp_scopes :: "string option"
  acp_pkce_verifier :: "string option"
  acp_expires_at :: "datetime option"
  acp_last_refreshed_at :: "datetime option"

definition patch_account_has_changes :: "patch_account \<Rightarrow> bool" where
  "patch_account_has_changes p \<longleftrightarrow>
     acp_provider p \<noteq> None \<or> acp_account_ref p \<noteq> None \<or> acp_status p \<noteq> None \<or> acp_scopes p \<noteq> None \<or>
         acp_pkce_verifier p \<noteq> None \<or> acp_expires_at p \<noteq> None \<or> acp_last_refreshed_at p \<noteq> None"

record account_response =
  acr_id :: uuid
  acr_provider :: "oauth_provider"
  acr_account_ref :: "string"
  acr_status :: "account_status"
  acr_scopes :: "string"
  acr_pkce_verifier :: "string option"
  acr_expires_at :: "datetime option"
  acr_last_refreshed_at :: "datetime option"
  acr_metadata :: audit_metadata

record account_summary =
  acs_id :: uuid
  acs_provider :: "oauth_provider"
  acs_account_ref :: "string"
  acs_status :: "account_status"
  acs_created_at :: "datetime option"

definition account_response_of :: "account \<Rightarrow> account_response" where
  [dto_ops]: "account_response_of e =
     \<lparr>acr_id = ac_id e, acr_provider = ac_provider e, acr_account_ref = ac_ref e,
      acr_status = ac_status e, acr_scopes = ac_scopes e, acr_pkce_verifier = ac_pkce e,
      acr_expires_at = ac_expires_at e, acr_last_refreshed_at = ac_last_refreshed e,
      acr_metadata = ac_metadata e\<rparr>"

definition account_summary_of :: "account \<Rightarrow> account_summary" where
  [dto_ops]: "account_summary_of e =
     \<lparr>acs_id = ac_id e, acs_provider = ac_provider e, acs_account_ref = ac_ref e,
      acs_status = ac_status e, acs_created_at = account_created_at e\<rparr>"

definition account_of_create :: "uuid \<Rightarrow> create_account \<Rightarrow> account" where
  [dto_ops]: "account_of_create u d =
     \<lparr>ac_id = u, ac_provider = acc_provider d, ac_ref = acc_account_ref d,
      ac_status = acc_status d, ac_scopes = acc_scopes d, ac_pkce = acc_pkce_verifier d,
      ac_expires_at = acc_expires_at d, ac_last_refreshed = acc_last_refreshed_at d,
      ac_metadata = default_audit\<rparr>"

definition account_from_create_dto :: "uuid \<Rightarrow> create_account \<Rightarrow> ('e, account) res" where
  [dto_ops]: "account_from_create_dto u d = Ok (account_of_create u d)"

definition account_apply_update :: "update_account \<Rightarrow> account \<Rightarrow> ('e, account) res" where
  [dto_ops]: "account_apply_update d e = Ok (e
     \<lparr>ac_provider := acu_provider d, ac_ref := acu_account_ref d,
      ac_status := acu_status d, ac_scopes := acu_scopes d,
      ac_pkce := acu_pkce_verifier d, ac_expires_at := acu_expires_at d,
      ac_last_refreshed := acu_last_refreshed_at d\<rparr>)"

definition account_list_response_new ::
    "account_response list \<Rightarrow> 64 word \<Rightarrow> 32 word \<Rightarrow> 32 word \<Rightarrow> account_response list_response" where
  "account_list_response_new = list_response_new"

record account_filter =
  acf_provider :: "oauth_provider option"
  acf_account_ref :: "string option"
  acf_status :: "account_status option"
  acf_scopes :: "string option"
  acf_pkce_verifier :: "string option"

definition account_has_filters :: "account_filter \<Rightarrow> bool" where
  "account_has_filters f \<longleftrightarrow>
     acf_provider f \<noteq> None \<or> acf_account_ref f \<noteq> None \<or> acf_status f \<noteq> None \<or> acf_scopes f \<noteq> None \<or>
         acf_pkce_verifier f \<noteq> None"

text \<open>A stored entity reads back as the request that wrote it, under the same identity and audit.\<close>

lemma account_created_response:
  "account_response_of (account_of_create u d) =
     \<lparr>acr_id = u, acr_provider = acc_provider d, acr_account_ref = acc_account_ref d,
      acr_status = acc_status d, acr_scopes = acc_scopes d,
      acr_pkce_verifier = acc_pkce_verifier d, acr_expires_at = acc_expires_at d,
      acr_last_refreshed_at = acc_last_refreshed_at d, acr_metadata = default_audit\<rparr>"
  by (simp add: dto_ops)

lemma account_updated_response:
  "account_apply_update d e = Ok e' \<Longrightarrow> account_response_of e' =
     \<lparr>acr_id = ac_id e, acr_provider = acu_provider d,
      acr_account_ref = acu_account_ref d, acr_status = acu_status d,
      acr_scopes = acu_scopes d, acr_pkce_verifier = acu_pkce_verifier d,
      acr_expires_at = acu_expires_at d, acr_last_refreshed_at = acu_last_refreshed_at d,
      acr_metadata = ac_metadata e\<rparr>"
  by (auto simp: dto_ops)

subsection \<open>IntegrationConnector\<close>

record create_connector =
  coc_provider :: "string"
  coc_kind :: "connector_kind"
  coc_direction :: "connector_direction"
  coc_status :: "connector_status"

record update_connector =
  cou_provider :: "string"
  cou_kind :: "connector_kind"
  cou_direction :: "connector_direction"
  cou_status :: "connector_status"

record patch_connector =
  cop_provider :: "string option"
  cop_kind :: "connector_kind option"
  cop_direction :: "connector_direction option"
  cop_status :: "connector_status option"

definition patch_connector_has_changes :: "patch_connector \<Rightarrow> bool" where
  "patch_connector_has_changes p \<longleftrightarrow>
     cop_provider p \<noteq> None \<or> cop_kind p \<noteq> None \<or> cop_direction p \<noteq> None \<or> cop_status p \<noteq> None"

record connector_response =
  cor_id :: uuid
  cor_provider :: "string"
  cor_kind :: "connector_kind"
  cor_direction :: "connector_direction"
  cor_status :: "connector_status"
  cor_metadata :: audit_metadata

record connector_summary =
  cos_id :: uuid
  cos_provider :: "string"
  cos_kind :: "connector_kind"
  cos_direction :: "connector_direction"
  cos_created_at :: "datetime option"

definition connector_response_of :: "connector \<Rightarrow> connector_response" where
  [dto_ops]: "connector_response_of e =
     \<lparr>cor_id = co_id e, cor_provider = co_provider e, cor_kind = co_kind e,
      cor_direction = co_direction e, cor_status = co_status e,
      cor_metadata = co_metadata e\<rparr>"

definition connector_summary_of :: "connector \<Rightarrow> connector_summary" where
  [dto_ops]: "connector_summary_of e =
     \<lparr>cos_id = co_id e, cos_provider = co_provider e, cos_kind = co_kind e,
      cos_direction = co_direction e, cos_created_at = connector_created_at e\<rparr>"

definition connector_of_create :: "uuid \<Rightarrow> create_connector \<Rightarrow> connector" where
  [dto_ops]: "connector_of_create u d =
     \<lparr>co_id = u, co_provider = coc_provider d, co_kind = coc_kind d,
      co_direction = coc_direction d, co_status = coc_status d,
      co_metadata = default_audit\<rparr>"

definition connector_from_create_dto :: "uuid \<Rightarrow> create_connector \<Rightarrow> ('e, connector) res" where
  [dto_ops]: "connector_from_create_dto u d = Ok (connector_of_create u d)"

definition connector_apply_update :: "update_connector \<Rightarrow> connector \<Rightarrow> ('e, connector) res" where
  [dto_ops]: "connector_apply_update d e = Ok (e
     \<lparr>co_provider := cou_provider d, co_kind := cou_kind d,
      co_direction := cou_direction d, co_status := cou_status d\<rparr>)"

definition connector_list_response_new ::
    "connector_response list \<Rightarrow> 64 word \<Rightarrow> 32 word \<Rightarrow> 32 word \<Rightarrow> connector_response list_response" where
  "connector_list_response_new = list_response_new"

record connector_filter =
  cof_provider :: "string option"
  cof_kind :: "connector_kind option"
  cof_direction :: "connector_direction option"
  cof_status :: "connector_status option"

definition connector_has_filters :: "connector_filter \<Rightarrow> bool" where
  "connector_has_filters f \<longleftrightarrow>
     cof_provider f \<noteq> None \<or> cof_kind f \<noteq> None \<or> cof_direction f \<noteq> None \<or> cof_status f \<noteq> None"

text \<open>A stored entity reads back as the request that wrote it, under the same identity and audit.\<close>

lemma connector_created_response:
  "connector_response_of (connector_of_create u d) =
     \<lparr>cor_id = u, cor_provider = coc_provider d, cor_kind = coc_kind d,
      cor_direction = coc_direction d, cor_status = coc_status d,
      cor_metadata = default_audit\<rparr>"
  by (simp add: dto_ops)

lemma connector_updated_response:
  "connector_apply_update d e = Ok e' \<Longrightarrow> connector_response_of e' =
     \<lparr>cor_id = co_id e, cor_provider = cou_provider d, cor_kind = cou_kind d,
      cor_direction = cou_direction d, cor_status = cou_status d,
      cor_metadata = co_metadata e\<rparr>"
  by (auto simp: dto_ops)

subsection \<open>IntegrationEvent\<close>

record create_event =
  evc_connector_id :: "uuid"
  evc_event_type :: "string"
  evc_external_id :: "string"
  evc_business_key :: "string"
  evc_status :: "integration_status"
  evc_payload :: "string"
  evc_mapped_ref_type :: "string option"
  evc_mapped_ref_id :: "uuid option"
  evc_error_detail :: "string option"

record update_event =
  evu_connector_id :: "uuid"
  evu_event_type :: "string"
  evu_external_id :: "string"
  evu_business_key :: "string"
  evu_status :: "integration_status"
  evu_payload :: "string"
  evu_mapped_ref_type :: "string option"
  evu_mapped_ref_id :: "uuid option"
  evu_error_detail :: "string option"

record patch_event =
  evp_connector_id :: "uuid option"
  evp_event_type :: "string option"
  evp_external_id :: "string option"
  evp_business_key :: "string option"
  evp_status :: "integration_status option"
  evp_payload :: "string option"
  evp_mapped_ref_type :: "string option"
  evp_mapped_ref_id :: "uuid option"
  evp_error_detail :: "string option"

definition patch_event_has_changes :: "patch_event \<Rightarrow> bool" where
  "patch_event_has_changes p \<longleftrightarrow>
     evp_connector_id p \<noteq> None \<or> evp_event_type p \<noteq> None \<or> evp_external_id p \<noteq> None \<or>
         evp_business_key p \<noteq> None \<or> evp_status p \<noteq> None \<or> evp_payload p \<noteq> None \<or>
         evp_mapped_ref_type p \<noteq> None \<or> evp_mapped_ref_id p \<noteq> None \<or> evp_error_detail p \<noteq> None"

record event_response =
  evr_id :: uuid
  evr_connector_id :: "uuid"
  evr_event_type :: "string"
  evr_external_id :: "string"
  evr_business_key :: "string"
  evr_status :: "integration_status"
  evr_payload :: "string"
  evr_mapped_ref_type :: "string option"
  evr_mapped_ref_id :: "uuid option"
  evr_error_detail :: "string option"
  evr_metadata :: audit_metadata

record event_summary =
  evs_id :: uuid
  evs_connector_id :: "uuid"
  evs_event_type :: "string"
  evs_external_id :: "string"
  evs_created_at :: "datetime option"

definition event_response_of :: "event \<Rightarrow> event_response" where
  [dto_ops]: "event_response_of e =
     \<lparr>evr_id = ev_id e, evr_connector_id = ev_connector e, evr_event_type = ev_type e,
      evr_external_id = ev_external_id e, evr_business_key = ev_business_key e,
      evr_status = ev_status e, evr_payload = ev_payload e,
      evr_mapped_ref_type = ev_ref_type e, evr_mapped_ref_id = ev_ref_id e,
      evr_error_detail = ev_error e, evr_metadata = ev_metadata e\<rparr>"

definition event_summary_of :: "event \<Rightarrow> event_summary" where
  [dto_ops]: "event_summary_of e =
     \<lparr>evs_id = ev_id e, evs_connector_id = ev_connector e, evs_event_type = ev_type e,
      evs_external_id = ev_external_id e, evs_created_at = event_created_at e\<rparr>"

definition event_of_create :: "uuid \<Rightarrow> create_event \<Rightarrow> event" where
  [dto_ops]: "event_of_create u d =
     \<lparr>ev_id = u, ev_connector = evc_connector_id d, ev_type = evc_event_type d,
      ev_external_id = evc_external_id d, ev_business_key = evc_business_key d,
      ev_status = evc_status d, ev_payload = evc_payload d,
      ev_ref_type = evc_mapped_ref_type d, ev_ref_id = evc_mapped_ref_id d,
      ev_error = evc_error_detail d, ev_metadata = default_audit\<rparr>"

definition event_from_create_dto :: "uuid \<Rightarrow> create_event \<Rightarrow> ('e, event) res" where
  [dto_ops]: "event_from_create_dto u d = Ok (event_of_create u d)"

definition event_apply_update :: "update_event \<Rightarrow> event \<Rightarrow> ('e, event) res" where
  [dto_ops]: "event_apply_update d e = Ok (e
     \<lparr>ev_connector := evu_connector_id d, ev_type := evu_event_type d,
      ev_external_id := evu_external_id d, ev_business_key := evu_business_key d,
      ev_status := evu_status d, ev_payload := evu_payload d,
      ev_ref_type := evu_mapped_ref_type d, ev_ref_id := evu_mapped_ref_id d,
      ev_error := evu_error_detail d\<rparr>)"

definition event_list_response_new ::
    "event_response list \<Rightarrow> 64 word \<Rightarrow> 32 word \<Rightarrow> 32 word \<Rightarrow> event_response list_response" where
  "event_list_response_new = list_response_new"

record event_filter =
  evf_connector_id :: "uuid option"
  evf_event_type :: "string option"
  evf_external_id :: "string option"
  evf_business_key :: "string option"
  evf_status :: "integration_status option"
  evf_payload :: "string option"
  evf_mapped_ref_type :: "string option"
  evf_mapped_ref_id :: "uuid option"
  evf_error_detail :: "string option"

definition event_has_filters :: "event_filter \<Rightarrow> bool" where
  "event_has_filters f \<longleftrightarrow>
     evf_connector_id f \<noteq> None \<or> evf_event_type f \<noteq> None \<or> evf_external_id f \<noteq> None \<or>
         evf_business_key f \<noteq> None \<or> evf_status f \<noteq> None \<or> evf_payload f \<noteq> None \<or>
         evf_mapped_ref_type f \<noteq> None \<or> evf_mapped_ref_id f \<noteq> None \<or> evf_error_detail f \<noteq> None"

text \<open>A stored entity reads back as the request that wrote it, under the same identity and audit.\<close>

lemma event_created_response:
  "event_response_of (event_of_create u d) =
     \<lparr>evr_id = u, evr_connector_id = evc_connector_id d,
      evr_event_type = evc_event_type d, evr_external_id = evc_external_id d,
      evr_business_key = evc_business_key d, evr_status = evc_status d,
      evr_payload = evc_payload d, evr_mapped_ref_type = evc_mapped_ref_type d,
      evr_mapped_ref_id = evc_mapped_ref_id d, evr_error_detail = evc_error_detail d,
      evr_metadata = default_audit\<rparr>"
  by (simp add: dto_ops)

lemma event_updated_response:
  "event_apply_update d e = Ok e' \<Longrightarrow> event_response_of e' =
     \<lparr>evr_id = ev_id e, evr_connector_id = evu_connector_id d,
      evr_event_type = evu_event_type d, evr_external_id = evu_external_id d,
      evr_business_key = evu_business_key d, evr_status = evu_status d,
      evr_payload = evu_payload d, evr_mapped_ref_type = evu_mapped_ref_type d,
      evr_mapped_ref_id = evu_mapped_ref_id d, evr_error_detail = evu_error_detail d,
      evr_metadata = ev_metadata e\<rparr>"
  by (auto simp: dto_ops)

end
