(* ===== verification/Row_Rules.thy ===== *)
theory Row_Rules
  imports Crud_Dtos Event_Ledger
begin

text \<open>
  The row rules the schema declares (\<open>application/service/integration_*_service.rs\<close>): the write
  guard the generated services attach, checked against the row a create or an update would store.  The
  rule language is the package \<open>backbone_core::row_rule\<close>, a record of functions over its own values
  here; \<open>row_rule_laws\<close> is what each of its operators promises.  The theorem: a write the
  guard lets through satisfies the CHECK constraints of its table.
\<close>

named_theorems row_rules \<open>definitions of the row rules\<close>

subsection \<open>The write guard of backbone-core\<close>

datatype write_kind = Create | Update | OtherWrite

record 'e write_ctx =
  wc_kind :: write_kind
  wc_before :: "'e option"
  wc_after :: "'e option"

record violation =
  vi_field :: string
  vi_code :: string
  vi_message :: string
  vi_params :: "(string \<times> int) list"

record guard_outcome =
  go_refuse :: "violation list"
  go_shadow :: "violation list"

text \<open>
  \<open>'v\<close> is the package's \<open>Val\<close>; \<open>rule_changed\<close> says whether a field of the row differs from the old
  row, if there is one; \<open>rule_allow\<close> is \<open>GuardOutcome::allow()\<close>.
\<close>

record 'v rule_lib =
  rule_field :: "json \<Rightarrow> string \<Rightarrow> 'v"
  rule_is_not_null :: "'v \<Rightarrow> 'v"
  rule_is_empty :: "'v \<Rightarrow> 'v"
  rule_trim :: "'v \<Rightarrow> 'v"
  rule_length :: "'v \<Rightarrow> 'v"
  rule_num :: "nat \<Rightarrow> 'v"
  rule_not :: "'v \<Rightarrow> 'v"
  rule_and :: "'v \<Rightarrow> 'v \<Rightarrow> 'v"
  rule_le :: "'v \<Rightarrow> 'v \<Rightarrow> 'v"
  rule_holds :: "'v \<Rightarrow> bool"
  rule_changed :: "json option \<Rightarrow> json \<Rightarrow> string list \<Rightarrow> bool"
  rule_allow :: guard_outcome

text \<open>The two shapes of rule the generator emits, \<open>@required\<close> and \<open>@length(max = n)\<close>.\<close>

definition is_required :: "'v rule_lib \<Rightarrow> json \<Rightarrow> string \<Rightarrow> bool" where
  "is_required R row k = rule_holds R (rule_and R (rule_is_not_null R (rule_field R row k))
     (rule_not R (rule_is_empty R (rule_trim R (rule_field R row k)))))"

definition is_at_most :: "'v rule_lib \<Rightarrow> json \<Rightarrow> string \<Rightarrow> nat \<Rightarrow> bool" where
  "is_at_most R row k n =
     rule_holds R (rule_le R (rule_length R (rule_field R row k)) (rule_num R n))"

text \<open>A rule applies to every create, and to an update that changes its field.\<close>

definition applies :: "'v rule_lib \<Rightarrow> 'e write_ctx \<Rightarrow> json option \<Rightarrow> json \<Rightarrow> string \<Rightarrow> bool" where
  "applies R c old row k \<longleftrightarrow>
     wc_kind c = Create \<or> wc_kind c = Update \<and> rule_changed R old row [k]"

definition required_rule ::
  "'v rule_lib \<Rightarrow> 'e write_ctx \<Rightarrow> json option \<Rightarrow> json \<Rightarrow> string \<Rightarrow> violation list" where
  "required_rule R c old row k =
    (if applies R c old row k \<and> \<not> is_required R row k
     then [\<lparr>vi_field = k, vi_code = ''required'', vi_message = k @ '' is required'', vi_params =
         []\<rparr>]
     else [])"

definition max_length_rule ::
  "'v rule_lib \<Rightarrow> 'e write_ctx \<Rightarrow> json option \<Rightarrow> json \<Rightarrow> string \<Rightarrow> nat \<Rightarrow> violation list" where
  "max_length_rule R c old row k n =
    (if applies R c old row k \<and> \<not> is_at_most R row k n
     then [\<lparr>vi_field = k, vi_code = ''max_length'',
            vi_message = k @ '' must be at most '' @ show_nat n @ '' characters'',
            vi_params = [(''max'', int n)]\<rparr>]
     else [])"

text \<open>
  The frame the three \<open>check\<close>s share: other writes and writes without a row pass; serializing these
  entities cannot fail.
\<close>

definition row_check :: "'v rule_lib \<Rightarrow> ('e \<Rightarrow> json) \<Rightarrow> (json option \<Rightarrow> json \<Rightarrow> violation list) \<Rightarrow>
    'e write_ctx \<Rightarrow> guard_outcome" where
  "row_check R to_json rules c =
    (case (if wc_kind c = Create \<or> wc_kind c = Update then wc_after c else None) of
       None \<Rightarrow> rule_allow R
     | Some e \<Rightarrow> \<lparr>go_refuse = rules (map_option to_json (wc_before c)) (to_json e), go_shadow = []\<rparr>)"

subsection \<open>The rules of the three entities\<close>

text \<open>\<open>serde_json::to_value\<close> of an entity; \<open>D\<close> and \<open>M\<close> write an instant and the audit metadata.\<close>

definition json_opt :: "('a \<Rightarrow> json) \<Rightarrow> 'a option \<Rightarrow> json" where
  "json_opt f x = (case x of None \<Rightarrow> JNull | Some y \<Rightarrow> f y)"

definition connector_json :: "uuid_text \<Rightarrow> (audit_metadata \<Rightarrow> json) \<Rightarrow> connector \<Rightarrow> json" where
  [row_rules]: "connector_json X M e = JObject
    [(''id'', JString (show_uuid X (co_id e))),
     (''provider'', JString (co_provider e)),
     (''kind'', JString (connector_kind_str (co_kind e))),
     (''direction'', JString (connector_direction_str (co_direction e))),
     (''status'', JString (connector_status_str (co_status e))),
     (''metadata'', M (co_metadata e))]"

definition connector_rules :: "'v rule_lib \<Rightarrow> connector write_ctx \<Rightarrow> json option \<Rightarrow> json \<Rightarrow> violation
    list" where
  [row_rules]: "connector_rules R c old row =
     required_rule R c old row ''provider'' @
     max_length_rule R c old row ''provider'' 60"

definition connector_check :: "'v rule_lib \<Rightarrow> uuid_text \<Rightarrow> (audit_metadata \<Rightarrow> json) \<Rightarrow> connector
    write_ctx \<Rightarrow> guard_outcome" where
  [row_rules]: "connector_check R X M c = row_check R (connector_json X M) (connector_rules R c) c"

definition account_json :: "uuid_text \<Rightarrow> (datetime \<Rightarrow> json) \<Rightarrow> (audit_metadata \<Rightarrow> json) \<Rightarrow> account \<Rightarrow>
    json" where
  [row_rules]: "account_json X D M e = JObject
    [(''id'', JString (show_uuid X (ac_id e))),
     (''provider'', JString (oauth_provider_str (ac_provider e))),
     (''account_ref'', JString (ac_ref e)),
     (''status'', JString (account_status_str (ac_status e))),
     (''scopes'', JString (ac_scopes e)),
     (''pkce_verifier'', json_opt JString (ac_pkce e)),
     (''expires_at'', json_opt D (ac_expires_at e)),
     (''last_refreshed_at'', json_opt D (ac_last_refreshed e)),
     (''metadata'', M (ac_metadata e))]"

definition account_rules :: "'v rule_lib \<Rightarrow> account write_ctx \<Rightarrow> json option \<Rightarrow> json \<Rightarrow> violation list"
    where
  [row_rules]: "account_rules R c old row =
     required_rule R c old row ''account_ref'' @
     max_length_rule R c old row ''account_ref'' 120 @
     max_length_rule R c old row ''pkce_verifier'' 256"

definition account_check :: "'v rule_lib \<Rightarrow> uuid_text \<Rightarrow> (datetime \<Rightarrow> json) \<Rightarrow> (audit_metadata \<Rightarrow> json) \<Rightarrow>
    account write_ctx \<Rightarrow> guard_outcome" where
  [row_rules]: "account_check R X D M c = row_check R (account_json X D M) (account_rules R c) c"

definition event_json :: "uuid_text \<Rightarrow> (audit_metadata \<Rightarrow> json) \<Rightarrow> event \<Rightarrow> json" where
  [row_rules]: "event_json X M e = JObject
    [(''id'', JString (show_uuid X (ev_id e))),
     (''connector_id'', JString (show_uuid X (ev_connector e))),
     (''event_type'', JString (ev_type e)),
     (''external_id'', JString (ev_external_id e)),
     (''business_key'', JString (ev_business_key e)),
     (''status'', JString (integration_status_str (ev_status e))),
     (''payload'', JString (ev_payload e)),
     (''mapped_ref_type'', json_opt JString (ev_ref_type e)),
     (''mapped_ref_id'', json_opt (\<lambda>u. JString (show_uuid X u)) (ev_ref_id e)),
     (''error_detail'', json_opt JString (ev_error e)),
     (''metadata'', M (ev_metadata e))]"

definition event_rules :: "'v rule_lib \<Rightarrow> event write_ctx \<Rightarrow> json option \<Rightarrow> json \<Rightarrow> violation list"
    where
  [row_rules]: "event_rules R c old row =
     required_rule R c old row ''connector_id'' @
     required_rule R c old row ''event_type'' @
     max_length_rule R c old row ''event_type'' 80 @
     required_rule R c old row ''external_id'' @
     max_length_rule R c old row ''external_id'' 200 @
     required_rule R c old row ''business_key'' @
     max_length_rule R c old row ''business_key'' 200 @
     required_rule R c old row ''payload'' @
     max_length_rule R c old row ''payload'' 20000 @
     max_length_rule R c old row ''mapped_ref_type'' 60 @
     max_length_rule R c old row ''error_detail'' 1000"

definition event_check :: "'v rule_lib \<Rightarrow> uuid_text \<Rightarrow> (audit_metadata \<Rightarrow> json) \<Rightarrow> event write_ctx \<Rightarrow>
    guard_outcome" where
  [row_rules]: "event_check R X M c = row_check R (event_json X M) (event_rules R c) c"

subsection \<open>What the operators promise\<close>

text \<open>Trimming spaces, as PostgreSQL's \<open>btrim\<close> does.\<close>

definition btrim :: "string \<Rightarrow> string" where
  "btrim s = rev (dropWhile (\<lambda>c. c = CHR '' '') (rev (dropWhile (\<lambda>c. c = CHR '' '') s)))"

text \<open>
  What the package says of each operator by itself.  \<open>is_text\<close>, \<open>num\<close> and \<open>truth\<close> say which of its values stand for
  a text, a number and a truth value.  A text field reads as its text; trimming removes at least the
  spaces around it; a text is not null, is empty when it has no character, and has its number of
  characters as length; a literal is its number; \<open>not\<close>, \<open>and\<close> and \<open>le\<close> are what their names say on such values;
  a rule holds unless it is false.  An unchanged field has its old value.  Nothing is said of other
  values, so a rule on a field that is \<open>null\<close> may hold or not.
\<close>

locale rule_operators =
  fixes R :: "'v rule_lib"
    and is_text :: "'v \<Rightarrow> string \<Rightarrow> bool" and num :: "'v \<Rightarrow> nat \<Rightarrow> bool" and truth :: "'v \<Rightarrow> bool \<Rightarrow> bool"
  assumes field_text: "json_get row k = Some (JString s) \<Longrightarrow> is_text (rule_field R row k) s"
    and trim_text: "is_text v s \<Longrightarrow> \<exists>s'. is_text (rule_trim R v) s' \<and> (btrim s = [] \<longrightarrow> s' = [])"
    and not_null: "is_text v s \<Longrightarrow> truth (rule_is_not_null R v) True"
    and empty_text: "is_text v s \<Longrightarrow> truth (rule_is_empty R v) (s = [])"
    and length_num: "is_text v s \<Longrightarrow> num (rule_length R v) (char_length s)"
    and literal_num: "num (rule_num R n) n"
    and negation: "truth v b \<Longrightarrow> truth (rule_not R v) (\<not> b)"
    and conjunction: "truth v b \<Longrightarrow> truth v' b' \<Longrightarrow> truth (rule_and R v v') (b \<and> b')"
    and comparison: "num v m \<Longrightarrow> num v' n \<Longrightarrow> truth (rule_le R v v') (m \<le> n)"
    and false_fails: "truth v False \<Longrightarrow> \<not> rule_holds R v"
begin

text \<open>The two shapes of rule, from the operators they are made of.\<close>

lemma is_required_text:
  assumes "json_get row k = Some (JString s)" and "is_required R row k"
  shows "btrim s \<noteq> []"
proof
  assume "btrim s = []"
  with trim_text [OF field_text [OF assms(1)]] have "is_text (rule_trim R (rule_field R row k)) []" by auto
  from negation [OF empty_text [OF this]]
  have "truth (rule_not R (rule_is_empty R (rule_trim R (rule_field R row k)))) False" by simp
  from conjunction [OF not_null [OF field_text [OF assms(1)]] this] false_fails assms(2)
  show False by (simp add: is_required_def)
qed

lemma is_at_most_text:
  assumes "json_get row k = Some (JString s)" and "is_at_most R row k n"
  shows "char_length s \<le> n"
proof (rule ccontr)
  assume "\<not> char_length s \<le> n"
  with comparison [OF length_num [OF field_text [OF assms(1)]] literal_num [of n]] false_fails assms(2)
  show False by (simp add: is_at_most_def)
qed

end

definition row_rule_laws :: "'v rule_lib \<Rightarrow> bool" where
  "row_rule_laws R \<longleftrightarrow> (\<exists>is_text num truth. rule_operators R is_text num truth)
  \<and> (\<forall>old row k. \<not> rule_changed R (Some old) row [k] \<longrightarrow> json_get old k = json_get row k)"

lemma row_rule_lawsD:
  assumes "row_rule_laws R"
  shows "json_get row k = Some (JString s) \<Longrightarrow> is_required R row k \<Longrightarrow> btrim s \<noteq> []"
    and "json_get row k = Some (JString s) \<Longrightarrow> is_at_most R row k n \<Longrightarrow> char_length s \<le> n"
    and "\<not> rule_changed R (Some old) row [k] \<Longrightarrow> json_get old k = json_get row k"
  using assms rule_operators.is_required_text rule_operators.is_at_most_text
  unfolding row_rule_laws_def by metis+

lemma btrim_non_blank:
  assumes "btrim s \<noteq> []"
  shows "non_blank s"
proof (rule ccontr)
  assume "\<not> non_blank s"
  then have "dropWhile (\<lambda>c. c = CHR '' '') s = []"
    by (simp add: non_blank_def list_ex_iff dropWhile_eq_Nil_conv)
  with assms show False by (simp add: btrim_def)
qed

text \<open>One rule: the field has the property after the write, if it had it before an update.\<close>

definition was :: "'e write_ctx \<Rightarrow> ('e \<Rightarrow> bool) \<Rightarrow> bool" where
  "was c P \<longleftrightarrow> wc_kind c = Create \<or> wc_kind c = Update \<and> (case wc_before c of None \<Rightarrow> False | Some b \<Rightarrow>
      P b)"

lemma required_rule_text:
  assumes "row_rule_laws R" and "was c P"
    and "required_rule R c (map_option J (wc_before c)) (J e) k = []"
    and field: "\<And>e. json_get (J e) k = Some (JString (f e))"
    and P: "\<And>b. P b \<Longrightarrow> non_blank (f b)"
  shows "non_blank (f e)"
proof (cases "applies R c (map_option J (wc_before c)) (J e) k")
  case True
  with assms(3) have "is_required R (J e) k" by (simp add: required_rule_def split: if_splits)
  then show ?thesis using row_rule_lawsD(1) [OF assms(1) field] btrim_non_blank by blast
next
  case False
  with assms(2) obtain b where "wc_before c = Some b" "P b" "\<not> rule_changed R (Some (J b)) (J e)
      [k]"
    by (auto simp: applies_def was_def split: option.splits)
  with row_rule_lawsD(3) [OF assms(1)] field have "f b = f e" by (metis json.inject(3) option.inject)
  with P \<open>P b\<close> show ?thesis by metis
qed

lemma max_length_rule_text:
  assumes "row_rule_laws R" and "was c P"
    and "max_length_rule R c (map_option J (wc_before c)) (J e) k n = []"
    and field: "\<And>e. json_get (J e) k = Some (json_opt JString (f e))"
    and P: "\<And>b s. P b \<Longrightarrow> f b = Some s \<Longrightarrow> char_length s \<le> n"
    and "f e = Some s"
  shows "char_length s \<le> n"
proof (cases "applies R c (map_option J (wc_before c)) (J e) k")
  case True
  with assms(3) have "is_at_most R (J e) k n" by (simp add: max_length_rule_def split: if_splits)
  then show ?thesis
    using row_rule_lawsD(2) [OF assms(1)] field [of e] \<open>f e = Some s\<close> by (simp add: json_opt_def)
next
  case False
  with assms(2) obtain b where b: "wc_before c = Some b" "P b" "\<not> rule_changed R (Some (J b)) (J e)
      [k]"
    by (auto simp: applies_def was_def split: option.splits)
  then have "json_get (J b) k = json_get (J e) k" using row_rule_lawsD(3) [OF assms(1)] by blast
  with field [of b] field [of e] \<open>f e = Some s\<close> have "f b = Some s"
    by (auto simp: json_opt_def split: option.splits)
  with P b show ?thesis by blast
qed

subsection \<open>A write the guard lets through fits its table\<close>

lemma row_check_rules:
  assumes "was c P" and "wc_after c = Some e" and "go_refuse (row_check R J rules c) = []"
  shows "rules (map_option J (wc_before c)) (J e) = []"
  using assms by (auto simp: row_check_def was_def)

text \<open>An optional text field, and a text field as an optional one that is there.\<close>

lemma max_length_optional:
  assumes "row_rule_laws R" and "was c P"
    and "max_length_rule R c (map_option J (wc_before c)) (J e) k n = []"
    and "\<And>e. json_get (J e) k = Some (json_opt JString (f e))"
    and "\<And>b. P b \<Longrightarrow> (case f b of None \<Rightarrow> True | Some s \<Rightarrow> char_length s \<le> n)"
  shows "case f e of None \<Rightarrow> True | Some s \<Rightarrow> char_length s \<le> n"
  proof (cases "f e")
  case (Some s)
  have "char_length s \<le> n"
    by (rule max_length_rule_text [OF assms(1,2,3), of f]) (use Some assms(4,5) in \<open>force+\<close>)
  with Some show ?thesis by simp
qed simp

lemma max_length_plain:
  assumes "row_rule_laws R" and "was c P"
    and "max_length_rule R c (map_option J (wc_before c)) (J e) k n = []"
    and "\<And>e. json_get (J e) k = Some (JString (f e))"
    and "\<And>b. P b \<Longrightarrow> char_length (f b) \<le> n"
  shows "char_length (f e) \<le> n"
  by (rule max_length_rule_text [where f = "\<lambda>e. Some (f e)", OF assms(1,2,3)])
    (auto simp: json_opt_def assms(4,5))

lemma connector_rules_sound:
  assumes "row_rule_laws R" and "was c connector_checks" and "wc_after c = Some e"
    and "go_refuse (connector_check R X M c) = []"
  shows "connector_checks e"
proof -
  have r: "connector_rules R c (map_option (connector_json X M) (wc_before c)) (connector_json X M e) = []"
    by (rule row_check_rules [OF assms(2,3)]) (use assms(4) in \<open>simp add: connector_check_def\<close>)
  note r = r [unfolded connector_rules_def append_is_Nil_conv]
  note rules = required_rule_text [where P = connector_checks and J = "connector_json X M", OF assms(1,2)]
    max_length_plain [where P = connector_checks and J = "connector_json X M", OF assms(1,2)]
  show ?thesis
    unfolding connector_checks_def
    by (intro conjI)
      (rule rules, use r in blast, simp add: connector_json_def, simp add: connector_checks_def)+
qed

lemma account_rules_sound:
  assumes "row_rule_laws R" and "was c account_checks" and "wc_after c = Some e"
    and "go_refuse (account_check R X D M c) = []"
  shows "account_checks e"
proof -
  have r: "account_rules R c (map_option (account_json X D M) (wc_before c)) (account_json X D M e) = []"
    by (rule row_check_rules [OF assms(2,3)]) (use assms(4) in \<open>simp add: account_check_def\<close>)
  note r = r [unfolded account_rules_def append_is_Nil_conv]
  note rules = required_rule_text [where P = account_checks and J = "account_json X D M", OF assms(1,2)]
    max_length_plain [where P = account_checks and J = "account_json X D M", OF assms(1,2)]
    max_length_optional [where P = account_checks and J = "account_json X D M", OF assms(1,2)]
  show ?thesis
    unfolding account_checks_def
    by (intro conjI)
      (rule rules, use r in blast, simp add: account_json_def, simp add: account_checks_def)+
qed

lemma event_rules_kept:
  assumes "row_rule_laws R" and "was c event_checks" and "wc_after c = Some e"
    and "go_refuse (event_check R X M c) = []"
  shows "event_checks e"
proof -
  have r: "event_rules R c (map_option (event_json X M) (wc_before c)) (event_json X M e) = []"
    by (rule row_check_rules [OF assms(2,3)]) (use assms(4) in \<open>simp add: event_check_def\<close>)
  note r = r [unfolded event_rules_def append_is_Nil_conv]
  note req = required_rule_text [where P = event_checks and J = "event_json X M", OF assms(1,2)]
  note len = max_length_plain [where P = event_checks and J = "event_json X M", OF assms(1,2)]
  note opt = max_length_optional [where P = event_checks and J = "event_json X M", OF assms(1,2)]
  note held =
    req [of e "''event_type''" ev_type] len [of e "''event_type''" 80 ev_type]
    req [of e "''external_id''" ev_external_id] len [of e "''external_id''" 200 ev_external_id]
    req [of e "''business_key''" ev_business_key] len [of e "''business_key''" 200 ev_business_key]
    req [of e "''payload''" ev_payload] len [of e "''payload''" 20000 ev_payload]
    opt [of e "''mapped_ref_type''" 60 ev_ref_type] opt [of e "''error_detail''" 1000 ev_error]
  show ?thesis
    unfolding event_checks_def
    by (intro conjI held)
      (use r in blast, simp add: event_json_def, simp add: event_checks_def)+
qed

text \<open>
  C28. The row rules of integration events enforce the table's constraints before the database does:
  when the write guard refuses nothing about a created event, or about an updated one whose old row
  satisfied the CHECK constraints, the row it lets through satisfies every CHECK of its table
  (non-blank type, external id, business key and payload, and all six length limits).  Each operator of
  the rule package is assumed to mean, on texts, numbers and truth values, what its name says; the rules
  built from them are the code's.
\<close>

theorem event_rules_sound:
  assumes "row_rule_laws R"
    and "wc_kind c = Create \<or> wc_kind c = Update \<and> wc_before c = Some b \<and> event_checks b"
    and "wc_after c = Some e" and "go_refuse (event_check R X M c) = []"
  shows "event_checks e"
  by (rule event_rules_kept [OF assms(1) _ assms(3,4)]) (use assms(2) in \<open>auto simp: was_def\<close>)

subsection \<open>An instance of the rule language\<close>

text \<open>Three-valued rules on JSON text fields; an unknown rule passes.\<close>

datatype rule_val = RNull | RBool bool | RText string | RNum nat

fun plain_field :: "json \<Rightarrow> string \<Rightarrow> rule_val" where
  "plain_field row k = (case json_get row k of Some (JString s) \<Rightarrow> RText s | _ \<Rightarrow> RNull)"

fun plain_not :: "rule_val \<Rightarrow> rule_val" where
  "plain_not (RBool b) = RBool (\<not> b)"
| "plain_not _ = RNull"

fun plain_and :: "rule_val \<Rightarrow> rule_val \<Rightarrow> rule_val" where
  "plain_and (RBool a) (RBool b) = RBool (a \<and> b)"
| "plain_and (RBool False) _ = RBool False"
| "plain_and _ (RBool False) = RBool False"
| "plain_and _ _ = RNull"

fun plain_le :: "rule_val \<Rightarrow> rule_val \<Rightarrow> rule_val" where
  "plain_le (RNum m) (RNum n) = RBool (m \<le> n)"
| "plain_le _ _ = RNull"

definition plain_rules :: "rule_val rule_lib" where
  "plain_rules = \<lparr>rule_field = plain_field,
     rule_is_not_null = (\<lambda>v. RBool (v \<noteq> RNull)),
     rule_is_empty = (\<lambda>v. case v of RText s \<Rightarrow> RBool (s = []) | _ \<Rightarrow> RNull),
     rule_trim = (\<lambda>v. case v of RText s \<Rightarrow> RText (btrim s) | _ \<Rightarrow> v),
     rule_length = (\<lambda>v. case v of RText s \<Rightarrow> RNum (char_length s) | _ \<Rightarrow> RNull),
     rule_num = RNum, rule_not = plain_not, rule_and = plain_and, rule_le = plain_le,
     rule_holds = (\<lambda>v. v \<noteq> RBool False),
     rule_changed = (\<lambda>old row ks. case old of None \<Rightarrow> True
       | Some r \<Rightarrow> list_ex (\<lambda>k. json_get r k \<noteq> json_get row k) ks),
     rule_allow = \<lparr>go_refuse = [], go_shadow = []\<rparr>\<rparr>"

interpretation plain: rule_operators plain_rules "\<lambda>v s. v = RText s" "\<lambda>v n. v = RNum n" "\<lambda>v b. v = RBool b"
  by unfold_locales (auto simp: plain_rules_def)

lemma plain_rules_laws: "row_rule_laws plain_rules"
  using plain.rule_operators_axioms by (auto simp: row_rule_laws_def plain_rules_def)

definition sample_event :: event where
  "sample_event = new_event 1 2 ''order.paid'' ''x-1'' ''order-1'' Received ''{}''"

theorem event_rules_sound_witness:
  "event_checks (sample_event\<lparr>ev_payload := ''{1}''\<rparr>)"
proof (rule event_rules_sound [OF plain_rules_laws, where b = sample_event and X = bit_uuids and M = "\<lambda>_. JNull"
      and c = "\<lparr>wc_kind = Update, wc_before = Some sample_event, wc_after = Some (sample_event\<lparr>ev_payload := ''{1}''\<rparr>)\<rparr>"])
  let ?c = "\<lparr>wc_kind = Update, wc_before = Some sample_event, wc_after = Some (sample_event\<lparr>ev_payload := ''{1}''\<rparr>)\<rparr>"
  show "wc_kind ?c = Create \<or> wc_kind ?c = Update \<and> wc_before ?c = Some sample_event \<and> event_checks sample_event"
    by (simp add: event_checks_def sample_event_def new_event_def non_blank_def char_length_def byte_def)
  show "go_refuse (event_check plain_rules bit_uuids (\<lambda>_. JNull) ?c) = []"
    by (simp add: event_check_def row_check_def event_rules_def required_rule_def max_length_rule_def applies_def
        event_json_def plain_rules_def sample_event_def new_event_def is_required_def is_at_most_def btrim_def
        char_length_def byte_def)
qed simp

subsection \<open>The services that carry the rules\<close>

text \<open>
  \<open>GenericCrudService\<close> as the constructors use it: a service over a repository, a guard attached to it,
  and its create, which stores a row (\<open>Inr\<close>) or refuses it with the guard's violations.
\<close>

record ('repo, 'e, 's) service_lib =
  with_repository :: "'repo \<Rightarrow> 's"
  with_guard :: "('e write_ctx \<Rightarrow> guard_outcome) \<Rightarrow> 's \<Rightarrow> 's"
  stores :: "'s \<Rightarrow> 'e \<Rightarrow> violation list + 'e"

definition build_connector_service ::
  "('repo, connector, 's) service_lib \<Rightarrow> 'v rule_lib \<Rightarrow> uuid_text \<Rightarrow> (audit_metadata \<Rightarrow> json) \<Rightarrow> 'repo \<Rightarrow> 's" where
  "build_connector_service L R X M repo = with_guard L (connector_check R X M) (with_repository L repo)"

definition build_account_service ::
  "('repo, account, 's) service_lib \<Rightarrow> 'v rule_lib \<Rightarrow> uuid_text \<Rightarrow> (datetime \<Rightarrow> json) \<Rightarrow> (audit_metadata \<Rightarrow> json)
    \<Rightarrow> 'repo \<Rightarrow> 's" where
  "build_account_service L R X D M repo = with_guard L (account_check R X D M) (with_repository L repo)"

definition build_event_service ::
  "('repo, event, 's) service_lib \<Rightarrow> 'v rule_lib \<Rightarrow> uuid_text \<Rightarrow> (audit_metadata \<Rightarrow> json) \<Rightarrow> 'repo \<Rightarrow> 's" where
  "build_event_service L R X M repo = with_guard L (event_check R X M) (with_repository L repo)"

text \<open>What the package says of a guard: a row the guard refuses is not stored.\<close>

definition service_laws :: "('repo, 'e, 's) service_lib \<Rightarrow> bool" where
  "service_laws L \<longleftrightarrow> (\<forall>g s e e'. stores L (with_guard L g s) e = Inr e' \<longrightarrow>
     go_refuse (g \<lparr>wc_kind = Create, wc_before = None, wc_after = Some e'\<rparr>) = [])"

lemma built_service_stores_checked:
  assumes "service_laws L" and "row_rule_laws R" and "stores L (build_event_service L R X M repo) e = Inr e'"
  shows "event_checks e'"
proof (rule event_rules_kept [OF assms(2)])
  show "go_refuse (event_check R X M \<lparr>wc_kind = Create, wc_before = None, wc_after = Some e'\<rparr>) = []"
    using assms(1,3) by (simp add: service_laws_def build_event_service_def)
qed (simp_all add: was_def)

end
