(* ===== verification/Crud_Http.thy ===== *)
theory Crud_Http
  imports Row_Rules
begin

text \<open>
  The generated CRUD surface (\<open>presentation/http/integration_{connector,event}_handler.rs\<close>, the route
  composition of \<open>lib.rs\<close>): the mapping of service errors to replies, the bearer authentication of
  the protected routes, and which of the package's routers each surface mounts.  \<open>BackboneCrudHandler\<close>, the authentication provider and the
  \<open>Display\<close> of a service error are parameters.
\<close>

named_theorems crud_ops \<open>definitions of the generated CRUD surface\<close>

subsection \<open>Errors\<close>

datatype ('r, 'v) service_error =
    Not_found | Validation_error string | Already_exists string | Repository_error 'r
  | Internal_error string | Violations 'v

datatype crud_error =
    Crud_not_found string | Crud_validation string | Crud_database string | Crud_internal string

text \<open>\<open>to_string\<close> is the package's \<open>Display\<close>, \<open>show_r\<close> that of the repository's error.\<close>

fun crud_error_of ::
  "(('r, 'v) service_error \<Rightarrow> string) \<Rightarrow> ('r \<Rightarrow> string) \<Rightarrow> ('r, 'v) service_error \<Rightarrow> crud_error" where
  "crud_error_of to_string show_r Not_found = Crud_not_found (to_string Not_found)"
| "crud_error_of to_string show_r (Validation_error m) = Crud_validation m"
| "crud_error_of to_string show_r (Already_exists m) = Crud_validation m"
| "crud_error_of to_string show_r (Repository_error e) = Crud_database (show_r e)"
| "crud_error_of to_string show_r (Internal_error m) = Crud_internal m"
| "crud_error_of to_string show_r (Violations v) = Crud_validation (to_string (Violations v))"

fun show_crud_error :: "crud_error \<Rightarrow> string" where
  "show_crud_error (Crud_not_found m) = ''Not found: '' @ m"
| "show_crud_error (Crud_validation m) = ''Validation error: '' @ m"
| "show_crud_error (Crud_database m) = ''Database error: '' @ m"
| "show_crud_error (Crud_internal m) = ''Internal error: '' @ m"

record crud_reply =
  cr_status :: nat
  cr_success :: bool
  cr_error :: string
  cr_message :: string

fun connector_error_code :: "crud_error \<Rightarrow> nat \<times> string" where
  "connector_error_code (Crud_not_found _) = (404, ''INTEGRATIONCONNECTOR_NOT_FOUND'')"
| "connector_error_code (Crud_validation _) = (400, ''INTEGRATIONCONNECTOR_VALIDATION_ERROR'')"
| "connector_error_code (Crud_database _) = (500, ''INTEGRATIONCONNECTOR_DATABASE_ERROR'')"
| "connector_error_code (Crud_internal _) = (500, ''INTEGRATIONCONNECTOR_INTERNAL_ERROR'')"

fun event_error_code :: "crud_error \<Rightarrow> nat \<times> string" where
  "event_error_code (Crud_not_found _) = (404, ''INTEGRATIONEVENT_NOT_FOUND'')"
| "event_error_code (Crud_validation _) = (400, ''INTEGRATIONEVENT_VALIDATION_ERROR'')"
| "event_error_code (Crud_database _) = (500, ''INTEGRATIONEVENT_DATABASE_ERROR'')"
| "event_error_code (Crud_internal _) = (500, ''INTEGRATIONEVENT_INTERNAL_ERROR'')"

definition connector_error_reply :: "crud_error \<Rightarrow> crud_reply" where
  [crud_ops]: "connector_error_reply e = (case connector_error_code e of (st, code) \<Rightarrow>
     \<lparr>cr_status = st, cr_success = False, cr_error = code, cr_message = show_crud_error e\<rparr>)"

definition event_error_reply :: "crud_error \<Rightarrow> crud_reply" where
  [crud_ops]: "event_error_reply e = (case event_error_code e of (st, code) \<Rightarrow>
     \<lparr>cr_status = st, cr_success = False, cr_error = code, cr_message = show_crud_error e\<rparr>)"

text \<open>
  A rejected body is the caller's fault, a missing row is not found, and only the repository and
  internal errors are server errors; a conflict (\<open>AlreadyExists\<close>) is a 400, not a 409.
\<close>

fun_cases crud_validationE: "crud_error_of f g e = Crud_validation m"
fun_cases crud_not_foundE: "crud_error_of f g e = Crud_not_found m"

lemma crud_validation_iff:
  "(\<exists>m. crud_error_of f g e = Crud_validation m) \<longleftrightarrow>
    (\<exists>m. e = Validation_error m \<or> e = Already_exists m) \<or> (\<exists>v. e = Violations v)"
  by (auto elim: crud_validationE)

lemma crud_not_found_iff: "(\<exists>m. crud_error_of f g e = Crud_not_found m) \<longleftrightarrow> e = Not_found"
  by (auto elim: crud_not_foundE)

lemma event_reply_status:
  "cr_status (event_error_reply (crud_error_of f g e)) =
    (case e of Not_found \<Rightarrow> 404 | Repository_error _ \<Rightarrow> 500 | Internal_error _ \<Rightarrow> 500 | _ \<Rightarrow> 400)"
  by (cases e) (simp_all add: crud_ops)

lemma connector_reply_status:
  "cr_status (connector_error_reply (crud_error_of f g e)) = cr_status (event_error_reply (crud_error_of f g e))"
  by (cases e) (simp_all add: crud_ops)

subsection \<open>Bearer authentication\<close>

text \<open>
  The value of the \<open>Authorization\<close> header when it is there and visible ASCII; a missing or foreign
  header asks the provider about the empty token.
\<close>

definition bearer_token :: "string option \<Rightarrow> string" where
  [crud_ops]: "bearer_token header =
    (case header of None \<Rightarrow> []
     | Some raw \<Rightarrow> (case strip_prefix ''Bearer '' raw of Some t \<Rightarrow> t
        | None \<Rightarrow> (case strip_prefix ''bearer '' raw of Some t \<Rightarrow> t | None \<Rightarrow> [])))"

definition unauthorized :: crud_reply where
  [crud_ops]: "unauthorized =
     \<lparr>cr_status = 401, cr_success = False, cr_error = ''unauthorized'', cr_message = ''Authentication required''\<rparr>"

text \<open>The layer around the routes: \<open>inner\<close> runs with the context the provider gave.\<close>

definition protected_routes ::
  "(string \<Rightarrow> 'w \<Rightarrow> 'c option \<times> 'w) \<Rightarrow> ('c \<Rightarrow> 'q \<Rightarrow> 'w \<Rightarrow> 'p \<times> 'w) \<Rightarrow>
    string option \<Rightarrow> 'q \<Rightarrow> 'w \<Rightarrow> (crud_reply + 'p) \<times> 'w" where
  [crud_ops]: "protected_routes authenticate inner header q w =
    (case authenticate (bearer_token header) w of
       (None, w') \<Rightarrow> (Inl unauthorized, w')
     | (Some c, w') \<Rightarrow> (case inner c q w' of (p, w'') \<Rightarrow> (Inr p, w'')))"

text \<open>The generator emits the layer once per entity; around the connector routes it is the same code.\<close>

definition protected_connector_routes ::
  "(string \<Rightarrow> 'w \<Rightarrow> 'c option \<times> 'w) \<Rightarrow> ('c \<Rightarrow> 'q \<Rightarrow> 'w \<Rightarrow> 'p \<times> 'w) \<Rightarrow>
    string option \<Rightarrow> 'q \<Rightarrow> 'w \<Rightarrow> (crud_reply + 'p) \<times> 'w" where
  [crud_ops]: "protected_connector_routes authenticate inner header q w =
    (case authenticate (bearer_token header) w of
       (None, w') \<Rightarrow> (Inl unauthorized, w')
     | (Some c, w') \<Rightarrow> (case inner c q w' of (p, w'') \<Rightarrow> (Inr p, w'')))"

lemma protected_connector_same: "protected_connector_routes = protected_routes"
  by (simp add: crud_ops fun_eq_iff)

text \<open>
  An unauthenticated request reaches no handler: whatever the handlers do, the world is as the
  provider's check left it.
\<close>

lemma protected_refuses:
  assumes "fst (authenticate (bearer_token header) w) = None"
  shows "protected_routes authenticate inner header q w =
    (Inl unauthorized, snd (authenticate (bearer_token header) w))"
  using assms by (cases "authenticate (bearer_token header) w") (simp add: crud_ops)

lemma bearer_token_cases: "bearer_token header \<noteq> [] \<Longrightarrow>
    header = Some (''Bearer '' @ bearer_token header) \<or> header = Some (''bearer '' @ bearer_token header)"
  by (auto simp: bearer_token_def strip_prefix_def prefix_def split: option.splits if_splits)

subsection \<open>The surfaces\<close>

text \<open>
  A router is the list of its routes, a method and a path each; \<open>Router::merge\<close> is concatenation.  The
  routers of a service are the package's, for a path prefix.
\<close>

type_synonym router = "(string \<times> string) list"

record 's crud_handler =
  ch_routes :: "'s \<Rightarrow> string \<Rightarrow> router"
  ch_read_routes :: "'s \<Rightarrow> string \<Rightarrow> router"
  ch_write_routes :: "'s \<Rightarrow> string \<Rightarrow> router"

definition connector_routes :: "'s crud_handler \<Rightarrow> 's \<Rightarrow> router" where
  [crud_ops]: "connector_routes H s = ch_routes H s ''/integration_connectors''"

definition connector_read_routes :: "'s crud_handler \<Rightarrow> 's \<Rightarrow> router" where
  [crud_ops]: "connector_read_routes H s = ch_read_routes H s ''/integration_connectors''"

definition connector_write_routes :: "'s crud_handler \<Rightarrow> 's \<Rightarrow> router" where
  [crud_ops]: "connector_write_routes H s = ch_write_routes H s ''/integration_connectors''"

definition event_routes :: "'s crud_handler \<Rightarrow> 's \<Rightarrow> router" where
  [crud_ops]: "event_routes H s = ch_routes H s ''/integration_events''"

definition event_read_routes :: "'s crud_handler \<Rightarrow> 's \<Rightarrow> router" where
  [crud_ops]: "event_read_routes H s = ch_read_routes H s ''/integration_events''"

definition event_write_routes :: "'s crud_handler \<Rightarrow> 's \<Rightarrow> router" where
  [crud_ops]: "event_write_routes H s = ch_write_routes H s ''/integration_events''"

text \<open>The generated services of a built module, and the two surfaces of \<open>IntegrationsModule\<close>.\<close>

record ('c, 'a, 'e) crud_services =
  cs_connector :: 'c
  cs_account :: 'a
  cs_event :: 'e

definition all_crud_routes ::
  "'c crud_handler \<Rightarrow> 'e crud_handler \<Rightarrow> ('c, 'a, 'e) crud_services \<Rightarrow> router" where
  [crud_ops]: "all_crud_routes HC HE M = connector_routes HC (cs_connector M) @ event_routes HE (cs_event M)"

definition readonly_routes ::
  "'c crud_handler \<Rightarrow> 'e crud_handler \<Rightarrow> ('c, 'a, 'e) crud_services \<Rightarrow> router" where
  [crud_ops]: "readonly_routes HC HE M =
     connector_read_routes HC (cs_connector M) @ event_read_routes HE (cs_event M)"

text \<open>What the package says of its routers: they stay under their prefix, and the read router has
  only GET endpoints.\<close>

definition crud_handler_laws :: "'s crud_handler \<Rightarrow> bool" where
  "crud_handler_laws H \<longleftrightarrow> (\<forall>s pre m p.
     ((m, p) \<in> set (ch_routes H s pre) \<longrightarrow> prefix pre p) \<and>
     ((m, p) \<in> set (ch_read_routes H s pre) \<longrightarrow> prefix pre p \<and> m = ''GET''))"

text \<open>Neither surface mounts an account, and the read-only one mounts no mutation.\<close>

lemma surfaces_mount:
  assumes "crud_handler_laws HC" and "crud_handler_laws HE"
  shows "(m, p) \<in> set (all_crud_routes HC HE M) \<Longrightarrow>
      prefix ''/integration_connectors'' p \<or> prefix ''/integration_events'' p"
    and "(m, p) \<in> set (readonly_routes HC HE M) \<Longrightarrow>
      m = ''GET'' \<and> (prefix ''/integration_connectors'' p \<or> prefix ''/integration_events'' p)"
  using assms by (auto simp: crud_ops crud_handler_laws_def)

lemma no_account_routes:
  assumes "crud_handler_laws HC" and "crud_handler_laws HE"
    and "(m, p) \<in> set (all_crud_routes HC HE M)"
  shows "\<not> prefix ''/integration_accounts'' p"
  using surfaces_mount(1) [OF assms] by (auto simp: prefix_def)

end
