(* ===== verification/Seeder.thy ===== *)
theory Seeder
  imports Event_Ledger
begin

text \<open>
  The database seeders (\<open>seeders/\<close>) and the binary that runs them (\<open>bin/seeder.rs\<close>).  The seed
  scripts under \<open>migrations/seeds\<close> are data a deployment customizes (as shipped they hold only
  comments), so a script is a statement the seeder is given; the connection is a parameter and the
  progress messages are left out.
\<close>

record 'x seeder =
  sd_name :: string
  sd_order :: int
  sd_should_run :: "'x world \<Rightarrow> (db_error, bool) res \<times> 'x world"
  sd_run :: "'x world \<Rightarrow> (db_error, unit) res \<times> 'x world"
  sd_rollback :: "'x world \<Rightarrow> (db_error, unit) res \<times> 'x world"

definition count_connectors :: "nat stmt" where
  [sql]: "count_connectors t d = Inr (length (connectors d), d)"

definition count_events :: "nat stmt" where
  [sql]: "count_events t d = Inr (length (events d), d)"

text \<open>\<open>DELETE FROM\<close> the table; a connector that an event refers to cannot go.\<close>

definition delete_connectors :: "unit stmt" where
  [sql]: "delete_connectors t d =
    (if list_ex (\<lambda>r. list_ex (\<lambda>c. co_id c = ev_connector r) (connectors d)) (events d) then Inl DbFailure
     else Inr ((), d\<lparr>connectors := []\<rparr>))"

definition delete_events :: "unit stmt" where
  [sql]: "delete_events t d = Inr ((), d\<lparr>events := []\<rparr>)"

definition table_empty :: "nat stmt \<Rightarrow> 'x world \<Rightarrow> (db_error, bool) res \<times> 'x world" where
  "table_empty count w = attempt (execute count w) (\<lambda>n w. (Ok (n = 0), w))"

definition connector_seeder :: "unit stmt \<Rightarrow> 'x seeder" where
  "connector_seeder script =
    \<lparr>sd_name = ''SeedIntegrationConnectorSeeder'', sd_order = 1,
     sd_should_run = table_empty count_connectors, sd_run = execute script,
     sd_rollback = execute delete_connectors\<rparr>"

definition event_seeder :: "unit stmt \<Rightarrow> 'x seeder" where
  "event_seeder script =
    \<lparr>sd_name = ''SeedIntegrationEventSeeder'', sd_order = 2,
     sd_should_run = table_empty count_events, sd_run = execute script,
     sd_rollback = execute delete_events\<rparr>"

subsection \<open>The binary\<close>

text \<open>\<open>str::contains\<close>.\<close>

fun contains :: "string \<Rightarrow> string \<Rightarrow> bool" where
  "contains s [] = True"
| "contains [] f = False"
| "contains (c # cs) f = (prefix f (c # cs) \<or> contains cs f)"

definition forced :: "string list \<Rightarrow> bool" where
  "forced args = list_ex (\<lambda>a. a = ''--force'') args"

definition name_filter :: "string list \<Rightarrow> string option" where
  "name_filter args = find (\<lambda>a. \<not> starts_with a ''-'') (drop 1 args)"

fun run_seeders :: "bool \<Rightarrow> string option \<Rightarrow> 'x seeder list \<Rightarrow> 'x world \<Rightarrow> (db_error, unit) res \<times> 'x world" where
  "run_seeders force only [] w = (Ok (), w)"
| "run_seeders force only (s # ss) w =
    (if (case only of None \<Rightarrow> False | Some f \<Rightarrow> \<not> contains (sd_name s) f)
     then run_seeders force only ss w
     else if force then attempt (sd_run s w) (\<lambda>_ w. run_seeders force only ss w)
     else attempt (sd_should_run s w) (\<lambda>yes w.
       if yes then attempt (sd_run s w) (\<lambda>_ w. run_seeders force only ss w)
       else run_seeders force only ss w))"

datatype seeder_error = Database_url_unset | Seeding_failed db_error

definition seeder_main ::
  "unit stmt \<Rightarrow> unit stmt \<Rightarrow> string list \<Rightarrow> string option \<Rightarrow> ('x world \<Rightarrow> (db_error, unit) res \<times> 'x world) \<Rightarrow>
    'x world \<Rightarrow> (seeder_error, unit) res \<times> 'x world" where
  "seeder_main cscript escript args url connect w =
    (case url of
       None \<Rightarrow> (Err Database_url_unset, w)
     | Some _ \<Rightarrow> on_err Seeding_failed (attempt (connect w) (\<lambda>_ w.
         run_seeders (forced args) (name_filter args)
           (sort_key sd_order [connector_seeder cscript, event_seeder escript]) w)))"

subsection \<open>Without \<open>--force\<close> a table that has rows is left alone\<close>

text \<open>A script seeds its own table: the other tables are as before.\<close>

definition seeds_connectors :: "unit stmt \<Rightarrow> bool" where
  "seeds_connectors script \<longleftrightarrow> (\<forall>t d d'. script t d = Inr ((), d') \<longrightarrow> events d' = events d)"

definition seeds_events :: "unit stmt \<Rightarrow> bool" where
  "seeds_events script \<longleftrightarrow> (\<forall>t d d'. script t d = Inr ((), d') \<longrightarrow> connectors d' = connectors d)"

lemma table_empty_reads:
  "tables (snd (table_empty count_connectors w)) = tables w"
  "tables (snd (table_empty count_events w)) = tables w"
  "table_empty count_connectors w = (Ok b, w') \<Longrightarrow> b = (connectors (tables w) = [])"
  "table_empty count_events w = (Ok b, w') \<Longrightarrow> b = (events (tables w) = [])"
  unfolding table_empty_def
     apply (rule attempt_keeps [where I = "\<lambda>v. tables v = tables w"];
       use execute_tables [of _ w] in \<open>force simp: count_connectors_def count_events_def\<close>)+
  by (auto simp: attempt_eq_Ok count_connectors_def count_events_def dest!: execute_Ok)

lemma table_not_empty:
  "connectors (tables w) \<noteq> [] \<Longrightarrow> table_empty count_connectors w \<noteq> (Ok True, w')"
  "events (tables w) \<noteq> [] \<Longrightarrow> table_empty count_events w \<noteq> (Ok True, w')"
  using table_empty_reads(3,4) by blast+

lemma sorted_seeders:
  "sort_key sd_order [connector_seeder a, event_seeder b] = [connector_seeder a, event_seeder b]"
  by (simp add: connector_seeder_def event_seeder_def)

lemma execute_spares:
  assumes "\<And>t d d'. script t d = Inr ((), d') \<Longrightarrow> f d' = f d"
  shows "f (tables (snd (execute script w))) = f (tables w)"
  using execute_tables [of script w] assms by force

text \<open>A predicate on the world survives the run when every seeder that finds its table empty keeps it.\<close>

lemma run_seeders_keeps:
  assumes "\<And>s w. s \<in> set ss \<Longrightarrow> I w \<Longrightarrow> I (snd (sd_should_run s w))"
    and "\<And>s w w'. s \<in> set ss \<Longrightarrow> I w \<Longrightarrow> sd_should_run s w = (Ok True, w') \<Longrightarrow> I w' \<Longrightarrow> I (snd (sd_run s w'))"
    and "I w"
  shows "I (snd (run_seeders False only ss w))"
  using assms
proof (induction ss arbitrary: w)
  case (Cons s ss)
  have rest: "I (snd (run_seeders False only ss v))" if "I v" for v
    using Cons.IH [OF Cons.prems(1,2) that] by simp
  show ?case
  proof (cases "case only of None \<Rightarrow> False | Some f \<Rightarrow> \<not> contains (sd_name s) f")
    case True
    then show ?thesis using rest [OF Cons.prems(3)] by simp
  next
    case False
    have "I (snd (attempt (sd_should_run s w) (\<lambda>yes v.
        if yes then attempt (sd_run s v) (\<lambda>_ v. run_seeders False only ss v)
        else run_seeders False only ss v)))"
    proof (rule attempt_keeps [where I = I])
      show "I (snd (sd_should_run s w))" by (simp add: Cons.prems)
    next
      fix yes v assume q: "sd_should_run s w = (Ok yes, v)" and v: "I v"
      have "I (snd (attempt (sd_run s v) (\<lambda>_ v. run_seeders False only ss v)))" if yes
        by (rule attempt_keeps [where I = I]) (use Cons.prems(2) [OF _ Cons.prems(3) _ v] q that rest in auto)
      then show "I (snd (if yes then attempt (sd_run s v) (\<lambda>_ v. run_seeders False only ss v)
          else run_seeders False only ss v))"
        using rest [OF v] by simp
    qed
    with False show ?thesis by simp
  qed
qed simp

lemma seeder_main_keeps:
  assumes "\<And>v. I v \<Longrightarrow> I (snd (connect v))" and "I w" and "\<not> forced args"
    and "\<And>v only. I v \<Longrightarrow>
      I (snd (run_seeders False only [connector_seeder cscript, event_seeder escript] v))"
  shows "I (snd (seeder_main cscript escript args url connect w))"
  unfolding seeder_main_def sorted_seeders
  using assms
  by (auto simp del: run_seeders.simps split: option.split intro!: attempt_keeps [where I = I])

text \<open>
  Without \<open>--force\<close> the binary leaves every row of a table that has rows: it counts first, and a
  script only ever runs on its own, empty, table.
\<close>

lemma seeder_spares_connectors:
  fixes w :: "'x world"
  assumes "\<not> forced args" and "seeds_events escript"
    and "\<And>v. tables (snd (connect v)) = tables v" and "connectors (tables w) \<noteq> []"
  shows "connectors (tables (snd (seeder_main cscript escript args url connect w))) = connectors (tables w)"
proof (rule seeder_main_keeps [where I = "\<lambda>v. connectors (tables v) = connectors (tables w)", OF _ _ assms(1)])
  fix v :: "'x world" and only assume "connectors (tables v) = connectors (tables w)"
  then show "connectors (tables (snd (run_seeders False only [connector_seeder cscript, event_seeder escript] v)))
      = connectors (tables w)"
    using assms(2,4)
    by (intro run_seeders_keeps [where I = "\<lambda>v. connectors (tables v) = connectors (tables w)"])
      (auto simp: connector_seeder_def event_seeder_def table_empty_reads seeds_events_def
          execute_spares [where f = connectors and script = escript] table_not_empty)
qed (simp_all add: assms(3))

lemma seeder_spares_events:
  fixes w :: "'x world"
  assumes "\<not> forced args" and "seeds_connectors cscript"
    and "\<And>v. tables (snd (connect v)) = tables v" and "events (tables w) \<noteq> []"
  shows "events (tables (snd (seeder_main cscript escript args url connect w))) = events (tables w)"
proof (rule seeder_main_keeps [where I = "\<lambda>v. events (tables v) = events (tables w)", OF _ _ assms(1)])
  fix v :: "'x world" and only assume "events (tables v) = events (tables w)"
  then show "events (tables (snd (run_seeders False only [connector_seeder cscript, event_seeder escript] v)))
      = events (tables w)"
    using assms(2,4)
    by (intro run_seeders_keeps [where I = "\<lambda>v. events (tables v) = events (tables w)"])
      (auto simp: connector_seeder_def event_seeder_def table_empty_reads seeds_connectors_def
          execute_spares [where f = events and script = cscript] table_not_empty)
qed (simp_all add: assms(3))

end
