(* ===== verification/Exports.thy ===== *)
theory Exports
  imports Persistent
begin

text \<open>
  What other modules may use (\<open>exports/types.rs\<close>, \<open>exports/events.rs\<close>): typed ids, the public
  representations, summaries and references of the three entities, and the module's events.  Nothing
  in the crate constructs them; the theory holds the types, the id conversions, and which entity each
  event is about.
\<close>

named_theorems export_ops \<open>definitions of the id conversions\<close>

subsection \<open>IntegrationConnector\<close>

datatype exported_connector_id = Exported_Connector_Id uuid

definition exported_connector_id_new :: "uuid \<Rightarrow> exported_connector_id" where
  [export_ops]: "exported_connector_id_new i = Exported_Connector_Id i"

fun exported_connector_id_into_inner :: "exported_connector_id \<Rightarrow> uuid" where
  "exported_connector_id_into_inner (Exported_Connector_Id i) = i"

definition exported_connector_id_of_uuid :: "uuid \<Rightarrow> exported_connector_id" where
  [export_ops]: "exported_connector_id_of_uuid i = Exported_Connector_Id i"

fun uuid_of_exported_connector_id :: "exported_connector_id \<Rightarrow> uuid" where
  "uuid_of_exported_connector_id (Exported_Connector_Id i) = i"

lemma exported_connector_id_roundtrip:
  "uuid_of_exported_connector_id (exported_connector_id_of_uuid i) = i" "exported_connector_id_of_uuid (uuid_of_exported_connector_id k) = k"
  "exported_connector_id_into_inner (exported_connector_id_new i) = i" "exported_connector_id_new (exported_connector_id_into_inner k) = k"
  by (simp_all add: export_ops) (cases k; simp)+

record exported_connector =
  ec_id :: exported_connector_id
  ec_provider :: string
  ec_kind :: connector_kind
  ec_direction :: connector_direction
  ec_status :: connector_status
  ec_metadata :: json

record exported_connector_summary =
  ecs_id :: exported_connector_id
  ecs_status :: connector_status

record exported_connector_ref =
  ecr_id :: exported_connector_id

subsection \<open>IntegrationAccount\<close>

datatype exported_account_id = Exported_Account_Id uuid

definition exported_account_id_new :: "uuid \<Rightarrow> exported_account_id" where
  [export_ops]: "exported_account_id_new i = Exported_Account_Id i"

fun exported_account_id_into_inner :: "exported_account_id \<Rightarrow> uuid" where
  "exported_account_id_into_inner (Exported_Account_Id i) = i"

definition exported_account_id_of_uuid :: "uuid \<Rightarrow> exported_account_id" where
  [export_ops]: "exported_account_id_of_uuid i = Exported_Account_Id i"

fun uuid_of_exported_account_id :: "exported_account_id \<Rightarrow> uuid" where
  "uuid_of_exported_account_id (Exported_Account_Id i) = i"

lemma exported_account_id_roundtrip:
  "uuid_of_exported_account_id (exported_account_id_of_uuid i) = i" "exported_account_id_of_uuid (uuid_of_exported_account_id k) = k"
  "exported_account_id_into_inner (exported_account_id_new i) = i" "exported_account_id_new (exported_account_id_into_inner k) = k"
  by (simp_all add: export_ops) (cases k; simp)+

record exported_account =
  ea_id :: exported_account_id
  ea_provider :: oauth_provider
  ea_account_ref :: string
  ea_status :: account_status
  ea_scopes :: string
  ea_pkce_verifier :: "string option"
  ea_expires_at :: "datetime option"
  ea_last_refreshed_at :: "datetime option"
  ea_metadata :: json

record exported_account_summary =
  eas_id :: exported_account_id
  eas_status :: account_status

record exported_account_ref =
  ear_id :: exported_account_id

subsection \<open>IntegrationEvent\<close>

datatype exported_event_id = Exported_Event_Id uuid

definition exported_event_id_new :: "uuid \<Rightarrow> exported_event_id" where
  [export_ops]: "exported_event_id_new i = Exported_Event_Id i"

fun exported_event_id_into_inner :: "exported_event_id \<Rightarrow> uuid" where
  "exported_event_id_into_inner (Exported_Event_Id i) = i"

definition exported_event_id_of_uuid :: "uuid \<Rightarrow> exported_event_id" where
  [export_ops]: "exported_event_id_of_uuid i = Exported_Event_Id i"

fun uuid_of_exported_event_id :: "exported_event_id \<Rightarrow> uuid" where
  "uuid_of_exported_event_id (Exported_Event_Id i) = i"

lemma exported_event_id_roundtrip:
  "uuid_of_exported_event_id (exported_event_id_of_uuid i) = i" "exported_event_id_of_uuid (uuid_of_exported_event_id k) = k"
  "exported_event_id_into_inner (exported_event_id_new i) = i" "exported_event_id_new (exported_event_id_into_inner k) = k"
  by (simp_all add: export_ops) (cases k; simp)+

record exported_event =
  ee_id :: exported_event_id
  ee_connector_id :: uuid
  ee_event_type :: string
  ee_external_id :: string
  ee_business_key :: string
  ee_status :: integration_status
  ee_payload :: string
  ee_mapped_ref_type :: "string option"
  ee_mapped_ref_id :: "uuid option"
  ee_error_detail :: "string option"
  ee_metadata :: json

record exported_event_summary =
  ees_id :: exported_event_id
  ees_status :: integration_status

record exported_event_ref =
  eer_id :: exported_event_id

subsection \<open>The events\<close>

record connector_created_event =
  ccv_id :: exported_connector_id
  ccv_data :: exported_connector
  ccv_occurred_at :: datetime

record connector_updated_event =
  cuv_id :: exported_connector_id
  cuv_data :: exported_connector
  cuv_occurred_at :: datetime

record connector_deleted_event =
  cdv_id :: exported_connector_id
  cdv_occurred_at :: datetime

record account_created_event =
  acv_id :: exported_account_id
  acv_data :: exported_account
  acv_occurred_at :: datetime

record account_updated_event =
  auv_id :: exported_account_id
  auv_data :: exported_account
  auv_occurred_at :: datetime

record account_deleted_event =
  adv_id :: exported_account_id
  adv_occurred_at :: datetime

record event_created_event =
  ecv_id :: exported_event_id
  ecv_data :: exported_event
  ecv_occurred_at :: datetime

record event_updated_event =
  euv_id :: exported_event_id
  euv_data :: exported_event
  euv_occurred_at :: datetime

record event_deleted_event =
  edv_id :: exported_event_id
  edv_occurred_at :: datetime

datatype integrations_event =
    IntegrationConnectorCreated connector_created_event
  | IntegrationConnectorUpdated connector_updated_event
  | IntegrationConnectorDeleted connector_deleted_event
  | IntegrationAccountCreated account_created_event
  | IntegrationAccountUpdated account_updated_event
  | IntegrationAccountDeleted account_deleted_event
  | IntegrationEventCreated event_created_event
  | IntegrationEventUpdated event_updated_event
  | IntegrationEventDeleted event_deleted_event

record event_metadata =
  em_module :: string
  em_version :: string

definition default_event_metadata :: event_metadata where
  "default_event_metadata = \<lparr>em_module = ''integrations'', em_version = ''1.0''\<rparr>"

end
