(* ===== verification/Spec2Isabelle.thy ===== *)
theory Spec2Isabelle
  imports Lifecycle Job_Liveness Crud_Http Seeder Exports Unit_Tests
begin

text \<open>
  A verification library for the crate \<open>backbone-integrations\<close>: a module that connects a company's
  accounts at outside providers through OAuth, keeps those connections refreshed, and takes inbound
  provider events into a deduplicated ledger from which they are mapped to business actions of other
  modules.  Paths are relative to \<open>src/src\<close>.

  \<^bold>\<open>The program and its theories.\<close>

  Foundations.
  \<^item> \<open>Prelude\<close>: results with errors and panics, the \<open>?\<close> operator over a threaded world, and the \<open>str\<close>
    operations of the standard library (a \<open>String\<close> is the list of its UTF-8 bytes).
  \<^item> \<open>Outside\<close>: what the crate uses of other packages (\<open>url\<close>, \<open>chrono\<close>, \<open>uuid\<close>, JSON, base64, HMAC), one
    record of functions per package, an argument of every definition that uses it.  A law a proof
    needs is a predicate (\<open>url_laws\<close>, \<open>chrono_laws\<close>, \<open>b64_laws\<close>, \<open>uuid_laws\<close>), with an instance.
  \<^item> \<open>Ordered_Map\<close>: \<open>BTreeMap\<close> as a sorted association list, behind the locale \<open>ordered_map\<close>.
  \<^item> \<open>World\<close>: the database, round trips that may fail, autocommitted statements, transactions as buffers
    over the committed tables, and the state behind the ports.

  Domain (\<open>domain/entity\<close>, \<open>domain/repositories\<close>, \<open>presentation/dto\<close>).
  \<^item> \<open>Enums\<close>, \<open>Entities\<close>: the enums with \<open>Display\<close>, \<open>FromStr\<close> and defaults, the rows and their metadata.
  \<^item> \<open>Partial_Update\<close>, \<open>Persistent\<close>, \<open>Account_Entity\<close>, \<open>Connector_Entity\<close>, \<open>Event_Entity\<close>: constructors,
    setters, builders, \<open>apply_patch\<close> and the traits the generic repository uses the entities through.
  \<^item> \<open>Paging\<close>, \<open>Crud_Dtos\<close>: page parameters, list responses (the page count is computed in \<open>f64\<close>, which
    is modelled), request and response types, filters and every conversion between them.
  \<^item> \<open>Row_Rules\<close>: the write guard of the generated services (\<open>application/service/integration_*_service.rs\<close>)
    and the constructors that attach it; the operators of the rule language are a record of functions, with
    one law per operator in the locale \<open>rule_operators\<close>.  \<open>Exports\<close>: the types other modules may use (\<open>exports\<close>).

  OAuth (\<open>application/service/integrations_oauth.rs\<close>, \<open>integrations_oauth_ports.rs\<close>,
  \<open>infrastructure/http/endpoint_guard.rs\<close>, \<open>infrastructure/jobs/refresh_oauth_credentials.rs\<close>,
  \<open>presentation/http/oauth_handler.rs\<close>).
  \<^item> \<open>Ip_Guard\<close>, \<open>Endpoint_Guard\<close>: address literals and public ranges, the URL rules, the provider
    registry, endpoint resolution, and the transport that re-checks before every call.
  \<^item> \<open>Oauth_Ports\<close>: the credential store and transport ports, the store's contract (the locale
    \<open>credential_store\<close>) and the in-memory store of the crate's tests, which keeps it.
  \<^item> \<open>Oauth_State\<close>, \<open>Identity_Gauntlet\<close>: the signed state, PKCE, the identity checks, the callback page.
  \<^item> \<open>Account_Ledger\<close>: every SQL statement on \<open>integration_accounts\<close>, the table's invariant, and what a
    statement guarantees to the tasks beside it (the locale \<open>table_guarantee\<close>).
  \<^item> \<open>Oauth_Flow\<close>, \<open>Refresh\<close>, \<open>Refresh_Job\<close>: authorize, complete, disconnect, status; the service's sweep
    and lazy refresh; the scheduled job and its fan-out over companies.
  \<^item> \<open>Form_Body\<close>, \<open>Oauth_Handler\<close>: percent decoding and UTF-8, the principal layer, the handlers, the
    mapping of errors to statuses, the routes.
  \<^item> \<open>Account_Work\<close>, \<open>Oauth_Safety\<close>, \<open>Refresh_Safety\<close>, \<open>Job_Safety\<close>: the proofs about them; the locale
    \<open>account_work\<close> lifts the guarantees of the statements to the operations built from them.
  \<^item> \<open>Job_Liveness\<close>: the order in which the job serves accounts, and what its runs and its fan-out do to
    an account whose credential the store does not hand out (the locale \<open>job_store\<close>, an extension of
    \<open>credential_store\<close>).

  Inbound events (\<open>application/service/integrations_write_service.rs\<close>, \<open>integrations_events.rs\<close>,
  \<open>integrations_ports.rs\<close>, \<open>infrastructure/persistence\<close>).
  \<^item> \<open>Event_Ledger\<close>: every SQL statement of the two repositories with the constraints of the migrations.
  \<^item> \<open>Write_Service\<close>, \<open>Write_Safety\<close>, \<open>Inbound_Safety\<close>: registering a connector, receiving an event,
    listing and re-driving failures; the locale \<open>ledger_work\<close> plays the part of \<open>account_work\<close>.

  Composition (\<open>lib.rs\<close>, \<open>lib.ext.rs\<close>, \<open>presentation/http\<close>, \<open>seeders\<close>, \<open>bin/seeder.rs\<close>).
  \<^item> \<open>Module_Build\<close>: the builder and its opt-in to OAuth.  \<open>Crud_Http\<close>: the generated CRUD surface.
    \<open>Seeder\<close>: the seeders and their binary.
  \<^item> \<open>Module_Safety\<close>: everything a host calls on the hand-written services, in any order, as one step
    relation on worlds, and the invariants of its reachable states.
  \<^item> \<open>Lifecycle\<close>: what the module promises, as an abstract machine of connections and deliveries, and the
    proof that the module implements it.
  \<^item> \<open>Unit_Tests\<close>: the crate's own unit tests, run on the model.

  \<^bold>\<open>What the lemmas show.\<close>

  Every operation of the hand-written services keeps the tables' invariants and moves rows along their
  lifecycles only, whatever fails and whatever of them runs beside it (\<open>Module_Safety\<close>), so that any run of
  these operations is a run of the abstract machine, in which nothing final ever changes (\<open>Lifecycle\<close>); the
  generated CRUD routes are not among them and may overwrite any row.  An account becomes
  active only through a valid state, a guarded exchange and the whole gauntlet, at most once per state,
  and a rejected completion writes nothing (\<open>Oauth_Flow\<close>, \<open>Oauth_Safety\<close>).  A refresh counts one of its four (the
  job: three) ends, with what each does to the tables, and counts an expiry exactly when the grant is dead
  (\<open>Refresh_Safety\<close>, \<open>Job_Safety\<close>).  A stuck account starves the service's sweep (\<open>Refresh_Safety\<close>) but not
  the job; a fan-out whose scopes share rows, and a gap in the schedule, lose good connections
  (\<open>Job_Liveness\<close>).  A business key is mapped at most once,
  and what is published was committed with its outbox record (\<open>Inbound_Safety\<close>).  The transport calls only
  validated endpoints and public addresses (\<open>Endpoint_Guard\<close>, \<open>Ip_Guard\<close>).  Requests change nothing without
  the permission of their route (\<open>Oauth_Handler\<close>).  The codecs invert each other (\<open>Oauth_State\<close>,
  \<open>Form_Body\<close>, \<open>Enums\<close>), the generated code meets its contracts (\<open>Event_Entity\<close>, \<open>Row_Rules\<close>), and the page
  arithmetic is exact up to the bounds its theorems name (\<open>Paging\<close>).

  \<^bold>\<open>Bounds, loops and time.\<close>

  The two sweeps recurse on the batch size, which the code counts down too, so no fuel is added.
  \<open>percent_decode\<close> is the code's \<open>while\<close> loop, with a theorem that it ends; trimming, UTF-8 decoding and
  number printing recurse on a measure.  Instants are microseconds, and the panics of chrono's
  arithmetic are results.  Page parameters are machine words; a page count is exact below \<open>2 ^ 53\<close> items,
  and the doubles met here stay in the normal range.  Each port call is a function on worlds, so other
  tasks may run during it; between two statements the rows change only through such calls.

  \<^bold>\<open>Not modelled.\<close>

  \<^item> The generic repository, service and HTTP handler of \<open>backbone-core\<close>, which this crate instantiates
    by type aliases and newtypes; the rule language of its write guard, its routers and its outbox
    staging are parameters.  Writes through the generic CRUD services do not go through the hand-written
    ones, and are no steps of \<open>Module_Safety\<close>.
  \<^item> Derived code: serde's codecs, OpenAPI schemas, \<open>Debug\<close> other than the redacting one.
  \<^item> The web framework's extractors and the replies it gives by itself; logging and progress output.
  \<^item> \<open>domain/event\<close>: aliases of the messaging package's event types, and a handler trait without methods.
  \<^item> Two unit tests whose subject is a package: the length of a base64 SHA-256, and the redirect policy of
    the HTTP client.
  \<^item> The generator's \<open>example_*\<close> files and \<open>handlers/custom.rs\<close>, which no module declares.
\<close>

end
